theory Spec2Isabelle
  imports Main "HOL-Library.AList" "HOL-Library.Multiset" "HOL-Library.Sublist" "HOL-Library.Word"
begin

section \<open>Data model of the collector package\<close>

text \<open>
  The development embeds \<^verbatim>\<open>collector/product.go\<close>. A Go \<^verbatim>\<open>error\<close> is its message;
  \<^verbatim>\<open>nil\<close> is \<open>None\<close>. A Go call returning \<^verbatim>\<open>(value, err)\<close> is a pair, since the code
  reads the value of \<^verbatim>\<open>ListMetrics\<close> and \<^verbatim>\<open>GetSeriesByInstances\<close> also when \<^verbatim>\<open>err\<close> is set.
\<close>

type_synonym error = string

type_synonym Series = string

type_synonym PromMetric = string

datatype KscInstance = KscInstance (GetInstanceID: string)

record Meta =
  MetricName :: string

text \<open>
  \<^verbatim>\<open>metric.Metric\<close>: the two fields that \<^verbatim>\<open>product.go\<close> reads
  (\<^verbatim>\<open>m.LoadTimeAt\<close>, \<^verbatim>\<open>q.Metric.SeriesCache.Series\<close>). Times are \<^verbatim>\<open>int64\<close> (the type of
  \<^verbatim>\<open>time.Now().Unix()\<close>): 64-bit words, whose subtraction wraps and which are compared
  as signed numbers (\<open>sint\<close>).
\<close>

record Metric =
  SeriesCache :: "Series list"
  LoadTimeAt :: "64 word"

text \<open>
  \<^verbatim>\<open>*metric.Metric\<close> is an address into the store \<open>heap\<close> below, so that the registry,
  the queries and \<^verbatim>\<open>LoadSeries\<close> share one object as they do in Go.
\<close>

type_synonym ptr = nat

record Query =
  Metric :: ptr

record KscProductConfig =
  ExcludeMetrics :: "string list"

datatype logLevel = LDebug | LInfo | LWarn | LError

datatype logVal = S string | N nat

text \<open>
  What the collector does to the world outside its memory: a line given to the logger
  (level, message, key-value pairs), or a call of \<^verbatim>\<open>MetricRepo.ListMetrics\<close> with the
  namespace and the instance id. Every function below returns the events it caused, in
  order, next to its result.
\<close>

datatype event =
    Log logLevel string "(string \<times> logVal) list"
  | ListMetricsCall string string

text \<open>
  The collector and the Metric objects it points to: \<open>heap\<close> holds the objects
  (address = index, allocation appends). \<open>MetricMap\<close> is the Go map as an association
  list with distinct keys; a nil map and an empty map are both \<open>[]\<close> (the code replaces
  a nil map by an empty one before any write).
\<close>

record KscProductCollector =
  Namespace :: string
  MetricMap :: "(string \<times> ptr) list"
  Queries :: "Query list"
  heap :: "Metric list"

text \<open>
  Everything the collector calls outside \<^verbatim>\<open>product.go\<close> is a field of the environment
  of one reload cycle or scrape: the handler, the metric repository, the \<^verbatim>\<open>metric\<close> and
  \<^verbatim>\<open>config\<close> packages, the clock, the order in which \<^verbatim>\<open>range\<close> walks the map (which Go
  leaves unspecified), and \<^verbatim>\<open>strings.ToLower\<close> of the Go library (Unicode lower-casing, of
  which nothing is assumed). \<open>'cf\<close> is the type of \<^verbatim>\<open>metric.MetricConfig\<close>.
\<close>

record 'cf Env =
  now :: "64 word"
  ToLower :: "string \<Rightarrow> string"
  ReloadIAMProjects :: "error option"
  GetInstances :: "KscInstance list \<times> error option"
  IsSupportMultiDimensionNamespace :: "string \<Rightarrow> bool"
  DefaultSupportInstances :: nat
  GetProductConfig :: "string \<Rightarrow> KscProductConfig \<times> error option"
  ListMetrics :: "string \<Rightarrow> string \<Rightarrow> Meta list \<times> error option"
  NewMetricConfigWithProductYaml :: "KscProductConfig \<Rightarrow> Meta \<Rightarrow> error + 'cf"
  NewMetric :: "Meta \<Rightarrow> 'cf \<Rightarrow> error + Metric"
  GetSeriesByInstances :: "Metric \<Rightarrow> KscInstance list \<Rightarrow> Series list \<times> error option"
  LoadSeries :: "Metric \<Rightarrow> Series list \<Rightarrow> Metric \<times> error option"
  NewQueryErr :: "ptr \<Rightarrow> error option"
  rangeOrder :: "(string \<times> ptr) list \<Rightarrow> (string \<times> ptr) list"
  DefaultQueryMetricBatchSize :: nat
  DefaultKS3QueryMetricBatchSize :: nat
  GetPromMetricsByQueries :: "Query list \<Rightarrow> PromMetric list \<times> error option"

section \<open>Helpers from other packages\<close>

text \<open>
  Modelled from the spec: \<^verbatim>\<open>util.IsStrInList\<close> is not among the sources; the exclusion
  list "filters out metrics whose lowercase name is in the product's exclusion list", so
  it is membership.
\<close>

definition IsStrInList :: "string list \<Rightarrow> string \<Rightarrow> bool" where
  "IsStrInList l s = List.member l s"

text \<open>
  Modelled from the spec: \<^verbatim>\<open>metric.NewQuery\<close> is not among the sources; a Query "pairs
  one Metric with the Metric Repository needed to fetch its samples". Its error result
  is the environment's \<open>NewQueryErr\<close>. The repository is the collector's own for every
  query, and is left out of the record.
\<close>

definition NewQuery :: "'cf Env \<Rightarrow> ptr \<Rightarrow> error + Query" where
  "NewQuery e m = (case NewQueryErr e m of Some err \<Rightarrow> Inl err | None \<Rightarrow> Inr \<lparr>Metric = m\<rparr>)"

text \<open>\<^verbatim>\<open>fmt.Sprintf("%s.%s", name, id)\<close>\<close>

definition metricKey :: "string \<Rightarrow> string \<Rightarrow> string" where
  "metricKey name instanceId = name @ ''.'' @ instanceId"

section \<open>Discovery and metric construction\<close>

definition createMetricWithMeta :: "'cf Env \<Rightarrow> Meta \<Rightarrow> KscProductConfig \<Rightarrow> string \<Rightarrow>
    KscProductCollector \<Rightarrow> (error + ptr) \<times> KscProductCollector" where
  "createMetricWithMeta e meta productConf instanceId c =
     (let key = metricKey (MetricName meta) instanceId in
      case map_of (MetricMap c) key of
        None \<Rightarrow>
          (case NewMetricConfigWithProductYaml e productConf meta of
             Inl err \<Rightarrow> (Inl err, c)
           | Inr conf \<Rightarrow>
               (case NewMetric e meta conf of
                  Inl err \<Rightarrow> (Inl err, c)
                | Inr nm \<Rightarrow> (Inr (length (heap c)), c\<lparr>heap := heap c @ [nm]\<rparr>)))
      | Some m \<Rightarrow> (Inr m, c))"

text \<open>The body of the loop over \<^verbatim>\<open>allMeta\<close> (lines 161 to 187).\<close>

definition loadMeta :: "'cf Env \<Rightarrow> KscProductConfig \<Rightarrow> string list \<Rightarrow> KscInstance \<Rightarrow> Meta \<Rightarrow>
    KscProductCollector \<Rightarrow> KscProductCollector \<times> event list" where
  "loadMeta e productConf excludeMetrics ins meta c =
     (if excludeMetrics \<noteq> [] \<and> IsStrInList excludeMetrics (ToLower e (MetricName meta))
      then (c, [])
      else
        case createMetricWithMeta e meta productConf (GetInstanceID ins) c of
          (Inl err, c1) \<Rightarrow>
            (c1, [Log LWarn ''Create metric fail''
                    [(''err'', S err), (''Namespace'', S (Namespace c1)),
                     (''name'', S (MetricName meta))]])
        | (Inr nm, c1) \<Rightarrow>
            (let key = metricKey (MetricName meta) (GetInstanceID ins);
                 c2 = c1\<lparr>MetricMap := AList.update key nm (MetricMap c1)\<rparr>;
                 (series, serr) = GetSeriesByInstances e (heap c2 ! nm) [ins];
                 ev1 = (case serr of
                          None \<Rightarrow> []
                        | Some err \<Rightarrow>
                            [Log LError ''create metric series err''
                               [(''err'', S err), (''Namespace'', S (Namespace c2)),
                                (''name'', S (MetricName meta))]]);
                 ev2 = [Log LDebug ''found remote instances''
                          [(''count'', N (length series)), (''Namespace'', S (Namespace c2)),
                           (''name'', S (MetricName meta))]];
                 (m', lerr) = LoadSeries e (heap c2 ! nm) series;
                 c3 = c2\<lparr>heap := (heap c2)[nm := m']\<rparr>;
                 ev3 = (case lerr of
                          None \<Rightarrow> []
                        | Some err \<Rightarrow>
                            [Log LError ''load metric series err''
                               [(''err'', S err), (''Namespace'', S (Namespace c3)),
                                (''name'', S (MetricName meta))]])
             in (c3, ev1 @ ev2 @ ev3)))"

fun loadMetas :: "'cf Env \<Rightarrow> KscProductConfig \<Rightarrow> string list \<Rightarrow> KscInstance \<Rightarrow> Meta list \<Rightarrow>
    KscProductCollector \<Rightarrow> KscProductCollector \<times> event list" where
  "loadMetas e productConf excludeMetrics ins [] c = (c, [])"
| "loadMetas e productConf excludeMetrics ins (meta # allMeta) c =
     (let (c1, ev1) = loadMeta e productConf excludeMetrics ins meta c;
          (c2, ev2) = loadMetas e productConf excludeMetrics ins allMeta c1
      in (c2, ev1 @ ev2))"

text \<open>The body of the loop over \<^verbatim>\<open>instances\<close> (lines 154 to 189).\<close>

definition loadInstance :: "'cf Env \<Rightarrow> KscProductConfig \<Rightarrow> string list \<Rightarrow> KscInstance \<Rightarrow>
    KscProductCollector \<Rightarrow> KscProductCollector \<times> event list" where
  "loadInstance e productConf excludeMetrics ins c =
     (let (allMeta, err) = ListMetrics e (Namespace c) (GetInstanceID ins);
          ev0 = [ListMetricsCall (Namespace c) (GetInstanceID ins)];
          ev1 = (case err of
                   None \<Rightarrow> []
                 | Some err \<Rightarrow>
                     [Log LWarn ''request metric list fail''
                        [(''err'', S err), (''Namespace'', S (Namespace c)),
                         (''InstanceId'', S (GetInstanceID ins))]])
      in if length allMeta > 0
         then (let (c1, ev2) = loadMetas e productConf excludeMetrics ins allMeta c
               in (c1, ev0 @ ev1 @ ev2))
         else (c, ev0 @ ev1))"

fun loadInstances :: "'cf Env \<Rightarrow> KscProductConfig \<Rightarrow> string list \<Rightarrow> KscInstance list \<Rightarrow>
    KscProductCollector \<Rightarrow> KscProductCollector \<times> event list" where
  "loadInstances e productConf excludeMetrics [] c = (c, [])"
| "loadInstances e productConf excludeMetrics (ins # instances) c =
     (let (c1, ev1) = loadInstance e productConf excludeMetrics ins c;
          (c2, ev2) = loadInstances e productConf excludeMetrics instances c1
      in (c2, ev1 @ ev2))"

definition loadMetrics :: "'cf Env \<Rightarrow> KscInstance list \<Rightarrow> KscProductCollector \<Rightarrow>
    error option \<times> KscProductCollector \<times> event list" where
  "loadMetrics e instances c =
     (case GetProductConfig e (Namespace c) of
        (productConf, Some err) \<Rightarrow> (Some err, c, [])
      | (productConf, None) \<Rightarrow>
          (let excludeMetrics = map (ToLower e) (ExcludeMetrics productConf);
               (c1, ev) = loadInstances e productConf excludeMetrics instances c
           in (None, c1, ev)))"

text \<open>
  The loop that loads the queries (lines 125 to 134), over the registry in the order
  \<^verbatim>\<open>range\<close> yields it; \<open>numSeries\<close> is the running count that the final log line reports.
  The test \<^verbatim>\<open>currentTime-m.LoadTimeAt < 60\<close> is the signed reading of the wrapping 64-bit
  difference.
\<close>

fun loadQueries :: "'cf Env \<Rightarrow> 64 word \<Rightarrow> (string \<times> ptr) list \<Rightarrow> nat \<Rightarrow> KscProductCollector \<Rightarrow>
    error option \<times> nat \<times> KscProductCollector" where
  "loadQueries e currentTime [] numSeries c = (None, numSeries, c)"
| "loadQueries e currentTime ((k, m) # rest) numSeries c =
     (if sint (currentTime - LoadTimeAt (heap c ! m)) < 60 then
        (case NewQuery e m of
           Inl err \<Rightarrow> (Some err, numSeries, c)
         | Inr q \<Rightarrow>
             loadQueries e currentTime rest
               (numSeries + length (SeriesCache (heap c ! Metric q)))
               (c\<lparr>Queries := Queries c @ [q]\<rparr>))
      else loadQueries e currentTime rest numSeries c)"

text \<open>
  \<^verbatim>\<open>LoadMetricsByProductConf\<close>. The result of \<^verbatim>\<open>iam.ReloadIAMProjects\<close> is not used
  (the branch on its error is empty). \<open>now e\<close> is the clock read at line 124, after the
  metrics are loaded.
\<close>

definition LoadMetricsByProductConf :: "'cf Env \<Rightarrow> KscProductCollector \<Rightarrow>
    error option \<times> KscProductCollector \<times> event list" where
  "LoadMetricsByProductConf e c =
     (let ev0 = [Log LInfo ''start load metrics'' [(''Namespace'', S (Namespace c))]]
      in case GetInstances e of
           (instances, Some err) \<Rightarrow> (Some err, c, ev0)
         | (instances, None) \<Rightarrow>
             (let (instances1, ev1) =
                    (if IsSupportMultiDimensionNamespace e (Namespace c)
                        \<and> length instances > DefaultSupportInstances e
                     then (take (DefaultSupportInstances e) instances,
                           [Log LWarn ''loaded instances exceeds the maximum load of a single product''
                              [(''Namespace'', S (Namespace c)),
                               (''only_load_instances'', N (DefaultSupportInstances e))]])
                     else (instances, []))
              in case loadMetrics e instances1 c of
                   (Some err, c2, ev2) \<Rightarrow> (Some err, c2, ev0 @ ev1 @ ev2)
                 | (None, c2, ev2) \<Rightarrow>
                     (case loadQueries e (now e) (rangeOrder e (MetricMap c2)) 0 c2 of
                        (Some err, numSeries, c3) \<Rightarrow> (Some err, c3, ev0 @ ev1 @ ev2)
                      | (None, numSeries, c3) \<Rightarrow>
                          (None, c3,
                           ev0 @ ev1 @ ev2 @
                           [Log LInfo ''Init new query''
                              [(''Namespace'', S (Namespace c3)),
                               (''metric_num'', N (length (Queries c3))),
                               (''new_series_num'', N numSeries)]]))))"

section \<open>Query batching\<close>

text \<open>
  Modelled from the spec: \<^verbatim>\<open>QuerySet.SplitByBatch\<close> (package \<^verbatim>\<open>metric\<close>) is not among
  the sources. The spec's contract: "\<^verbatim>\<open>SplitByBatch(size)\<close> gives an ordered sequence of
  batches, each batch an ordered sequence of Query with length at most size (the final
  batch may be shorter)", the batches concatenating back to the original sequence. The
  model cuts batches of \<open>batch\<close> queries off the front. The contract is given for
  positive sizes; for size 0 the model yields no batch.
\<close>

function SplitByBatch :: "nat \<Rightarrow> 'a list \<Rightarrow> 'a list list" where
  "SplitByBatch batch qs =
     (if batch = 0 \<or> qs = [] then []
      else take batch qs # SplitByBatch batch (drop batch qs))"
  by pat_completeness auto
termination
  by (relation "measure (\<lambda>(batch, qs). length qs)") auto

declare SplitByBatch.simps [simp del]

section \<open>Scrape dispatch\<close>

text \<open>
  What one goroutine of \<^verbatim>\<open>Collect\<close> does after its fetch has returned: it logs the
  error, or sends the samples in order. The samples of a fetch that also returned an
  error are dropped.
\<close>

datatype action = Send PromMetric | LogFail error

definition batchTask :: "'cf Env \<Rightarrow> Query list \<Rightarrow> action list" where
  "batchTask e q =
     (case GetPromMetricsByQueries e q of
        (pms, Some err) \<Rightarrow> [LogFail err]
      | (pms, None) \<Rightarrow> map Send pms)"

text \<open>The sink \<^verbatim>\<open>ch\<close> is the list of the samples sent so far, paired with the log.\<close>

fun perform :: "action \<Rightarrow> PromMetric list \<times> event list \<Rightarrow> PromMetric list \<times> event list" where
  "perform (Send pm) (ch, lg) = (ch @ [pm], lg)"
| "perform (LogFail err) (ch, lg) = (ch, lg @ [Log LError ''Get samples fail'' [(''err'', S err)]])"

text \<open>
  The goroutines run interleaved: any goroutine with an action left takes the next
  step. \<^verbatim>\<open>wg.Wait()\<close> returns when no goroutine has an action left.
\<close>

inductive goroutines :: "action list list \<Rightarrow> PromMetric list \<times> event list \<Rightarrow>
    PromMetric list \<times> event list \<Rightarrow> bool" where
  joined: "\<forall>t \<in> set ts. t = [] \<Longrightarrow> goroutines ts s s"
| step: "i < length ts \<Longrightarrow> ts ! i = a # as \<Longrightarrow> goroutines (ts[i := as]) (perform a s) s'
     \<Longrightarrow> goroutines ts s s'"

text \<open>
  \<^verbatim>\<open>Collect\<close> (here \<open>Collect'\<close>, the name \<open>Collect\<close> being the set former of HOL)
  relates the sink before the call to the returned error, the sink after it and the
  lines logged. The named result \<^verbatim>\<open>err\<close> is never assigned, so it is nil. The
  collector is only read.
\<close>

inductive Collect' :: "'cf Env \<Rightarrow> KscProductCollector \<Rightarrow> PromMetric list \<Rightarrow>
    error option \<times> PromMetric list \<times> event list \<Rightarrow> bool" where
  scrape: "batchSize = (if Namespace c = ''KS3'' then DefaultKS3QueryMetricBatchSize e
                        else DefaultQueryMetricBatchSize e)
     \<Longrightarrow> queriesGroup = SplitByBatch batchSize (Queries c)
     \<Longrightarrow> goroutines (map (batchTask e) queriesGroup) (ch, []) (ch', lg)
     \<Longrightarrow> Collect' e c ch (None, ch', lg)"

section \<open>The reloader\<close>

text \<open>
  \<open>cancelled\<close> says that \<^verbatim>\<open>ctx.Done()\<close> is closed. The interval and the ticker are
  timing; what the loop sees of them is given per iteration below.
\<close>

record Reloader =
  collector :: KscProductCollector
  cancelled :: bool

definition Stop :: "Reloader \<Rightarrow> Reloader" where
  "Stop r = r\<lparr>cancelled := True\<rparr>"

definition reloadMetricsByProductConf :: "'cf Env \<Rightarrow> Reloader \<Rightarrow>
    error option \<times> Reloader \<times> event list" where
  "reloadMetricsByProductConf e r =
     (case LoadMetricsByProductConf e (collector r) of
        (err, c, ev) \<Rightarrow> (err, r\<lparr>collector := c\<rparr>, ev))"

datatype selectCase = CtxDone | TickerC

text \<open>
  What the surroundings do during one iteration of the loop of \<^verbatim>\<open>Run\<close>: the environment
  of the reload, whether \<^verbatim>\<open>Stop\<close> is called before the \<^verbatim>\<open>select\<close> is reached, whether a
  tick is waiting in \<^verbatim>\<open>ticker.C\<close> when it is reached, and the case that \<^verbatim>\<open>select\<close> takes
  when both are ready (Go picks one at random) or neither is (the one that comes first).
\<close>

record 'cf Iteration =
  cycleEnv :: "'cf Env"
  stopCalled :: bool
  tickReady :: bool
  pick :: selectCase

definition selectOf :: "bool \<Rightarrow> 'cf Iteration \<Rightarrow> selectCase" where
  "selectOf done it =
     (if done \<and> \<not> tickReady it then CtxDone
      else if tickReady it \<and> \<not> done then TickerC
      else pick it)"

text \<open>
  The loop of \<^verbatim>\<open>Run\<close>, with the number of reloads done and the events caused so far.
  \<open>None\<close>: the loop is still running when the given iterations are used up.
\<close>

fun RunLoop :: "'cf Iteration list \<Rightarrow> Reloader \<Rightarrow> nat \<Rightarrow> event list \<Rightarrow>
    (Reloader \<times> nat \<times> event list) option" where
  "RunLoop [] r n evs = None"
| "RunLoop (it # its) r n evs =
     (let ev1 = [Log LInfo ''start reload product metadata''
                   [(''Namespace'', S (Namespace (collector r)))]];
          (e, r2, ev2) = reloadMetricsByProductConf (cycleEnv it) r;
          ev3 = (case e of
                   None \<Rightarrow> []
                 | Some err \<Rightarrow>
                     [Log LError ''reload product error''
                        [(''err'', S err), (''namespace'', S (Namespace (collector r2)))]]);
          ev4 = [Log LInfo ''complete reload product metadata''
                   [(''Namespace'', S (Namespace (collector r2)))]];
          r3 = (if stopCalled it then Stop r2 else r2);
          evs' = evs @ ev1 @ ev2 @ ev3 @ ev4
      in case selectOf (cancelled r3) it of
           CtxDone \<Rightarrow> Some (Stop r3, Suc n, evs')
         | TickerC \<Rightarrow> RunLoop its r3 (Suc n) evs')"

text \<open>
  \<^verbatim>\<open>Run\<close>: \<^verbatim>\<open>time.Sleep(r.reloadInterval)\<close> changes nothing here; a \<^verbatim>\<open>Stop\<close> during the
  sleep is a \<open>cancelled\<close> reloader at the start of the loop.
\<close>

definition Run :: "'cf Iteration list \<Rightarrow> Reloader \<Rightarrow> (Reloader \<times> nat \<times> event list) option" where
  "Run its r = RunLoop its r 0 []"

section \<open>Reading the events\<close>

text \<open>The instance ids that \<^verbatim>\<open>ListMetrics\<close> was called with, in call order.\<close>

fun listedInstances :: "event list \<Rightarrow> string list" where
  "listedInstances [] = []"
| "listedInstances (ListMetricsCall ns iid # evs) = iid # listedInstances evs"
| "listedInstances (Log l msg kv # evs) = listedInstances evs"

text \<open>The samples that a goroutine with the given actions left sends, in order.\<close>

fun sent :: "action list \<Rightarrow> PromMetric list" where
  "sent [] = []"
| "sent (Send pm # as) = pm # sent as"
| "sent (LogFail err # as) = sent as"

section \<open>Reading the loops\<close>

text \<open>
  Whether the metric of a metadata entry can be built: whether both constructors called
  by \<^verbatim>\<open>createMetricWithMeta\<close> (lines 203 to 211) succeed.
\<close>

definition canBuild :: "'cf Env \<Rightarrow> KscProductConfig \<Rightarrow> Meta \<Rightarrow> bool" where
  "canBuild e productConf meta =
     (case NewMetricConfigWithProductYaml e productConf meta of
        Inl err \<Rightarrow> False
      | Inr conf \<Rightarrow> (case NewMetric e meta conf of Inl err \<Rightarrow> False | Inr nm \<Rightarrow> True))"

text \<open>
  The instances that \<^verbatim>\<open>LoadMetricsByProductConf\<close> hands to \<^verbatim>\<open>loadMetrics\<close> (lines 101 to
  115).
\<close>

definition instancesToLoad :: "'cf Env \<Rightarrow> KscProductCollector \<Rightarrow> KscInstance list" where
  "instancesToLoad e c =
     (if IsSupportMultiDimensionNamespace e (Namespace c)
         \<and> length (fst (GetInstances e)) > DefaultSupportInstances e
      then take (DefaultSupportInstances e) (fst (GetInstances e))
      else fst (GetInstances e))"

text \<open>
  The collector when the two loops of \<^verbatim>\<open>loadMetrics\<close> reach a metadata entry: after the
  instances \<open>xs\<close> that come before its instance \<open>ins\<close>, and the entries \<open>ms\<close> that come
  before it in the listing of \<open>ins\<close>.
\<close>

definition collectorAt :: "'cf Env \<Rightarrow> KscProductConfig \<Rightarrow> string list \<Rightarrow> KscInstance list \<Rightarrow>
    KscInstance \<Rightarrow> Meta list \<Rightarrow> KscProductCollector \<Rightarrow> KscProductCollector" where
  "collectorAt e productConf excludeMetrics xs ins ms c =
     fst (loadMetas e productConf excludeMetrics ins ms
            (fst (loadInstances e productConf excludeMetrics xs c)))"

section \<open>Example worlds\<close>

text \<open>
  Lower-casing of the ASCII letters, other bytes left as they are: what
  \<^verbatim>\<open>strings.ToLower\<close> does on the ASCII names of the examples.
\<close>

definition asciiLowerChar :: "char \<Rightarrow> char" where
  "asciiLowerChar ch =
     (let n = (of_char ch :: nat) in if 65 \<le> n \<and> n \<le> 90 then char_of (n + 32) else ch)"

definition asciiLower :: "string \<Rightarrow> string" where
  "asciiLower s = map asciiLowerChar s"

text \<open>
  A world with one metric name \<open>cpu\<close> per instance, in which construction, series
  resolution and loading succeed and \<^verbatim>\<open>LoadSeries\<close> stamps the metric with the clock. The
  clock, the instance snapshot, the answers of \<^verbatim>\<open>ListMetrics\<close> (by instance id) and the
  error of \<^verbatim>\<open>NewQuery\<close> (by metric) are parameters.
\<close>

definition exampleEnv :: "64 word \<Rightarrow> KscInstance list \<Rightarrow> (string \<Rightarrow> Meta list \<times> error option) \<Rightarrow>
    (ptr \<Rightarrow> error option) \<Rightarrow> unit Env" where
  "exampleEnv t instances listing queryErr =
     \<lparr>now = t,
      ToLower = asciiLower,
      ReloadIAMProjects = None,
      GetInstances = (instances, None),
      IsSupportMultiDimensionNamespace = (\<lambda>ns. ns = ''KEC''),
      DefaultSupportInstances = 2,
      GetProductConfig = (\<lambda>ns. (\<lparr>ExcludeMetrics = [''Mem'']\<rparr>, None)),
      ListMetrics = (\<lambda>ns. listing),
      NewMetricConfigWithProductYaml = (\<lambda>pc meta. Inr ()),
      NewMetric = (\<lambda>meta conf. Inr \<lparr>SeriesCache = [], LoadTimeAt = 0\<rparr>),
      GetSeriesByInstances = (\<lambda>m inss. (map GetInstanceID inss, None)),
      LoadSeries = (\<lambda>m series. (m\<lparr>SeriesCache := series, LoadTimeAt := t\<rparr>, None)),
      NewQueryErr = queryErr,
      rangeOrder = (\<lambda>kvs. kvs),
      DefaultQueryMetricBatchSize = 2,
      DefaultKS3QueryMetricBatchSize = 1,
      GetPromMetricsByQueries =
        (\<lambda>qs. if \<lparr>Metric = 2\<rparr> \<in> set qs then ([], Some ''fetch failed'')
              else (map (\<lambda>q. ''sample'' @ replicate (Metric q) CHR ''+'') qs, None))\<rparr>"

definition noQueryErr :: "ptr \<Rightarrow> error option" where
  "noQueryErr m = None"

definition queryFails :: "ptr \<Rightarrow> error option" where
  "queryFails m = Some ''no query''"

definition cpuOnly :: "string \<Rightarrow> Meta list \<times> error option" where
  "cpuOnly iid = ([\<lparr>MetricName = ''cpu''\<rparr>], None)"

definition emptyCollector :: KscProductCollector where
  "emptyCollector = \<lparr>Namespace = ''KEC'', MetricMap = [], Queries = [], heap = []\<rparr>"

text \<open>The collector after cycle zero at time 100, with the one instance \<open>i-1\<close>.\<close>

definition cycleZero :: KscProductCollector where
  "cycleZero = \<lparr>Namespace = ''KEC'', MetricMap = [(''cpu.i-1'', 0)], Queries = [\<lparr>Metric = 0\<rparr>],
                 heap = [\<lparr>SeriesCache = [''i-1''], LoadTimeAt = 100\<rparr>]\<rparr>"

text \<open>
  Answers of \<^verbatim>\<open>ListMetrics\<close> that fail for the instance \<open>i-1\<close>: with the metadata all the
  same, and with none.
\<close>

definition failingNonEmpty :: "string \<Rightarrow> Meta list \<times> error option" where
  "failingNonEmpty iid =
     (if iid = ''i-1''
      then ([\<lparr>MetricName = ''Mem''\<rparr>, \<lparr>MetricName = ''cpu''\<rparr>], Some ''listing failed'')
      else ([\<lparr>MetricName = ''cpu''\<rparr>], None))"

definition failingEmpty :: "string \<Rightarrow> Meta list \<times> error option" where
  "failingEmpty iid =
     (if iid = ''i-1'' then ([], Some ''listing failed'')
      else ([\<lparr>MetricName = ''cpu''\<rparr>], None))"

text \<open>
  A collector of the namespace \<open>KS3\<close> (batches of one query in the example world) with
  four queries; in the example world the fetch of a batch with the query of metric 2
  fails.
\<close>

definition scrapeCollector :: KscProductCollector where
  "scrapeCollector =
     \<lparr>Namespace = ''KS3'', MetricMap = [],
      Queries = [\<lparr>Metric = 0\<rparr>, \<lparr>Metric = 1\<rparr>, \<lparr>Metric = 2\<rparr>, \<lparr>Metric = 3\<rparr>], heap = []\<rparr>"

text \<open>
  The example world at time 50 with the instances \<open>i-1\<close> and \<open>i-2\<close>, in which the series
  of \<open>i-1\<close> cannot be resolved, the load of the series of \<open>i-2\<close> fails and leaves the
  metric as it was, and \<^verbatim>\<open>NewQuery\<close> fails for the metric at address 1.
\<close>

definition secondQueryFails :: "ptr \<Rightarrow> error option" where
  "secondQueryFails m = (if m = 1 then Some ''no query'' else None)"

definition perItemFailures :: "unit Env" where
  "perItemFailures =
     (exampleEnv 50 [KscInstance ''i-1'', KscInstance ''i-2''] cpuOnly secondQueryFails)
       \<lparr>GetSeriesByInstances :=
          (\<lambda>m inss. if inss = [KscInstance ''i-1''] then ([], Some ''no series'')
                     else (map GetInstanceID inss, None)),
        LoadSeries :=
          (\<lambda>m series. if series = [''i-2''] then (m, Some ''no load'')
                       else (m\<lparr>SeriesCache := series, LoadTimeAt := 50\<rparr>, None))\<rparr>"

text \<open>
  The example world with the one instance \<open>i-1\<close>, whose listing fails and still returns
  two entries: \<open>Mem\<close>, which is excluded, and \<open>disk\<close>, whose metric cannot be built.
\<close>

definition failingUnbuilt :: "string \<Rightarrow> Meta list \<times> error option" where
  "failingUnbuilt iid =
     ([\<lparr>MetricName = ''Mem''\<rparr>, \<lparr>MetricName = ''disk''\<rparr>], Some ''listing failed'')"

definition unbuiltEnv :: "unit Env" where
  "unbuiltEnv =
     (exampleEnv 100 [KscInstance ''i-1''] failingUnbuilt noQueryErr)
       \<lparr>NewMetric :=
          (\<lambda>meta conf. if MetricName meta = ''disk'' then Inl ''no metric''
                        else Inr \<lparr>SeriesCache = [], LoadTimeAt = 0\<rparr>)\<rparr>"

section \<open>What loading the metrics changes\<close>

lemma createMetricWithMeta_existing:
  "map_of (MetricMap c) (metricKey (MetricName meta) iid) = Some m \<Longrightarrow>
   createMetricWithMeta e meta pc iid c = (Inr m, c)"
  by (simp add: createMetricWithMeta_def)

lemma createMetricWithMeta_cases:
  assumes "createMetricWithMeta e meta pc iid c = (r, c')"
  shows "(\<exists>m. map_of (MetricMap c) (metricKey (MetricName meta) iid) = Some m \<and> r = Inr m \<and> c' = c)
       \<or> (map_of (MetricMap c) (metricKey (MetricName meta) iid) = None \<and>
          ((\<exists>err. r = Inl err \<and> c' = c)
           \<or> (\<exists>nm. r = Inr (length (heap c)) \<and> c' = c\<lparr>heap := heap c @ [nm]\<rparr>)))"
  using assms
  by (auto simp: createMetricWithMeta_def split: option.splits sum.splits)

text \<open>
  One pass of the loop body either leaves the collector as it is (excluded name, failed
  construction), or binds the key to a pointer: the pointer the key was bound to, or a
  fresh address.
\<close>

lemma loadMeta_shape:
  assumes "loadMeta e pc ex ins meta c = (c', ev)"
  shows "c' = c
       \<or> (Namespace c' = Namespace c \<and> Queries c' = Queries c
          \<and> MetricMap c' =
              AList.update (metricKey (MetricName meta) (GetInstanceID ins))
                (case map_of (MetricMap c) (metricKey (MetricName meta) (GetInstanceID ins)) of
                   Some m \<Rightarrow> m | None \<Rightarrow> length (heap c))
                (MetricMap c)
          \<and> length (heap c') =
              (case map_of (MetricMap c) (metricKey (MetricName meta) (GetInstanceID ins)) of
                 Some m \<Rightarrow> length (heap c) | None \<Rightarrow> Suc (length (heap c))))"
  using assms
  by (auto simp: loadMeta_def Let_def split: if_splits prod.splits sum.splits
      dest!: createMetricWithMeta_cases)

lemma loadMeta_frame:
  assumes "loadMeta e pc ex ins meta c = (c', ev)"
  shows "Namespace c' = Namespace c" and "Queries c' = Queries c"
    and "length (heap c) \<le> length (heap c')"
    and "map_of (MetricMap c) k = Some m \<Longrightarrow> map_of (MetricMap c') k = Some m"
    and "fst ` set (MetricMap c) \<subseteq> fst ` set (MetricMap c')"
proof -
  note sh = loadMeta_shape[OF assms]
  show "Namespace c' = Namespace c" using sh by auto
  show "Queries c' = Queries c" using sh by auto
  show "length (heap c) \<le> length (heap c')" using sh by (auto split: option.splits)
  show "map_of (MetricMap c) k = Some m \<Longrightarrow> map_of (MetricMap c') k = Some m"
    using sh by (auto simp: update_conv' split: option.splits)
  show "fst ` set (MetricMap c) \<subseteq> fst ` set (MetricMap c')"
    using sh dom_update[of "metricKey (MetricName meta) (GetInstanceID ins)" _ "MetricMap c"]
    by (elim disjE conjE) (simp, simp add: subset_insertI)
qed

lemma loadMetas_frame:
  assumes "loadMetas e pc ex ins metas c = (c', ev)"
  shows "Namespace c' = Namespace c \<and> Queries c' = Queries c
       \<and> length (heap c) \<le> length (heap c')
       \<and> (\<forall>k m. map_of (MetricMap c) k = Some m \<longrightarrow> map_of (MetricMap c') k = Some m)
       \<and> fst ` set (MetricMap c) \<subseteq> fst ` set (MetricMap c')"
  using assms
proof (induction metas arbitrary: c c' ev)
  case Nil
  then show ?case by simp
next
  case (Cons meta metas)
  obtain c1 ev1 where a: "loadMeta e pc ex ins meta c = (c1, ev1)" by (cases "loadMeta e pc ex ins meta c")
  obtain c2 ev2 where b: "loadMetas e pc ex ins metas c1 = (c2, ev2)" by (cases "loadMetas e pc ex ins metas c1")
  from Cons.prems a b have c': "c' = c2" by simp
  from loadMeta_frame[OF a] Cons.IH[OF b] show ?case unfolding c'
    by (metis (no_types, lifting) order_trans)
qed

lemma loadInstance_frame:
  assumes "loadInstance e pc ex ins c = (c', ev)"
  shows "Namespace c' = Namespace c \<and> Queries c' = Queries c
       \<and> length (heap c) \<le> length (heap c')
       \<and> (\<forall>k m. map_of (MetricMap c) k = Some m \<longrightarrow> map_of (MetricMap c') k = Some m)
       \<and> fst ` set (MetricMap c) \<subseteq> fst ` set (MetricMap c')"
proof (cases "ListMetrics e (Namespace c) (GetInstanceID ins)")
  case (Pair allMeta err)
  show ?thesis
  proof (cases "allMeta = []")
    case True
    with Pair assms show ?thesis by (simp add: loadInstance_def)
  next
    case False
    obtain c1 ev1 where b: "loadMetas e pc ex ins allMeta c = (c1, ev1)"
      by (cases "loadMetas e pc ex ins allMeta c")
    with Pair False assms have "c' = c1" by (simp add: loadInstance_def)
    with loadMetas_frame[OF b] show ?thesis by simp
  qed
qed

lemma loadInstances_frame:
  assumes "loadInstances e pc ex instances c = (c', ev)"
  shows "Namespace c' = Namespace c \<and> Queries c' = Queries c
       \<and> length (heap c) \<le> length (heap c')
       \<and> (\<forall>k m. map_of (MetricMap c) k = Some m \<longrightarrow> map_of (MetricMap c') k = Some m)
       \<and> fst ` set (MetricMap c) \<subseteq> fst ` set (MetricMap c')"
  using assms
proof (induction instances arbitrary: c c' ev)
  case Nil
  then show ?case by simp
next
  case (Cons ins instances)
  obtain c1 ev1 where a: "loadInstance e pc ex ins c = (c1, ev1)" by (cases "loadInstance e pc ex ins c")
  obtain c2 ev2 where b: "loadInstances e pc ex instances c1 = (c2, ev2)"
    by (cases "loadInstances e pc ex instances c1")
  from Cons.prems a b have c': "c' = c2" by simp
  from loadInstance_frame[OF a] Cons.IH[OF b] show ?case unfolding c'
    by (metis (no_types, lifting) order_trans)
qed

lemma loadMetrics_frame:
  assumes "loadMetrics e instances c = (r, c', ev)"
  shows "Namespace c' = Namespace c \<and> Queries c' = Queries c
       \<and> length (heap c) \<le> length (heap c')
       \<and> (\<forall>k m. map_of (MetricMap c) k = Some m \<longrightarrow> map_of (MetricMap c') k = Some m)
       \<and> fst ` set (MetricMap c) \<subseteq> fst ` set (MetricMap c')"
proof (cases "GetProductConfig e (Namespace c)")
  case (Pair pc err)
  show ?thesis
  proof (cases err)
    case (Some x)
    with Pair assms show ?thesis by (simp add: loadMetrics_def)
  next
    case None
    obtain c1 ev1 where b: "loadInstances e pc (map (ToLower e) (ExcludeMetrics pc)) instances c = (c1, ev1)"
      by (cases "loadInstances e pc (map (ToLower e) (ExcludeMetrics pc)) instances c")
    with Pair None assms have "c' = c1" by (simp add: loadMetrics_def)
    with loadInstances_frame[OF b] show ?thesis by simp
  qed
qed

section \<open>The query loop\<close>

lemma loadQueries_frame:
  "loadQueries e t xs n c = (r, n', c') \<Longrightarrow>
     Namespace c' = Namespace c \<and> MetricMap c' = MetricMap c \<and> heap c' = heap c"
proof (induction xs arbitrary: n c)
  case Nil
  then show ?case by simp
next
  case (Cons x xs)
  obtain k m where x: "x = (k, m)" by (cases x)
  show ?case
  proof (cases "sint (t - LoadTimeAt (heap c ! m)) < 60")
    case False
    with Cons.prems x have "loadQueries e t xs n c = (r, n', c')" by simp
    from Cons.IH[OF this] show ?thesis .
  next
    case True
    show ?thesis
    proof (cases "NewQueryErr e m")
      case (Some err)
      with Cons.prems x True show ?thesis by (simp add: NewQuery_def)
    next
      case None
      with Cons.prems x True
      have "loadQueries e t xs (n + length (SeriesCache (heap c ! m)))
              (c\<lparr>Queries := Queries c @ [\<lparr>Metric = m\<rparr>]\<rparr>) = (r, n', c')"
        by (simp add: NewQuery_def)
      from Cons.IH[OF this] show ?thesis by simp
    qed
  qed
qed

text \<open>
  A run of the loop that ends without error appends one query per entry that passes the
  test on the load time, in the order of the walk; and no such entry has a failing
  \<open>NewQuery\<close>.
\<close>

lemma loadQueries_None:
  "loadQueries e t xs n c = (None, n', c') \<Longrightarrow>
     Queries c' = Queries c @ map (\<lambda>(k, m). \<lparr>Metric = m\<rparr>)
                               (filter (\<lambda>(k, m). sint (t - LoadTimeAt (heap c ! m)) < 60) xs)
     \<and> (\<forall>(k, m) \<in> set xs. sint (t - LoadTimeAt (heap c ! m)) < 60 \<longrightarrow> NewQueryErr e m = None)"
proof (induction xs arbitrary: n c)
  case Nil
  then show ?case by simp
next
  case (Cons x xs)
  obtain k m where x: "x = (k, m)" by (cases x)
  show ?case
  proof (cases "sint (t - LoadTimeAt (heap c ! m)) < 60")
    case False
    with Cons.prems x have "loadQueries e t xs n c = (None, n', c')" by simp
    from Cons.IH[OF this] False x show ?thesis by simp
  next
    case True
    show ?thesis
    proof (cases "NewQueryErr e m")
      case (Some err)
      with Cons.prems x True show ?thesis by (simp add: NewQuery_def)
    next
      case None
      with Cons.prems x True
      have "loadQueries e t xs (n + length (SeriesCache (heap c ! m)))
              (c\<lparr>Queries := Queries c @ [\<lparr>Metric = m\<rparr>]\<rparr>) = (None, n', c')"
        by (simp add: NewQuery_def)
      from Cons.IH[OF this] True None x show ?thesis by simp
    qed
  qed
qed

text \<open>A run of the loop that ends with an error met a failing \<open>NewQuery\<close> on such an entry.\<close>

lemma loadQueries_Some:
  "loadQueries e t xs n c = (Some err, n', c') \<Longrightarrow>
     \<exists>(k, m) \<in> set xs. sint (t - LoadTimeAt (heap c ! m)) < 60 \<and> NewQueryErr e m = Some err"
proof (induction xs arbitrary: n c)
  case Nil
  then show ?case by simp
next
  case (Cons x xs)
  obtain k m where x: "x = (k, m)" by (cases x)
  show ?case
  proof (cases "sint (t - LoadTimeAt (heap c ! m)) < 60")
    case False
    with Cons.prems x have "loadQueries e t xs n c = (Some err, n', c')" by simp
    from Cons.IH[OF this] x show ?thesis by auto
  next
    case True
    show ?thesis
    proof (cases "NewQueryErr e m")
      case (Some err')
      with Cons.prems x True show ?thesis by (simp add: NewQuery_def)
    next
      case None
      with Cons.prems x True
      have "loadQueries e t xs (n + length (SeriesCache (heap c ! m)))
              (c\<lparr>Queries := Queries c @ [\<lparr>Metric = m\<rparr>]\<rparr>) = (Some err, n', c')"
        by (simp add: NewQuery_def)
      from Cons.IH[OF this] x show ?thesis by auto
    qed
  qed
qed

lemma loadQueries_Queries_prefix:
  "loadQueries e t xs n c = (r, n', c') \<Longrightarrow> \<exists>new. Queries c' = Queries c @ new"
proof (induction xs arbitrary: n c)
  case Nil
  then show ?case by simp
next
  case (Cons x xs)
  obtain k m where x: "x = (k, m)" by (cases x)
  show ?case
  proof (cases "sint (t - LoadTimeAt (heap c ! m)) < 60")
    case False
    with Cons.prems x have "loadQueries e t xs n c = (r, n', c')" by simp
    from Cons.IH[OF this] show ?thesis .
  next
    case True
    show ?thesis
    proof (cases "NewQueryErr e m")
      case (Some err)
      with Cons.prems x True show ?thesis by (simp add: NewQuery_def)
    next
      case None
      with Cons.prems x True
      have "loadQueries e t xs (n + length (SeriesCache (heap c ! m)))
              (c\<lparr>Queries := Queries c @ [\<lparr>Metric = m\<rparr>]\<rparr>) = (r, n', c')"
        by (simp add: NewQuery_def)
      from Cons.IH[OF this] show ?thesis by auto
    qed
  qed
qed

text \<open>
  In every case the loop appends to the Query Set that it found: a prefix of the queries
  of the entries that pass the test, in the order of the walk, and all of them when it
  ends without error.
\<close>

lemma loadQueries_appended:
  "loadQueries e t xs n c = (r, n', c') \<Longrightarrow>
     \<exists>new. Queries c' = Queries c @ new
       \<and> prefix new (map (\<lambda>(k, m). \<lparr>Metric = m\<rparr>)
                        (filter (\<lambda>(k, m). sint (t - LoadTimeAt (heap c ! m)) < 60) xs))
       \<and> (r = None \<longrightarrow>
            new = map (\<lambda>(k, m). \<lparr>Metric = m\<rparr>)
                    (filter (\<lambda>(k, m). sint (t - LoadTimeAt (heap c ! m)) < 60) xs))"
proof (induction xs arbitrary: n c)
  case Nil
  then show ?case by simp
next
  case (Cons x xs)
  obtain k m where x: "x = (k, m)" by (cases x)
  show ?case
  proof (cases "sint (t - LoadTimeAt (heap c ! m)) < 60")
    case False
    with Cons.prems x have "loadQueries e t xs n c = (r, n', c')" by simp
    from Cons.IH[OF this] False x show ?thesis by simp
  next
    case True
    show ?thesis
    proof (cases "NewQueryErr e m")
      case (Some err)
      have "loadQueries e t (x # xs) n c = (Some err, n, c)"
        using x True Some by (simp add: NewQuery_def)
      with Cons.prems have "r = Some err" "c' = c" by simp_all
      then show ?thesis by (intro exI[of _ "[]"]) simp
    next
      case None
      with Cons.prems x True
      have "loadQueries e t xs (n + length (SeriesCache (heap c ! m)))
              (c\<lparr>Queries := Queries c @ [\<lparr>Metric = m\<rparr>]\<rparr>) = (r, n', c')"
        by (simp add: NewQuery_def)
      from Cons.IH[OF this] obtain new where new:
        "Queries c' = Queries c @ \<lparr>Metric = m\<rparr> # new"
        "prefix new (map (\<lambda>(k, m). \<lparr>Metric = m\<rparr>)
                        (filter (\<lambda>(k, m). sint (t - LoadTimeAt (heap c ! m)) < 60) xs))"
        "r = None \<longrightarrow>
            new = map (\<lambda>(k, m). \<lparr>Metric = m\<rparr>)
                    (filter (\<lambda>(k, m). sint (t - LoadTimeAt (heap c ! m)) < 60) xs)"
        by auto
      show ?thesis
        using new x True by (intro exI[of _ "\<lparr>Metric = m\<rparr> # new"]) simp
    qed
  qed
qed

section \<open>The shape of a reload cycle\<close>

text \<open>
  A cycle either stops at the instance listing, or at the product configuration, or
  runs the query loop on the collector that loading the metrics left.
\<close>

lemma LoadMetricsByProductConf_cases:
  assumes "LoadMetricsByProductConf e c = (r, c', ev)"
  obtains (instances) err where "snd (GetInstances e) = Some err" "r = Some err" "c' = c"
  | (config) instances1 err ev2 where "snd (GetInstances e) = None"
      "loadMetrics e instances1 c = (Some err, c', ev2)" "r = Some err"
  | (queries) instances1 c2 ev2 n where "snd (GetInstances e) = None"
      "loadMetrics e instances1 c = (None, c2, ev2)"
      "loadQueries e (now e) (rangeOrder e (MetricMap c2)) 0 c2 = (r, n, c')"
proof (cases "GetInstances e")
  case (Pair xs ierr)
  show ?thesis
  proof (cases ierr)
    case (Some err)
    with Pair assms have "r = Some err" "c' = c"
      by (simp_all add: LoadMetricsByProductConf_def Let_def)
    with Pair Some instances show ?thesis by simp
  next
    case None
    define xs1 where "xs1 = (if IsSupportMultiDimensionNamespace e (Namespace c)
                        \<and> length xs > DefaultSupportInstances e
                     then take (DefaultSupportInstances e) xs else xs)"
    obtain r2 c2 ev2 where lm: "loadMetrics e xs1 c = (r2, c2, ev2)" by (cases "loadMetrics e xs1 c")
    show ?thesis
    proof (cases r2)
      case (Some err)
      with Pair None lm assms have "r = Some err" "c' = c2"
        by (auto simp: LoadMetricsByProductConf_def xs1_def Let_def split: if_splits)
      with config[of xs1 err ev2] Pair None lm Some show ?thesis by simp
    next
      case None2: None
      obtain r3 n c3 where lq: "loadQueries e (now e) (rangeOrder e (MetricMap c2)) 0 c2 = (r3, n, c3)"
        by (cases "loadQueries e (now e) (rangeOrder e (MetricMap c2)) 0 c2")
      with Pair None lm None2 assms have "r = r3" "c' = c3"
        by (auto simp: LoadMetricsByProductConf_def xs1_def Let_def split: if_splits option.splits)
      with queries[of xs1 c2 ev2 n] Pair None lm None2 lq show ?thesis by simp
    qed
  qed
qed

lemma loadMetrics_error:
  "fst (loadMetrics e instances c) = snd (GetProductConfig e (Namespace c))"
  by (cases "GetProductConfig e (Namespace c)")
     (auto simp: loadMetrics_def Let_def split: option.splits prod.splits)

lemma LoadMetricsByProductConf_frame:
  assumes "LoadMetricsByProductConf e c = (r, c', ev)"
  shows "Namespace c' = Namespace c \<and> (\<exists>new. Queries c' = Queries c @ new)
       \<and> length (heap c) \<le> length (heap c')
       \<and> (\<forall>k m. map_of (MetricMap c) k = Some m \<longrightarrow> map_of (MetricMap c') k = Some m)
       \<and> fst ` set (MetricMap c) \<subseteq> fst ` set (MetricMap c')"
  using assms
proof (cases rule: LoadMetricsByProductConf_cases)
  case (instances err)
  then show ?thesis by simp
next
  case (config instances1 err ev2)
  from loadMetrics_frame[OF config(2)] show ?thesis by simp
next
  case (queries instances1 c2 ev2 n)
  from loadMetrics_frame[OF queries(2)] loadQueries_frame[OF queries(3)]
    loadQueries_Queries_prefix[OF queries(3)]
  show ?thesis by simp
qed

lemma asciiLower_Mem: "asciiLower ''Mem'' = ''mem''"
  by code_simp

lemma asciiLower_cpu: "asciiLower ''cpu'' = ''cpu''"
  by code_simp

lemmas example_defs = LoadMetricsByProductConf_def loadMetrics_def loadInstance_def loadMeta_def
  createMetricWithMeta_def NewQuery_def metricKey_def IsStrInList_def asciiLower_Mem asciiLower_cpu
  exampleEnv_def cpuOnly_def emptyCollector_def cycleZero_def noQueryErr_def queryFails_def Let_def

lemma example_cycle_zero:
  "LoadMetricsByProductConf (exampleEnv 100 [KscInstance ''i-1''] cpuOnly noQueryErr) emptyCollector
   = (None,
      \<lparr>Namespace = ''KEC'', MetricMap = [(''cpu.i-1'', 0)], Queries = [\<lparr>Metric = 0\<rparr>],
       heap = [\<lparr>SeriesCache = [''i-1''], LoadTimeAt = 100\<rparr>]\<rparr>,
      [Log LInfo ''start load metrics'' [(''Namespace'', S ''KEC'')],
       ListMetricsCall ''KEC'' ''i-1'',
       Log LDebug ''found remote instances''
         [(''count'', N 1), (''Namespace'', S ''KEC''), (''name'', S ''cpu'')],
       Log LInfo ''Init new query''
         [(''Namespace'', S ''KEC''), (''metric_num'', N 1), (''new_series_num'', N 1)]])"
  by (simp add: example_defs)

text \<open>
  Claim C1, as stated: after a reload cycle the Query Set holds exactly the queries of
  that cycle's fresh metrics and none of an earlier cycle. It fails: the code appends
  to \<open>Queries\<close> and never empties it. Cycle zero at time 100 leaves the collector
  \<open>cycleZero\<close> with the one query of \<open>cpu.i-1\<close>. A reload at time 400 that finds no
  instance returns no error; the only metric of the registry was loaded 300 seconds
  before and fails the test, and its query of cycle zero is still the Query Set.
\<close>

theorem stale_query_stays:
  "fst (snd (LoadMetricsByProductConf
               (exampleEnv 100 [KscInstance ''i-1''] cpuOnly noQueryErr) emptyCollector)) = cycleZero
   \<and> fst (LoadMetricsByProductConf (exampleEnv 400 [] cpuOnly noQueryErr) cycleZero) = None
   \<and> MetricMap (fst (snd (LoadMetricsByProductConf (exampleEnv 400 [] cpuOnly noQueryErr) cycleZero)))
       = [(''cpu.i-1'', 0)]
   \<and> sint (now (exampleEnv 400 [] cpuOnly noQueryErr)
            - LoadTimeAt (heap (fst (snd (LoadMetricsByProductConf
                (exampleEnv 400 [] cpuOnly noQueryErr) cycleZero))) ! 0)) = 300
   \<and> Queries (fst (snd (LoadMetricsByProductConf (exampleEnv 400 [] cpuOnly noQueryErr) cycleZero)))
       = [\<lparr>Metric = 0\<rparr>]"
  by (simp add: example_defs)

text \<open>
  Claim C1, amended. Every reload cycle extends the Query Set and never rebuilds it:
  after \<open>LoadMetricsByProductConf\<close> the Query Set is the Query Set as it was before the
  cycle, followed by the queries built in this cycle. When the cycle returns no error
  these are exactly the queries of the cycle's fresh metrics (one for each entry of the
  registry that passes the test on its load time, in the order of the walk); when it
  returns an error they are the first of them. So the Query Set holds exactly the
  queries of the cycle's fresh metrics only if it was empty before the cycle; the queries
  of earlier cycles stay.
\<close>

theorem Queries_extended_by_fresh:
  assumes "LoadMetricsByProductConf e c = (r, c', ev)"
  shows "\<exists>new. Queries c' = Queries c @ new
       \<and> prefix new (map (\<lambda>(k, m). \<lparr>Metric = m\<rparr>)
                        (filter (\<lambda>(k, m). sint (now e - LoadTimeAt (heap c' ! m)) < 60)
                           (rangeOrder e (MetricMap c'))))
       \<and> (r = None \<longrightarrow>
            new = map (\<lambda>(k, m). \<lparr>Metric = m\<rparr>)
                    (filter (\<lambda>(k, m). sint (now e - LoadTimeAt (heap c' ! m)) < 60)
                       (rangeOrder e (MetricMap c'))))"
  using assms
proof (cases rule: LoadMetricsByProductConf_cases)
  case (instances err)
  then show ?thesis by (intro exI[of _ "[]"]) simp
next
  case (config instances1 err ev2)
  from loadMetrics_frame[OF config(2)] config(3) show ?thesis
    by (intro exI[of _ "[]"]) simp
next
  case (queries instances1 c2 ev2 n)
  note fr = loadQueries_frame[OF queries(3)]
  from loadQueries_appended[OF queries(3)] loadMetrics_frame[OF queries(2)] fr
  show ?thesis by simp
qed

theorem Queries_extended_by_fresh_witness:
  "(\<exists>ev. LoadMetricsByProductConf (exampleEnv 400 [KscInstance ''i-1''] cpuOnly noQueryErr) cycleZero
           = (None,
              cycleZero\<lparr>Queries := [\<lparr>Metric = 0\<rparr>, \<lparr>Metric = 0\<rparr>],
                        heap := [\<lparr>SeriesCache = [''i-1''], LoadTimeAt = 400\<rparr>]\<rparr>, ev))
   \<and> (\<exists>new. [\<lparr>Metric = 0\<rparr>, \<lparr>Metric = 0\<rparr>] = Queries cycleZero @ new \<and> new = [\<lparr>Metric = 0\<rparr>])"
proof -
  let ?E = "exampleEnv 400 [KscInstance ''i-1''] cpuOnly noQueryErr"
  let ?c' = "cycleZero\<lparr>Queries := [\<lparr>Metric = 0\<rparr>, \<lparr>Metric = 0\<rparr>],
                        heap := [\<lparr>SeriesCache = [''i-1''], LoadTimeAt = 400\<rparr>]\<rparr>"
  obtain ev where h: "LoadMetricsByProductConf ?E cycleZero = (None, ?c', ev)"
    by (simp add: example_defs)
  have f: "map (\<lambda>(k, m). \<lparr>Metric = m\<rparr>)
             (filter (\<lambda>(k, m). sint (now ?E - LoadTimeAt (heap ?c' ! m)) < 60)
                (rangeOrder ?E (MetricMap ?c'))) = [\<lparr>Metric = 0\<rparr>]"
    by (simp add: exampleEnv_def cycleZero_def)
  from Queries_extended_by_fresh[OF h]
  obtain new where "Queries ?c' = Queries cycleZero @ new" "new = [\<lparr>Metric = 0\<rparr>]"
    unfolding f by blast
  then have "\<exists>new. [\<lparr>Metric = 0\<rparr>, \<lparr>Metric = 0\<rparr>] = Queries cycleZero @ new \<and> new = [\<lparr>Metric = 0\<rparr>]"
    by simp
  with h show ?thesis by blast
qed

section \<open>Batching: the contract of \<open>SplitByBatch\<close>\<close>

lemma SplitByBatch_Nil: "SplitByBatch n [] = []"
  by (simp add: SplitByBatch.simps)

lemma SplitByBatch_step:
  "0 < n \<Longrightarrow> qs \<noteq> [] \<Longrightarrow> SplitByBatch n qs = take n qs # SplitByBatch n (drop n qs)"
  by (subst SplitByBatch.simps) simp

lemma SplitByBatch_concat: "0 < n \<Longrightarrow> concat (SplitByBatch n qs) = qs"
proof (induction n qs rule: SplitByBatch.induct)
  case (1 batch qs)
  then show ?case
    by (cases "qs = []") (simp_all add: SplitByBatch_Nil SplitByBatch_step)
qed

lemma div_plus_self: "0 < n \<Longrightarrow> (m + n) div n = Suc (m div (n::nat))"
  using div_add_self2[of n m] by simp

lemma ceil_div_step:
  fixes n L :: nat
  assumes "0 < n" "0 < L"
  shows "(L + n - 1) div n = Suc ((L - n + n - 1) div n)"
proof -
  have b: "L + n - 1 = (L - 1) + n" using assms by simp
  have l: "(L + n - 1) div n = Suc ((L - 1) div n)"
    unfolding b using assms(1) by (rule div_plus_self)
  have r: "(L - n + n - 1) div n = (L - 1) div n"
  proof (cases "n \<le> L")
    case True
    then have "L - n + n - 1 = L - 1" by simp
    then show ?thesis by simp
  next
    case False
    then have "L - n + n - 1 = n - 1" "L - 1 < n" "n - 1 < n" using assms by simp_all
    then show ?thesis by (simp only: div_less)
  qed
  show ?thesis unfolding l r ..
qed

lemma SplitByBatch_length: "0 < n \<Longrightarrow> length (SplitByBatch n qs) = (length qs + n - 1) div n"
proof (induction n qs rule: SplitByBatch.induct)
  case (1 batch qs)
  show ?case
  proof (cases "qs = []")
    case True
    then show ?thesis using "1.prems" by (simp add: SplitByBatch_Nil)
  next
    case False
    then have "length (SplitByBatch batch qs) = Suc ((length qs - batch + batch - 1) div batch)"
      using 1 by (simp add: SplitByBatch_step)
    then show ?thesis using ceil_div_step[of batch "length qs"] False "1.prems" by simp
  qed
qed

lemma SplitByBatch_sizes:
  "0 < n \<Longrightarrow> i < length (SplitByBatch n qs) \<Longrightarrow>
     length (SplitByBatch n qs ! i) \<le> n \<and> SplitByBatch n qs ! i \<noteq> [] \<and>
     (Suc i < length (SplitByBatch n qs) \<longrightarrow> length (SplitByBatch n qs ! i) = n)"
proof (induction n qs arbitrary: i rule: SplitByBatch.induct)
  case (1 batch qs)
  show ?case
  proof (cases "qs = []")
    case True
    then show ?thesis using "1.prems" by (simp add: SplitByBatch_Nil)
  next
    case False
    note step = SplitByBatch_step[OF "1.prems"(1) False]
    show ?thesis
    proof (cases i)
      case 0
      have "Suc 0 < length (SplitByBatch batch qs) \<Longrightarrow> batch \<le> length qs"
      proof (rule ccontr)
        assume a: "Suc 0 < length (SplitByBatch batch qs)" and b: "\<not> batch \<le> length qs"
        then have "drop batch qs = []" by simp
        then show False using a step by (simp add: SplitByBatch_Nil)
      qed
      then show ?thesis using 0 step False "1.prems"(1) by auto
    next
      case (Suc j)
      then have "j < length (SplitByBatch batch (drop batch qs))" using "1.prems"(2) step by simp
      from "1.IH"[OF _ "1.prems"(1) this] False "1.prems"(1) show ?thesis using Suc step by simp
    qed
  qed
qed

text \<open>
  Claim C5. For a Query Set of length \<open>L\<close> and a positive batch size \<open>n\<close>,
  \<open>SplitByBatch n\<close> yields \<open>ceil (L / n)\<close> batches (written \<open>(L + n - 1) div n\<close>), every
  batch has at most \<open>n\<close> queries and every batch but the last exactly \<open>n\<close>, and the batches
  concatenated in order are the Query Set. The function is pure: the Query Set it is
  given is a value and is not changed.
\<close>

theorem SplitByBatch_contract:
  assumes "0 < n"
  shows "length (SplitByBatch n qs) = (length qs + n - 1) div n
       \<and> (\<forall>i < length (SplitByBatch n qs).
            length (SplitByBatch n qs ! i) \<le> n
            \<and> (Suc i < length (SplitByBatch n qs) \<longrightarrow> length (SplitByBatch n qs ! i) = n))
       \<and> concat (SplitByBatch n qs) = qs"
  using assms SplitByBatch_length[of n qs] SplitByBatch_sizes[of n _ qs] SplitByBatch_concat[of n qs]
  by blast

theorem SplitByBatch_contract_witness:
  "(0::nat) < 2
   \<and> SplitByBatch 2 [\<lparr>Metric = 0\<rparr>, \<lparr>Metric = 1\<rparr>, \<lparr>Metric = 2\<rparr>, \<lparr>Metric = 3\<rparr>, \<lparr>Metric = 4\<rparr>]
       = [[\<lparr>Metric = 0\<rparr>, \<lparr>Metric = 1\<rparr>], [\<lparr>Metric = 2\<rparr>, \<lparr>Metric = 3\<rparr>], [\<lparr>Metric = 4\<rparr>]]
   \<and> length (SplitByBatch 2 [\<lparr>Metric = 0\<rparr>, \<lparr>Metric = 1\<rparr>, \<lparr>Metric = 2\<rparr>, \<lparr>Metric = 3\<rparr>, \<lparr>Metric = 4\<rparr>])
       = (5 + 2 - 1) div 2
   \<and> concat (SplitByBatch 2 [\<lparr>Metric = 0\<rparr>, \<lparr>Metric = 1\<rparr>, \<lparr>Metric = 2\<rparr>, \<lparr>Metric = 3\<rparr>, \<lparr>Metric = 4\<rparr>])
       = [\<lparr>Metric = 0\<rparr>, \<lparr>Metric = 1\<rparr>, \<lparr>Metric = 2\<rparr>, \<lparr>Metric = 3\<rparr>, \<lparr>Metric = 4\<rparr>]"
proof -
  have pos: "(0::nat) < 2" by simp
  have ev: "SplitByBatch 2 [\<lparr>Metric = 0\<rparr>, \<lparr>Metric = 1\<rparr>, \<lparr>Metric = 2\<rparr>, \<lparr>Metric = 3\<rparr>, \<lparr>Metric = 4\<rparr>]
       = [[\<lparr>Metric = 0\<rparr>, \<lparr>Metric = 1\<rparr>], [\<lparr>Metric = 2\<rparr>, \<lparr>Metric = 3\<rparr>], [\<lparr>Metric = 4\<rparr>]]"
    by (simp add: SplitByBatch.simps)
  from SplitByBatch_contract[OF pos,
      of "[\<lparr>Metric = 0\<rparr>, \<lparr>Metric = 1\<rparr>, \<lparr>Metric = 2\<rparr>, \<lparr>Metric = 3\<rparr>, \<lparr>Metric = 4\<rparr>]"]
  show ?thesis using ev by simp
qed

section \<open>One metadata entry in the loops\<close>

lemma update_bound:
  "map_of al k = Some v \<Longrightarrow> AList.update k v al = al"
  by (induction al) (auto split: if_splits)

lemma update_fresh:
  "map_of al k = None \<Longrightarrow> AList.update k v al = al @ [(k, v)]"
  by (induction al) (auto split: if_splits)

lemma loadInstances_append:
  "loadInstances e pc ex (xs @ ys) c =
     (let (c1, ev1) = loadInstances e pc ex xs c;
          (c2, ev2) = loadInstances e pc ex ys c1
      in (c2, ev1 @ ev2))"
  by (induction xs arbitrary: c) (simp_all add: split_beta Let_def)

lemma loadMetas_append:
  "loadMetas e pc ex ins (ms @ ms') c =
     (let (c1, ev1) = loadMetas e pc ex ins ms c;
          (c2, ev2) = loadMetas e pc ex ins ms' c1
      in (c2, ev1 @ ev2))"
  by (induction ms arbitrary: c) (simp_all add: split_beta Let_def)

lemma loadInstance_unfold:
  assumes "ListMetrics e (Namespace c) (GetInstanceID ins) = (allMeta, lerr)"
  shows "loadInstance e pc ex ins c =
           (fst (loadMetas e pc ex ins allMeta c),
            ListMetricsCall (Namespace c) (GetInstanceID ins) #
            (case lerr of
               None \<Rightarrow> []
             | Some err \<Rightarrow>
                 [Log LWarn ''request metric list fail''
                    [(''err'', S err), (''Namespace'', S (Namespace c)),
                     (''InstanceId'', S (GetInstanceID ins))]]) @
            snd (loadMetas e pc ex ins allMeta c))"
  using assms by (cases allMeta) (simp_all add: loadInstance_def Let_def split_beta)

text \<open>The four ways through the loop body.\<close>

lemma loadMeta_excluded:
  "ex \<noteq> [] \<and> IsStrInList ex (ToLower e (MetricName meta)) \<Longrightarrow>
     loadMeta e pc ex ins meta c = (c, [])"
  by (simp add: loadMeta_def)

lemma loadMeta_create_fails:
  assumes "\<not> (ex \<noteq> [] \<and> IsStrInList ex (ToLower e (MetricName meta)))"
    and "createMetricWithMeta e meta pc (GetInstanceID ins) c = (Inl err, c1)"
  shows "loadMeta e pc ex ins meta c =
           (c, [Log LWarn ''Create metric fail''
                  [(''err'', S err), (''Namespace'', S (Namespace c)),
                   (''name'', S (MetricName meta))]])"
  using assms createMetricWithMeta_cases[OF assms(2)] by (auto simp: loadMeta_def)

lemma loadMeta_created:
  assumes "\<not> (ex \<noteq> [] \<and> IsStrInList ex (ToLower e (MetricName meta)))"
    and "createMetricWithMeta e meta pc (GetInstanceID ins) c = (Inr nm, c1)"
  shows "loadMeta e pc ex ins meta c =
           (c1\<lparr>MetricMap := AList.update (metricKey (MetricName meta) (GetInstanceID ins)) nm
                              (MetricMap c1),
               heap := (heap c1)[nm := fst (LoadSeries e (heap c1 ! nm)
                                      (fst (GetSeriesByInstances e (heap c1 ! nm) [ins])))]\<rparr>,
            (case snd (GetSeriesByInstances e (heap c1 ! nm) [ins]) of
               None \<Rightarrow> []
             | Some err \<Rightarrow>
                 [Log LError ''create metric series err''
                    [(''err'', S err), (''Namespace'', S (Namespace c1)),
                     (''name'', S (MetricName meta))]]) @
            [Log LDebug ''found remote instances''
               [(''count'', N (length (fst (GetSeriesByInstances e (heap c1 ! nm) [ins])))),
                (''Namespace'', S (Namespace c1)), (''name'', S (MetricName meta))]] @
            (case snd (LoadSeries e (heap c1 ! nm)
                         (fst (GetSeriesByInstances e (heap c1 ! nm) [ins]))) of
               None \<Rightarrow> []
             | Some err \<Rightarrow>
                 [Log LError ''load metric series err''
                    [(''err'', S err), (''Namespace'', S (Namespace c1)),
                     (''name'', S (MetricName meta))]]))"
proof -
  from assms(1) have ne: "(ex \<noteq> [] \<and> IsStrInList ex (ToLower e (MetricName meta))) = False" by simp
  show ?thesis
    by (simp only: loadMeta_def ne if_False assms(2)) (simp add: Let_def split_beta split: option.splits)
qed

lemma createMetricWithMeta_new:
  assumes "map_of (MetricMap c) (metricKey (MetricName meta) iid) = None"
  shows "createMetricWithMeta e meta pc iid c =
           (case NewMetricConfigWithProductYaml e pc meta of
              Inl err \<Rightarrow> (Inl err, c)
            | Inr conf \<Rightarrow>
                (case NewMetric e meta conf of
                   Inl err \<Rightarrow> (Inl err, c)
                 | Inr nm \<Rightarrow> (Inr (length (heap c)), c\<lparr>heap := heap c @ [nm]\<rparr>)))"
  using assms by (simp add: createMetricWithMeta_def)

lemma createMetricWithMeta_unbuildable:
  assumes "map_of (MetricMap c) (metricKey (MetricName meta) iid) = None"
    and "\<not> canBuild e pc meta"
  shows "\<exists>err. createMetricWithMeta e meta pc iid c = (Inl err, c)"
  using assms
  by (auto simp: createMetricWithMeta_new canBuild_def split: sum.splits)

lemma createMetricWithMeta_buildable:
  assumes "map_of (MetricMap c) (metricKey (MetricName meta) iid) = None"
    and "NewMetricConfigWithProductYaml e pc meta = Inr cf" and "NewMetric e meta cf = Inr nm"
  shows "createMetricWithMeta e meta pc iid c = (Inr (length (heap c)), c\<lparr>heap := heap c @ [nm]\<rparr>)"
  using assms by (simp add: createMetricWithMeta_new)

text \<open>An entry already registered: its metric is loaded again, in place.\<close>

lemma loadMeta_registered:
  assumes "\<not> (ex \<noteq> [] \<and> IsStrInList ex (ToLower e (MetricName meta)))"
    and "map_of (MetricMap c) (metricKey (MetricName meta) (GetInstanceID ins)) = Some m"
  shows "fst (loadMeta e pc ex ins meta c) =
           c\<lparr>heap := (heap c)[m := fst (LoadSeries e (heap c ! m)
                                    (fst (GetSeriesByInstances e (heap c ! m) [ins])))]\<rparr>"
  using loadMeta_created[OF assms(1) createMetricWithMeta_existing[OF assms(2)]]
  by (simp add: update_bound[OF assms(2)])

text \<open>An entry not yet registered whose metric is built: registered last, and loaded.\<close>

lemma loadMeta_built:
  assumes "\<not> (ex \<noteq> [] \<and> IsStrInList ex (ToLower e (MetricName meta)))"
    and "map_of (MetricMap c) (metricKey (MetricName meta) (GetInstanceID ins)) = None"
    and "NewMetricConfigWithProductYaml e pc meta = Inr cf" and "NewMetric e meta cf = Inr nm"
  shows "fst (loadMeta e pc ex ins meta c) =
           c\<lparr>MetricMap := MetricMap c @ [(metricKey (MetricName meta) (GetInstanceID ins),
                                          length (heap c))],
             heap := heap c @ [fst (LoadSeries e nm (fst (GetSeriesByInstances e nm [ins])))]\<rparr>"
  using loadMeta_created[OF assms(1) createMetricWithMeta_buildable[OF assms(2,3,4)]]
  by (simp add: update_fresh[OF assms(2)])

lemma loadMeta_unbuildable:
  assumes "\<not> (ex \<noteq> [] \<and> IsStrInList ex (ToLower e (MetricName meta)))"
    and "map_of (MetricMap c) (metricKey (MetricName meta) (GetInstanceID ins)) = None"
    and "\<not> canBuild e pc meta"
  shows "fst (loadMeta e pc ex ins meta c) = c"
proof -
  from createMetricWithMeta_unbuildable[OF assms(2,3)] obtain err where
    "createMetricWithMeta e meta pc (GetInstanceID ins) c = (Inl err, c)" by blast
  from loadMeta_create_fails[OF assms(1) this] show ?thesis by simp
qed

lemma canBuild_iff:
  "canBuild e pc meta =
     (\<exists>cf nm. NewMetricConfigWithProductYaml e pc meta = Inr cf \<and> NewMetric e meta cf = Inr nm)"
  by (auto simp: canBuild_def split: sum.splits)

text \<open>The keys of the registry after the loop body, and after the loop.\<close>

lemma loadMeta_keys:
  "fst ` set (MetricMap (fst (loadMeta e pc ex ins meta c))) =
     fst ` set (MetricMap c) \<union>
     (if \<not> (ex \<noteq> [] \<and> IsStrInList ex (ToLower e (MetricName meta))) \<and> canBuild e pc meta
      then {metricKey (MetricName meta) (GetInstanceID ins)} else {})"
proof (cases "ex \<noteq> [] \<and> IsStrInList ex (ToLower e (MetricName meta))")
  case True
  then show ?thesis by (simp add: loadMeta_excluded)
next
  case False
  show ?thesis
  proof (cases "map_of (MetricMap c) (metricKey (MetricName meta) (GetInstanceID ins))")
    case (Some m)
    then have "metricKey (MetricName meta) (GetInstanceID ins) \<in> fst ` set (MetricMap c)"
      by (metis domI dom_map_of_conv_image_fst)
    with False Some show ?thesis by (auto simp: loadMeta_registered)
  next
    case None
    show ?thesis
    proof (cases "canBuild e pc meta")
      case True
      then obtain cf nm where "NewMetricConfigWithProductYaml e pc meta = Inr cf"
        "NewMetric e meta cf = Inr nm" unfolding canBuild_iff by blast
      from loadMeta_built[OF False None this] True False show ?thesis by simp
    next
      case nb: False
      from loadMeta_unbuildable[OF False None nb] nb show ?thesis by simp
    qed
  qed
qed

lemma loadMetas_keys:
  "fst ` set (MetricMap (fst (loadMetas e pc ex ins metas c))) =
     fst ` set (MetricMap c) \<union>
     {metricKey (MetricName meta) (GetInstanceID ins) | meta.
        meta \<in> set metas
        \<and> \<not> (ex \<noteq> [] \<and> IsStrInList ex (ToLower e (MetricName meta))) \<and> canBuild e pc meta}"
proof (induction metas arbitrary: c)
  case Nil
  then show ?case by simp
next
  case (Cons a metas)
  have r: "fst (loadMetas e pc ex ins (a # metas) c)
          = fst (loadMetas e pc ex ins metas (fst (loadMeta e pc ex ins a c)))"
    by (simp add: split_beta)
  show ?case
    unfolding r Cons.IH[of "fst (loadMeta e pc ex ins a c)"] loadMeta_keys by auto
qed

text \<open>
  Entries that are excluded, or that cannot be built and are not registered, leave the
  collector as it is.
\<close>

lemma loadMetas_unchanged:
  assumes "\<forall>meta \<in> set metas.
             (ex \<noteq> [] \<and> IsStrInList ex (ToLower e (MetricName meta)))
             \<or> (map_of (MetricMap c) (metricKey (MetricName meta) (GetInstanceID ins)) = None
                \<and> \<not> canBuild e pc meta)"
  shows "fst (loadMetas e pc ex ins metas c) = c"
  using assms
proof (induction metas)
  case Nil
  then show ?case by simp
next
  case (Cons a metas)
  from Cons.prems have "fst (loadMeta e pc ex ins a c) = c"
    using loadMeta_excluded[of ex e a pc ins c] loadMeta_unbuildable[of ex e a c ins pc]
    by (cases "ex \<noteq> [] \<and> IsStrInList ex (ToLower e (MetricName a))") auto
  moreover from Cons have "fst (loadMetas e pc ex ins metas c) = c" by simp
  ultimately show ?case by (simp add: split_beta)
qed

text \<open>
  The events of one pass of the loop body are among those of the loops, and what the
  pass registers stays registered.
\<close>

lemma loadMetas_item_events:
  "set (snd (loadMeta e pc ex ins meta (fst (loadMetas e pc ex ins ms c))))
     \<subseteq> set (snd (loadMetas e pc ex ins (ms @ meta # ms') c))"
  by (auto simp: loadMetas_append split_beta)

lemma loadMetas_item_registry:
  assumes "map_of (MetricMap (fst (loadMeta e pc ex ins meta (fst (loadMetas e pc ex ins ms c))))) k
         = Some m"
  shows "map_of (MetricMap (fst (loadMetas e pc ex ins (ms @ meta # ms') c))) k = Some m"
proof -
  let ?c1 = "fst (loadMeta e pc ex ins meta (fst (loadMetas e pc ex ins ms c)))"
  have r: "fst (loadMetas e pc ex ins (ms @ meta # ms') c) = fst (loadMetas e pc ex ins ms' ?c1)"
    by (simp add: loadMetas_append split_beta)
  obtain c2 ev2 where b: "loadMetas e pc ex ins ms' ?c1 = (c2, ev2)"
    by (cases "loadMetas e pc ex ins ms' ?c1")
  show ?thesis unfolding r using loadMetas_frame[OF b] b assms by simp
qed

lemma loadInstances_item:
  assumes "ListMetrics e (Namespace c) (GetInstanceID ins) = (ms @ meta # ms', lerr)"
  shows "set (snd (loadMeta e pc ex ins meta (collectorAt e pc ex xs ins ms c)))
           \<subseteq> set (snd (loadInstances e pc ex (xs @ ins # ys) c))"
    and "map_of (MetricMap (fst (loadMeta e pc ex ins meta (collectorAt e pc ex xs ins ms c)))) k
           = Some m \<Longrightarrow>
         map_of (MetricMap (fst (loadInstances e pc ex (xs @ ins # ys) c))) k = Some m"
proof -
  obtain c1 ev1 where a: "loadInstances e pc ex xs c = (c1, ev1)"
    by (cases "loadInstances e pc ex xs c")
  from loadInstances_frame[OF a] have ns: "Namespace c1 = Namespace c" by simp
  with assms have l: "ListMetrics e (Namespace c1) (GetInstanceID ins) = (ms @ meta # ms', lerr)"
    by simp
  note u = loadInstance_unfold[OF l, of pc ex]
  have cm: "collectorAt e pc ex xs ins ms c = fst (loadMetas e pc ex ins ms c1)"
    using a by (simp add: collectorAt_def)
  obtain c3 ev3 where b: "loadInstances e pc ex ys (fst (loadInstance e pc ex ins c1)) = (c3, ev3)"
    by (cases "loadInstances e pc ex ys (fst (loadInstance e pc ex ins c1))")
  have r: "loadInstances e pc ex (xs @ ins # ys) c
             = (c3, ev1 @ snd (loadInstance e pc ex ins c1) @ ev3)"
    using a b by (simp add: loadInstances_append split_beta)
  show "set (snd (loadMeta e pc ex ins meta (collectorAt e pc ex xs ins ms c)))
           \<subseteq> set (snd (loadInstances e pc ex (xs @ ins # ys) c))"
    unfolding r cm using loadMetas_item_events[of e pc ex ins meta ms c1 ms'] by (auto simp: u)
  show "map_of (MetricMap (fst (loadMeta e pc ex ins meta (collectorAt e pc ex xs ins ms c)))) k
           = Some m \<Longrightarrow>
         map_of (MetricMap (fst (loadInstances e pc ex (xs @ ins # ys) c))) k = Some m"
    unfolding r cm using loadMetas_item_registry[of e pc ex ins meta ms c1 k m ms'] loadInstances_frame[OF b]
    by (simp add: u)
qed

text \<open>
  A metadata entry that is not excluded and whose metric can be built is in the
  registry, under the key of its name and the instance id, after the loops.
\<close>

lemma loadInstances_adds_key:
  assumes "ins \<in> set instances"
    and "ListMetrics e (Namespace c) (GetInstanceID ins) = (allMeta, lerr)"
    and "meta \<in> set allMeta"
    and "\<not> (ex \<noteq> [] \<and> IsStrInList ex (ToLower e (MetricName meta)))"
    and "canBuild e pc meta"
  shows "metricKey (MetricName meta) (GetInstanceID ins)
           \<in> fst ` set (MetricMap (fst (loadInstances e pc ex instances c)))"
  using assms(1,2)
proof (induction instances arbitrary: c)
  case Nil
  then show ?case by simp
next
  case (Cons a instances)
  obtain c1 ev1 where a: "loadInstance e pc ex a c = (c1, ev1)" by (cases "loadInstance e pc ex a c")
  obtain c2 ev2 where b: "loadInstances e pc ex instances c1 = (c2, ev2)"
    by (cases "loadInstances e pc ex instances c1")
  have r: "fst (loadInstances e pc ex (a # instances) c) = c2" using a b by simp
  have ns: "Namespace c1 = Namespace c" using loadInstance_frame[OF a] by simp
  show ?case
  proof (cases "ins = a")
    case True
    from loadInstance_unfold[OF Cons.prems(2), of pc ex] True a
    have c1: "c1 = fst (loadMetas e pc ex ins allMeta c)" by simp
    have "metricKey (MetricName meta) (GetInstanceID ins) \<in> fst ` set (MetricMap c1)"
      unfolding c1 loadMetas_keys using assms(3,4,5) by blast
    with loadInstances_frame[OF b] show ?thesis unfolding r by blast
  next
    case False
    with Cons.prems have "ins \<in> set instances" by simp
    from Cons.IH[OF this, of c1] Cons.prems(2) ns b show ?thesis unfolding r by simp
  qed
qed

lemma loadMetrics_unfold:
  "GetProductConfig e (Namespace c) = (pc, None) \<Longrightarrow>
     loadMetrics e instances c =
       (None, loadInstances e pc (map (ToLower e) (ExcludeMetrics pc)) instances c)"
  by (simp add: loadMetrics_def Let_def split_beta)

text \<open>A cycle that reaches \<^verbatim>\<open>loadMetrics\<close>: its events and its registry.\<close>

lemma LoadMetricsByProductConf_loads:
  assumes "LoadMetricsByProductConf e c = (r, c', ev)"
    and "snd (GetInstances e) = None" and "GetProductConfig e (Namespace c) = (pc, None)"
  shows "set (snd (loadInstances e pc (map (ToLower e) (ExcludeMetrics pc)) (instancesToLoad e c) c))
           \<subseteq> set ev"
    and "MetricMap c' = MetricMap (fst (loadInstances e pc (map (ToLower e) (ExcludeMetrics pc))
                                         (instancesToLoad e c) c))"
    and "heap c' = heap (fst (loadInstances e pc (map (ToLower e) (ExcludeMetrics pc))
                                         (instancesToLoad e c) c))"
proof -
  let ?li = "loadInstances e pc (map (ToLower e) (ExcludeMetrics pc)) (instancesToLoad e c) c"
  obtain xs where gi: "GetInstances e = (xs, None)" using assms(2) by (cases "GetInstances e") simp
  obtain c2 ev2 where li: "?li = (c2, ev2)" by (cases ?li)
  have lm: "loadMetrics e (instancesToLoad e c) c = (None, c2, ev2)"
    using loadMetrics_unfold[OF assms(3)] li by simp
  obtain r3 n c3 where lq: "loadQueries e (now e) (rangeOrder e (MetricMap c2)) 0 c2 = (r3, n, c3)"
    by (cases "loadQueries e (now e) (rangeOrder e (MetricMap c2)) 0 c2")
  have res: "c' = c3 \<and> set ev2 \<subseteq> set ev"
  proof (cases r3)
    case None
    with assms(1) gi lm lq show ?thesis
      by (simp add: LoadMetricsByProductConf_def instancesToLoad_def Let_def split: if_splits) auto
  next
    case (Some err)
    with assms(1) gi lm lq show ?thesis
      by (simp add: LoadMetricsByProductConf_def instancesToLoad_def Let_def split: if_splits) auto
  qed
  note fr = loadQueries_frame[OF lq]
  from res li show "set (snd ?li) \<subseteq> set ev" by simp
  from res fr li show "MetricMap c' = MetricMap (fst ?li)" by simp
  from res fr li show "heap c' = heap (fst ?li)" by simp
qed

section \<open>Which metrics are queried\<close>





section \<open>Which errors a reload cycle returns, and what becomes of the others\<close>

lemma asciiLower_disk: "asciiLower ''disk'' = ''disk''"
  by code_simp

lemmas failure_defs = perItemFailures_def secondQueryFails_def unbuiltEnv_def failingUnbuilt_def
  asciiLower_disk

lemma collectorAt_Namespace:
  "Namespace (collectorAt e pc ex xs ins ms c) = Namespace c"
proof -
  obtain c1 ev1 where a: "loadInstances e pc ex xs c = (c1, ev1)"
    by (cases "loadInstances e pc ex xs c")
  obtain c2 ev2 where b: "loadMetas e pc ex ins ms c1 = (c2, ev2)"
    by (cases "loadMetas e pc ex ins ms c1")
  from loadInstances_frame[OF a] loadMetas_frame[OF b] a b show ?thesis
    by (simp add: collectorAt_def)
qed

text \<open>
  A cycle that reaches the loops, at an entry that is not excluded: the events of the
  pass are events of the cycle, and what the pass registers is registered at the end.
\<close>

lemma LoadMetricsByProductConf_item:
  assumes "LoadMetricsByProductConf e c = (r, c', ev)"
    and "snd (GetInstances e) = None" and "GetProductConfig e (Namespace c) = (pc, None)"
    and "instancesToLoad e c = xs @ ins # ys"
    and "ListMetrics e (Namespace c) (GetInstanceID ins) = (ms @ meta # ms', lerr)"
    and "cm = collectorAt e pc (map (ToLower e) (ExcludeMetrics pc)) xs ins ms c"
  shows "set (snd (loadMeta e pc (map (ToLower e) (ExcludeMetrics pc)) ins meta cm)) \<subseteq> set ev"
    and "map_of (MetricMap (fst (loadMeta e pc (map (ToLower e) (ExcludeMetrics pc)) ins meta cm))) k
           = Some m \<Longrightarrow> map_of (MetricMap c') k = Some m"
proof -
  note L = LoadMetricsByProductConf_loads[OF assms(1,2,3)]
  from loadInstances_item(1)[OF assms(5), of pc "map (ToLower e) (ExcludeMetrics pc)" xs ys] L(1)
  show "set (snd (loadMeta e pc (map (ToLower e) (ExcludeMetrics pc)) ins meta cm)) \<subseteq> set ev"
    unfolding assms(4,6) by blast
  from loadInstances_item(2)[OF assms(5), of pc "map (ToLower e) (ExcludeMetrics pc)" xs k m ys] L(2)
  show "map_of (MetricMap (fst (loadMeta e pc (map (ToLower e) (ExcludeMetrics pc)) ins meta cm))) k
           = Some m \<Longrightarrow> map_of (MetricMap c') k = Some m"
    unfolding assms(4,6) by simp
qed

lemma LoadMetricsByProductConf_create_fails:
  assumes "LoadMetricsByProductConf e c = (r, c', ev)"
    and "snd (GetInstances e) = None" and "GetProductConfig e (Namespace c) = (pc, None)"
    and "instancesToLoad e c = xs @ ins # ys"
    and "ListMetrics e (Namespace c) (GetInstanceID ins) = (ms @ meta # ms', lerr)"
    and "cm = collectorAt e pc (map (ToLower e) (ExcludeMetrics pc)) xs ins ms c"
    and "\<not> (map (ToLower e) (ExcludeMetrics pc) \<noteq> []
            \<and> IsStrInList (map (ToLower e) (ExcludeMetrics pc)) (ToLower e (MetricName meta)))"
    and "createMetricWithMeta e meta pc (GetInstanceID ins) cm = (Inl err, c1)"
  shows "Log LWarn ''Create metric fail''
           [(''err'', S err), (''Namespace'', S (Namespace c)), (''name'', S (MetricName meta))]
         \<in> set ev
       \<and> fst (loadMeta e pc (map (ToLower e) (ExcludeMetrics pc)) ins meta cm) = cm"
proof -
  have ns: "Namespace cm = Namespace c" unfolding assms(6) by (rule collectorAt_Namespace)
  note lm = loadMeta_create_fails[OF assms(7,8)]
  from LoadMetricsByProductConf_item(1)[OF assms(1-6)] lm ns show ?thesis by simp
qed

lemma LoadMetricsByProductConf_created:
  assumes "LoadMetricsByProductConf e c = (r, c', ev)"
    and "snd (GetInstances e) = None" and "GetProductConfig e (Namespace c) = (pc, None)"
    and "instancesToLoad e c = xs @ ins # ys"
    and "ListMetrics e (Namespace c) (GetInstanceID ins) = (ms @ meta # ms', lerr)"
    and "cm = collectorAt e pc (map (ToLower e) (ExcludeMetrics pc)) xs ins ms c"
    and "\<not> (map (ToLower e) (ExcludeMetrics pc) \<noteq> []
            \<and> IsStrInList (map (ToLower e) (ExcludeMetrics pc)) (ToLower e (MetricName meta)))"
    and "createMetricWithMeta e meta pc (GetInstanceID ins) cm = (Inr nm, c1)"
  shows "map_of (MetricMap (fst (loadMeta e pc (map (ToLower e) (ExcludeMetrics pc)) ins meta cm)))
           (metricKey (MetricName meta) (GetInstanceID ins)) = Some nm"
    and "map_of (MetricMap c') (metricKey (MetricName meta) (GetInstanceID ins)) = Some nm"
    and "heap (fst (loadMeta e pc (map (ToLower e) (ExcludeMetrics pc)) ins meta cm))
           = (heap c1)[nm := fst (LoadSeries e (heap c1 ! nm)
                                   (fst (GetSeriesByInstances e (heap c1 ! nm) [ins])))]"
    and "snd (GetSeriesByInstances e (heap c1 ! nm) [ins]) = Some err \<Longrightarrow>
           Log LError ''create metric series err''
             [(''err'', S err), (''Namespace'', S (Namespace c)), (''name'', S (MetricName meta))]
           \<in> set ev"
    and "snd (LoadSeries e (heap c1 ! nm) (fst (GetSeriesByInstances e (heap c1 ! nm) [ins])))
           = Some err \<Longrightarrow>
           Log LError ''load metric series err''
             [(''err'', S err), (''Namespace'', S (Namespace c)), (''name'', S (MetricName meta))]
           \<in> set ev"
proof -
  let ?ex = "map (ToLower e) (ExcludeMetrics pc)"
  have "Namespace cm = Namespace c" unfolding assms(6) by (rule collectorAt_Namespace)
  moreover from createMetricWithMeta_cases[OF assms(8)] have "Namespace c1 = Namespace cm" by auto
  ultimately have ns: "Namespace c1 = Namespace c" by simp
  note lm = loadMeta_created[OF assms(7,8)]
  note sub = LoadMetricsByProductConf_item(1)[OF assms(1-6)]
  show reg: "map_of (MetricMap (fst (loadMeta e pc ?ex ins meta cm)))
           (metricKey (MetricName meta) (GetInstanceID ins)) = Some nm"
    unfolding lm by (simp add: update_conv')
  from LoadMetricsByProductConf_item(2)[OF assms(1-6) reg]
  show "map_of (MetricMap c') (metricKey (MetricName meta) (GetInstanceID ins)) = Some nm" .
  show "heap (fst (loadMeta e pc ?ex ins meta cm))
           = (heap c1)[nm := fst (LoadSeries e (heap c1 ! nm)
                                   (fst (GetSeriesByInstances e (heap c1 ! nm) [ins])))]"
    unfolding lm by simp
  show "Log LError ''create metric series err''
             [(''err'', S err), (''Namespace'', S (Namespace c)), (''name'', S (MetricName meta))]
           \<in> set ev"
    if "snd (GetSeriesByInstances e (heap c1 ! nm) [ins]) = Some err"
  proof -
    from that ns have "Log LError ''create metric series err''
             [(''err'', S err), (''Namespace'', S (Namespace c)), (''name'', S (MetricName meta))]
           \<in> set (snd (loadMeta e pc ?ex ins meta cm))"
      unfolding lm by simp
    with sub show ?thesis by blast
  qed
  show "Log LError ''load metric series err''
             [(''err'', S err), (''Namespace'', S (Namespace c)), (''name'', S (MetricName meta))]
           \<in> set ev"
    if "snd (LoadSeries e (heap c1 ! nm) (fst (GetSeriesByInstances e (heap c1 ! nm) [ins])))
           = Some err"
  proof -
    from that ns have "Log LError ''load metric series err''
             [(''err'', S err), (''Namespace'', S (Namespace c)), (''name'', S (MetricName meta))]
           \<in> set (snd (loadMeta e pc ?ex ins meta cm))"
      unfolding lm by simp
    with sub show ?thesis by blast
  qed
qed

lemma LoadMetricsByProductConf_returns:
  assumes "LoadMetricsByProductConf e c = (r, c', ev)"
  shows "(r = None) =
           (snd (GetInstances e) = None \<and> snd (GetProductConfig e (Namespace c)) = None
            \<and> (\<forall>(k, m) \<in> set (rangeOrder e (MetricMap c')).
                  sint (now e - LoadTimeAt (heap c' ! m)) < 60 \<longrightarrow> NewQueryErr e m = None))"
    and "r = Some err \<Longrightarrow>
             snd (GetInstances e) = Some err
             \<or> snd (GetProductConfig e (Namespace c)) = Some err
             \<or> (\<exists>(k, m) \<in> set (rangeOrder e (MetricMap c')).
                   sint (now e - LoadTimeAt (heap c' ! m)) < 60 \<and> NewQueryErr e m = Some err)"
proof -
  have "(r = None) =
           (snd (GetInstances e) = None \<and> snd (GetProductConfig e (Namespace c)) = None
            \<and> (\<forall>(k, m) \<in> set (rangeOrder e (MetricMap c')).
                  sint (now e - LoadTimeAt (heap c' ! m)) < 60 \<longrightarrow> NewQueryErr e m = None))
       \<and> (\<forall>err. r = Some err \<longrightarrow>
             snd (GetInstances e) = Some err
             \<or> snd (GetProductConfig e (Namespace c)) = Some err
             \<or> (\<exists>(k, m) \<in> set (rangeOrder e (MetricMap c')).
                   sint (now e - LoadTimeAt (heap c' ! m)) < 60 \<and> NewQueryErr e m = Some err))"
    using assms
  proof (cases rule: LoadMetricsByProductConf_cases)
    case (instances err)
    then show ?thesis by simp
  next
    case (config instances1 err ev2)
    from config(2) loadMetrics_error[of e instances1 c]
    have "snd (GetProductConfig e (Namespace c)) = Some err" by simp
    with config show ?thesis by simp
  next
    case (queries instances1 c2 ev2 n)
    from queries(2) loadMetrics_error[of e instances1 c]
    have pc: "snd (GetProductConfig e (Namespace c)) = None" by simp
    note fr = loadQueries_frame[OF queries(3)]
    show ?thesis
    proof (cases r)
      case None
      with loadQueries_None[of e "now e" "rangeOrder e (MetricMap c2)" 0 c2 n c'] queries(3) fr
      have "\<forall>(k, m) \<in> set (rangeOrder e (MetricMap c')).
              sint (now e - LoadTimeAt (heap c' ! m)) < 60 \<longrightarrow> NewQueryErr e m = None"
        by simp
      with None pc queries(1) show ?thesis by simp
    next
      case (Some err)
      with loadQueries_Some[of e "now e" "rangeOrder e (MetricMap c2)" 0 c2 err n c'] queries(3) fr
      have ex: "\<exists>(k, m) \<in> set (rangeOrder e (MetricMap c')).
              sint (now e - LoadTimeAt (heap c' ! m)) < 60 \<and> NewQueryErr e m = Some err"
        by simp
      then have "\<not> (\<forall>(k, m) \<in> set (rangeOrder e (MetricMap c')).
                    sint (now e - LoadTimeAt (heap c' ! m)) < 60 \<longrightarrow> NewQueryErr e m = None)"
        by auto
      with Some ex show ?thesis by simp
    qed
  qed
  then show "(r = None) =
           (snd (GetInstances e) = None \<and> snd (GetProductConfig e (Namespace c)) = None
            \<and> (\<forall>(k, m) \<in> set (rangeOrder e (MetricMap c')).
                  sint (now e - LoadTimeAt (heap c' ! m)) < 60 \<longrightarrow> NewQueryErr e m = None))"
    and "r = Some err \<Longrightarrow>
             snd (GetInstances e) = Some err
             \<or> snd (GetProductConfig e (Namespace c)) = Some err
             \<or> (\<exists>(k, m) \<in> set (rangeOrder e (MetricMap c')).
                   sint (now e - LoadTimeAt (heap c' ! m)) < 60 \<and> NewQueryErr e m = Some err)"
    by blast+
qed

lemma per_item_failures_cycle:
  "LoadMetricsByProductConf perItemFailures emptyCollector
     = (Some ''no query'',
        \<lparr>Namespace = ''KEC'', MetricMap = [(''cpu.i-1'', 0), (''cpu.i-2'', 1)],
         Queries = [\<lparr>Metric = 0\<rparr>],
         heap = [\<lparr>SeriesCache = [], LoadTimeAt = 50\<rparr>, \<lparr>SeriesCache = [], LoadTimeAt = 0\<rparr>]\<rparr>,
        [Log LInfo ''start load metrics'' [(''Namespace'', S ''KEC'')],
         ListMetricsCall ''KEC'' ''i-1'',
         Log LError ''create metric series err''
           [(''err'', S ''no series''), (''Namespace'', S ''KEC''), (''name'', S ''cpu'')],
         Log LDebug ''found remote instances''
           [(''count'', N 0), (''Namespace'', S ''KEC''), (''name'', S ''cpu'')],
         ListMetricsCall ''KEC'' ''i-2'',
         Log LDebug ''found remote instances''
           [(''count'', N 1), (''Namespace'', S ''KEC''), (''name'', S ''cpu'')],
         Log LError ''load metric series err''
           [(''err'', S ''no load''), (''Namespace'', S ''KEC''), (''name'', S ''cpu'')]])"
  by (simp add: example_defs failure_defs)

lemma unbuilt_cycle:
  "LoadMetricsByProductConf unbuiltEnv emptyCollector
     = (None, emptyCollector,
        [Log LInfo ''start load metrics'' [(''Namespace'', S ''KEC'')],
         ListMetricsCall ''KEC'' ''i-1'',
         Log LWarn ''request metric list fail''
           [(''err'', S ''listing failed''), (''Namespace'', S ''KEC''), (''InstanceId'', S ''i-1'')],
         Log LWarn ''Create metric fail''
           [(''err'', S ''no metric''), (''Namespace'', S ''KEC''), (''name'', S ''disk'')],
         Log LInfo ''Init new query''
           [(''Namespace'', S ''KEC''), (''metric_num'', N 0), (''new_series_num'', N 0)]])"
  by (simp add: example_defs failure_defs)

text \<open>
  Claim C6, as stated: every per-item error is degraded to logging and skipping that
  item, and none makes \<open>LoadMetricsByProductConf\<close> return an error. It fails in one
  cycle, started with an empty collector at time 50, in which the instances are listed
  and the product configuration is found. The series of \<open>cpu.i-1\<close> cannot be resolved:
  the error is logged, and the metric is not skipped but registered, loaded with the
  empty series and queried. The load of \<open>cpu.i-2\<close> fails: the error is logged, and the
  metric is not skipped but stays registered. \<open>NewQuery\<close> fails for \<open>cpu.i-2\<close>: the
  error is not logged, and the cycle returns it.
\<close>

theorem query_error_returned_failed_items_kept:
  "LoadMetricsByProductConf perItemFailures emptyCollector
     = (Some ''no query'',
        \<lparr>Namespace = ''KEC'', MetricMap = [(''cpu.i-1'', 0), (''cpu.i-2'', 1)],
         Queries = [\<lparr>Metric = 0\<rparr>],
         heap = [\<lparr>SeriesCache = [], LoadTimeAt = 50\<rparr>, \<lparr>SeriesCache = [], LoadTimeAt = 0\<rparr>]\<rparr>,
        [Log LInfo ''start load metrics'' [(''Namespace'', S ''KEC'')],
         ListMetricsCall ''KEC'' ''i-1'',
         Log LError ''create metric series err''
           [(''err'', S ''no series''), (''Namespace'', S ''KEC''), (''name'', S ''cpu'')],
         Log LDebug ''found remote instances''
           [(''count'', N 0), (''Namespace'', S ''KEC''), (''name'', S ''cpu'')],
         ListMetricsCall ''KEC'' ''i-2'',
         Log LDebug ''found remote instances''
           [(''count'', N 1), (''Namespace'', S ''KEC''), (''name'', S ''cpu'')],
         Log LError ''load metric series err''
           [(''err'', S ''no load''), (''Namespace'', S ''KEC''), (''name'', S ''cpu'')]])
   \<and> snd (GetInstances perItemFailures) = None
   \<and> snd (GetProductConfig perItemFailures ''KEC'') = None
   \<and> snd (GetSeriesByInstances perItemFailures \<lparr>SeriesCache = [], LoadTimeAt = 0\<rparr>
             [KscInstance ''i-1'']) = Some ''no series''
   \<and> snd (LoadSeries perItemFailures \<lparr>SeriesCache = [], LoadTimeAt = 0\<rparr> [''i-2''])
       = Some ''no load''
   \<and> NewQueryErr perItemFailures 1 = Some ''no query''"
  by (simp add: example_defs failure_defs)

text \<open>
  Claim C6, amended. \<open>LoadMetricsByProductConf\<close> returns an error in three cases only,
  and the error returned is the error of that case: the instance listing failed, the
  product configuration was not found (the structural errors), or the construction of
  a query failed for a metric of the registry that passes the test on its load time;
  a per-metric query construction failure is thus not degraded but returned. The other
  per-item errors are degraded to logging and never returned. In a cycle that reaches
  the loops, at every metadata entry that is not excluded: a failure to construct the
  metric is logged as a warning and the item is skipped, the collector left as it was;
  when the metric is found or constructed, it is registered, and stays registered to
  the end of the cycle, and it is loaded with the series that the resolution returned,
  whether the resolution or the load fails or not; a series resolution failure and a
  load failure are each logged as an error, and the item is not skipped.
\<close>

theorem per_item_errors_logged_or_returned:
  assumes "LoadMetricsByProductConf e c = (r, c', ev)"
  shows "(r = None) =
           (snd (GetInstances e) = None \<and> snd (GetProductConfig e (Namespace c)) = None
            \<and> (\<forall>(k, m) \<in> set (rangeOrder e (MetricMap c')).
                  sint (now e - LoadTimeAt (heap c' ! m)) < 60 \<longrightarrow> NewQueryErr e m = None))
       \<and> (\<forall>err. r = Some err \<longrightarrow>
             snd (GetInstances e) = Some err
             \<or> snd (GetProductConfig e (Namespace c)) = Some err
             \<or> (\<exists>(k, m) \<in> set (rangeOrder e (MetricMap c')).
                   sint (now e - LoadTimeAt (heap c' ! m)) < 60 \<and> NewQueryErr e m = Some err))
       \<and> (\<forall>pc xs ins ys ms meta ms' lerr cm.
             snd (GetInstances e) = None \<and> GetProductConfig e (Namespace c) = (pc, None)
             \<and> instancesToLoad e c = xs @ ins # ys
             \<and> ListMetrics e (Namespace c) (GetInstanceID ins) = (ms @ meta # ms', lerr)
             \<and> cm = collectorAt e pc (map (ToLower e) (ExcludeMetrics pc)) xs ins ms c
             \<and> \<not> (map (ToLower e) (ExcludeMetrics pc) \<noteq> []
                  \<and> IsStrInList (map (ToLower e) (ExcludeMetrics pc)) (ToLower e (MetricName meta)))
             \<longrightarrow>
             (\<forall>err c1. createMetricWithMeta e meta pc (GetInstanceID ins) cm = (Inl err, c1) \<longrightarrow>
                Log LWarn ''Create metric fail''
                  [(''err'', S err), (''Namespace'', S (Namespace c)),
                   (''name'', S (MetricName meta))] \<in> set ev
                \<and> fst (loadMeta e pc (map (ToLower e) (ExcludeMetrics pc)) ins meta cm) = cm)
             \<and> (\<forall>nm c1. createMetricWithMeta e meta pc (GetInstanceID ins) cm = (Inr nm, c1) \<longrightarrow>
                map_of (MetricMap (fst (loadMeta e pc (map (ToLower e) (ExcludeMetrics pc))
                                          ins meta cm)))
                  (metricKey (MetricName meta) (GetInstanceID ins)) = Some nm
                \<and> map_of (MetricMap c') (metricKey (MetricName meta) (GetInstanceID ins)) = Some nm
                \<and> heap (fst (loadMeta e pc (map (ToLower e) (ExcludeMetrics pc)) ins meta cm))
                    = (heap c1)[nm := fst (LoadSeries e (heap c1 ! nm)
                                            (fst (GetSeriesByInstances e (heap c1 ! nm) [ins])))]
                \<and> (\<forall>err. snd (GetSeriesByInstances e (heap c1 ! nm) [ins]) = Some err \<longrightarrow>
                      Log LError ''create metric series err''
                        [(''err'', S err), (''Namespace'', S (Namespace c)),
                         (''name'', S (MetricName meta))] \<in> set ev)
                \<and> (\<forall>err. snd (LoadSeries e (heap c1 ! nm)
                                 (fst (GetSeriesByInstances e (heap c1 ! nm) [ins]))) = Some err \<longrightarrow>
                      Log LError ''load metric series err''
                        [(''err'', S err), (''Namespace'', S (Namespace c)),
                         (''name'', S (MetricName meta))] \<in> set ev)))"
proof (intro conjI allI impI; (elim conjE)?)
  show "(r = None) =
           (snd (GetInstances e) = None \<and> snd (GetProductConfig e (Namespace c)) = None
            \<and> (\<forall>(k, m) \<in> set (rangeOrder e (MetricMap c')).
                  sint (now e - LoadTimeAt (heap c' ! m)) < 60 \<longrightarrow> NewQueryErr e m = None))"
    by (rule LoadMetricsByProductConf_returns(1)[OF assms])
next
  fix err assume "r = Some err"
  then show "snd (GetInstances e) = Some err
             \<or> snd (GetProductConfig e (Namespace c)) = Some err
             \<or> (\<exists>(k, m) \<in> set (rangeOrder e (MetricMap c')).
                   sint (now e - LoadTimeAt (heap c' ! m)) < 60 \<and> NewQueryErr e m = Some err)"
    by (rule LoadMetricsByProductConf_returns(2)[OF assms])
next
  fix pc xs ins ys ms meta ms' lerr cm err c1
  assume h: "snd (GetInstances e) = None" "GetProductConfig e (Namespace c) = (pc, None)"
    "instancesToLoad e c = xs @ ins # ys"
    "ListMetrics e (Namespace c) (GetInstanceID ins) = (ms @ meta # ms', lerr)"
    "cm = collectorAt e pc (map (ToLower e) (ExcludeMetrics pc)) xs ins ms c"
    "\<not> (map (ToLower e) (ExcludeMetrics pc) \<noteq> []
        \<and> IsStrInList (map (ToLower e) (ExcludeMetrics pc)) (ToLower e (MetricName meta)))"
    and cr: "createMetricWithMeta e meta pc (GetInstanceID ins) cm = (Inl err, c1)"
  note F = LoadMetricsByProductConf_create_fails[OF assms h cr]
  from F show "Log LWarn ''Create metric fail''
                  [(''err'', S err), (''Namespace'', S (Namespace c)),
                   (''name'', S (MetricName meta))] \<in> set ev" by simp
  from F show "fst (loadMeta e pc (map (ToLower e) (ExcludeMetrics pc)) ins meta cm) = cm" by simp
next
  fix pc xs ins ys ms meta ms' lerr cm nm c1
  assume h: "snd (GetInstances e) = None" "GetProductConfig e (Namespace c) = (pc, None)"
    "instancesToLoad e c = xs @ ins # ys"
    "ListMetrics e (Namespace c) (GetInstanceID ins) = (ms @ meta # ms', lerr)"
    "cm = collectorAt e pc (map (ToLower e) (ExcludeMetrics pc)) xs ins ms c"
    "\<not> (map (ToLower e) (ExcludeMetrics pc) \<noteq> []
        \<and> IsStrInList (map (ToLower e) (ExcludeMetrics pc)) (ToLower e (MetricName meta)))"
    and cr: "createMetricWithMeta e meta pc (GetInstanceID ins) cm = (Inr nm, c1)"
  note G = LoadMetricsByProductConf_created[OF assms h cr]
  show "map_of (MetricMap (fst (loadMeta e pc (map (ToLower e) (ExcludeMetrics pc)) ins meta cm)))
          (metricKey (MetricName meta) (GetInstanceID ins)) = Some nm" by (rule G(1))
  show "map_of (MetricMap c') (metricKey (MetricName meta) (GetInstanceID ins)) = Some nm"
    by (rule G(2))
  show "heap (fst (loadMeta e pc (map (ToLower e) (ExcludeMetrics pc)) ins meta cm))
          = (heap c1)[nm := fst (LoadSeries e (heap c1 ! nm)
                                  (fst (GetSeriesByInstances e (heap c1 ! nm) [ins])))]"
    by (rule G(3))
  show "Log LError ''create metric series err''
          [(''err'', S err), (''Namespace'', S (Namespace c)), (''name'', S (MetricName meta))]
        \<in> set ev"
    if "snd (GetSeriesByInstances e (heap c1 ! nm) [ins]) = Some err" for err
    using that by (rule G(4))
  show "Log LError ''load metric series err''
          [(''err'', S err), (''Namespace'', S (Namespace c)), (''name'', S (MetricName meta))]
        \<in> set ev"
    if "snd (LoadSeries e (heap c1 ! nm) (fst (GetSeriesByInstances e (heap c1 ! nm) [ins])))
          = Some err" for err
    using that by (rule G(5))
qed

theorem per_item_errors_logged_or_returned_witness:
  "fst (LoadMetricsByProductConf perItemFailures emptyCollector) = Some ''no query''
   \<and> snd (GetInstances perItemFailures) = None
   \<and> GetProductConfig perItemFailures (Namespace emptyCollector)
       = (\<lparr>ExcludeMetrics = [''Mem'']\<rparr>, None)
   \<and> instancesToLoad perItemFailures emptyCollector = [KscInstance ''i-1'', KscInstance ''i-2'']
   \<and> createMetricWithMeta perItemFailures \<lparr>MetricName = ''cpu''\<rparr> \<lparr>ExcludeMetrics = [''Mem'']\<rparr>
        ''i-1'' emptyCollector
       = (Inr 0, emptyCollector\<lparr>heap := [\<lparr>SeriesCache = [], LoadTimeAt = 0\<rparr>]\<rparr>)
   \<and> NewQueryErr perItemFailures 1 = Some ''no query''
   \<and> map_of (MetricMap (fst (snd (LoadMetricsByProductConf perItemFailures emptyCollector))))
        ''cpu.i-1'' = Some 0
   \<and> Log LError ''create metric series err''
        [(''err'', S ''no series''), (''Namespace'', S ''KEC''), (''name'', S ''cpu'')]
      \<in> set (snd (snd (LoadMetricsByProductConf perItemFailures emptyCollector)))
   \<and> fst (LoadMetricsByProductConf unbuiltEnv emptyCollector) = None
   \<and> createMetricWithMeta unbuiltEnv \<lparr>MetricName = ''disk''\<rparr> \<lparr>ExcludeMetrics = [''Mem'']\<rparr>
        ''i-1'' emptyCollector
       = (Inl ''no metric'', emptyCollector)
   \<and> Log LWarn ''Create metric fail''
        [(''err'', S ''no metric''), (''Namespace'', S ''KEC''), (''name'', S ''disk'')]
      \<in> set (snd (snd (LoadMetricsByProductConf unbuiltEnv emptyCollector)))"
proof -
  let ?P = "perItemFailures"
  let ?U = "unbuiltEnv"
  let ?pc = "\<lparr>ExcludeMetrics = [''Mem'']\<rparr>"
  let ?cpu = "\<lparr>MetricName = ''cpu''\<rparr>"
  let ?disk = "\<lparr>MetricName = ''disk''\<rparr>"
  let ?mem = "\<lparr>MetricName = ''Mem''\<rparr>"
  let ?i1 = "KscInstance ''i-1''"
  let ?i2 = "KscInstance ''i-2''"
  have h1: "LoadMetricsByProductConf ?P emptyCollector
      = (fst (LoadMetricsByProductConf ?P emptyCollector),
         fst (snd (LoadMetricsByProductConf ?P emptyCollector)),
         snd (snd (LoadMetricsByProductConf ?P emptyCollector)))" by simp
  have h2: "LoadMetricsByProductConf ?U emptyCollector
      = (fst (LoadMetricsByProductConf ?U emptyCollector),
         fst (snd (LoadMetricsByProductConf ?U emptyCollector)),
         snd (snd (LoadMetricsByProductConf ?U emptyCollector)))" by simp
  have r1: "fst (LoadMetricsByProductConf ?P emptyCollector) = Some ''no query''"
    by (simp add: per_item_failures_cycle)
  have r2: "fst (LoadMetricsByProductConf ?U emptyCollector) = None"
    by (simp add: unbuilt_cycle)
  have g: "snd (GetInstances ?P) = None"
    "GetProductConfig ?P (Namespace emptyCollector) = (?pc, None)"
    "instancesToLoad ?P emptyCollector = [?i1, ?i2]"
    "NewQueryErr ?P 1 = Some ''no query''"
    by (simp_all add: instancesToLoad_def exampleEnv_def emptyCollector_def failure_defs)
  have H1: "snd (GetInstances ?P) = None
      \<and> GetProductConfig ?P (Namespace emptyCollector) = (?pc, None)
      \<and> instancesToLoad ?P emptyCollector = [] @ ?i1 # [?i2]
      \<and> ListMetrics ?P (Namespace emptyCollector) (GetInstanceID ?i1) = ([] @ ?cpu # [], None)
      \<and> emptyCollector = collectorAt ?P ?pc (map (ToLower ?P) (ExcludeMetrics ?pc)) [] ?i1 []
                            emptyCollector
      \<and> \<not> (map (ToLower ?P) (ExcludeMetrics ?pc) \<noteq> []
           \<and> IsStrInList (map (ToLower ?P) (ExcludeMetrics ?pc)) (ToLower ?P (MetricName ?cpu)))"
    by (simp add: instancesToLoad_def collectorAt_def example_defs failure_defs)
  have cr1: "createMetricWithMeta ?P ?cpu ?pc (GetInstanceID ?i1) emptyCollector
      = (Inr 0, emptyCollector\<lparr>heap := [\<lparr>SeriesCache = [], LoadTimeAt = 0\<rparr>]\<rparr>)"
    by (simp add: example_defs failure_defs)
  have se: "snd (GetSeriesByInstances ?P
                   (heap (emptyCollector\<lparr>heap := [\<lparr>SeriesCache = [], LoadTimeAt = 0\<rparr>]\<rparr>) ! 0)
                   [?i1]) = Some ''no series''"
    by (simp add: example_defs failure_defs)
  note T = per_item_errors_logged_or_returned[OF h1, THEN conjunct2, THEN conjunct2, rule_format,
      OF H1, THEN conjunct2, rule_format, OF cr1]
  from T have a: "map_of (MetricMap (fst (snd (LoadMetricsByProductConf ?P emptyCollector))))
        ''cpu.i-1'' = Some 0"
    by (simp add: metricKey_def)
  from T[THEN conjunct2, THEN conjunct2, THEN conjunct2, THEN conjunct1, rule_format, OF se]
  have b: "Log LError ''create metric series err''
        [(''err'', S ''no series''), (''Namespace'', S ''KEC''), (''name'', S ''cpu'')]
      \<in> set (snd (snd (LoadMetricsByProductConf ?P emptyCollector)))"
    by (simp add: emptyCollector_def)
  have H2: "snd (GetInstances ?U) = None
      \<and> GetProductConfig ?U (Namespace emptyCollector) = (?pc, None)
      \<and> instancesToLoad ?U emptyCollector = [] @ ?i1 # []
      \<and> ListMetrics ?U (Namespace emptyCollector) (GetInstanceID ?i1)
          = ([?mem] @ ?disk # [], Some ''listing failed'')
      \<and> emptyCollector = collectorAt ?U ?pc (map (ToLower ?U) (ExcludeMetrics ?pc)) [] ?i1 [?mem]
                            emptyCollector
      \<and> \<not> (map (ToLower ?U) (ExcludeMetrics ?pc) \<noteq> []
           \<and> IsStrInList (map (ToLower ?U) (ExcludeMetrics ?pc)) (ToLower ?U (MetricName ?disk)))"
    by (simp add: instancesToLoad_def collectorAt_def example_defs failure_defs)
  have cr2: "createMetricWithMeta ?U ?disk ?pc (GetInstanceID ?i1) emptyCollector
      = (Inl ''no metric'', emptyCollector)"
    by (simp add: example_defs failure_defs)
  from per_item_errors_logged_or_returned[OF h2, THEN conjunct2, THEN conjunct2, rule_format,
      OF H2, THEN conjunct1, rule_format, OF cr2]
  have c: "Log LWarn ''Create metric fail''
        [(''err'', S ''no metric''), (''Namespace'', S ''KEC''), (''name'', S ''disk'')]
      \<in> set (snd (snd (LoadMetricsByProductConf ?U emptyCollector)))"
    by (simp add: emptyCollector_def)
  from cr1 have cr1': "createMetricWithMeta ?P ?cpu ?pc ''i-1'' emptyCollector
      = (Inr 0, emptyCollector\<lparr>heap := [\<lparr>SeriesCache = [], LoadTimeAt = 0\<rparr>]\<rparr>)" by simp
  from cr2 have cr2': "createMetricWithMeta ?U ?disk ?pc ''i-1'' emptyCollector
      = (Inl ''no metric'', emptyCollector)" by simp
  from r1 g(1,2,3) cr1' g(4) a b r2 cr2' c show ?thesis by (intro conjI)
qed

section \<open>Reuse of Metric objects\<close>

text \<open>
  Claim C3. When the registry binds the key of a metric name and an instance id to a
  Metric object, \<open>createMetricWithMeta\<close> returns that very object and touches nothing
  (no object is built, the store with the series cache and the load time is as before);
  storing it under the key leaves the registry as it was; the loop body then loads the
  series into that object in place; and after the whole cycle the key is still bound to
  that object. A Metric is built only when the key is absent: the result is then an
  error and an unchanged collector, or the address of one new object.
\<close>

theorem createMetricWithMeta_reuses:
  "(map_of (MetricMap c) (metricKey (MetricName meta) (GetInstanceID ins)) = Some m \<longrightarrow>
      createMetricWithMeta e meta pc (GetInstanceID ins) c = (Inr m, c)
      \<and> AList.update (metricKey (MetricName meta) (GetInstanceID ins)) m (MetricMap c) = MetricMap c
      \<and> (\<not> (ex \<noteq> [] \<and> IsStrInList ex (ToLower e (MetricName meta))) \<longrightarrow>
           fst (loadMeta e pc ex ins meta c) =
             c\<lparr>heap := (heap c)[m := fst (LoadSeries e (heap c ! m)
                                           (fst (GetSeriesByInstances e (heap c ! m) [ins])))]\<rparr>)
      \<and> map_of (MetricMap (fst (snd (LoadMetricsByProductConf e' c))))
           (metricKey (MetricName meta) (GetInstanceID ins)) = Some m)
   \<and> (map_of (MetricMap c) (metricKey (MetricName meta) (GetInstanceID ins)) = None \<longrightarrow>
        (case createMetricWithMeta e meta pc (GetInstanceID ins) c of
           (Inl err, c1) \<Rightarrow> c1 = c
         | (Inr p, c1) \<Rightarrow> p = length (heap c) \<and> (\<exists>nm. c1 = c\<lparr>heap := heap c @ [nm]\<rparr>)))"
proof (intro conjI impI)
  assume a: "map_of (MetricMap c) (metricKey (MetricName meta) (GetInstanceID ins)) = Some m"
  show cm: "createMetricWithMeta e meta pc (GetInstanceID ins) c = (Inr m, c)"
    using a by (rule createMetricWithMeta_existing)
  show up: "AList.update (metricKey (MetricName meta) (GetInstanceID ins)) m (MetricMap c) = MetricMap c"
    using a by (rule update_triv)
  show "map_of (MetricMap (fst (snd (LoadMetricsByProductConf e' c))))
           (metricKey (MetricName meta) (GetInstanceID ins)) = Some m"
  proof -
    obtain r c' ev where l: "LoadMetricsByProductConf e' c = (r, c', ev)"
      by (cases "LoadMetricsByProductConf e' c")
    from LoadMetricsByProductConf_frame[OF l] a
    have "map_of (MetricMap c') (metricKey (MetricName meta) (GetInstanceID ins)) = Some m"
      by blast
    with l show ?thesis by simp
  qed
  assume "\<not> (ex \<noteq> [] \<and> IsStrInList ex (ToLower e (MetricName meta)))"
  then have ne: "(ex \<noteq> [] \<and> IsStrInList ex (ToLower e (MetricName meta))) = False" by simp
  show "fst (loadMeta e pc ex ins meta c) =
             c\<lparr>heap := (heap c)[m := fst (LoadSeries e (heap c ! m)
                                           (fst (GetSeriesByInstances e (heap c ! m) [ins])))]\<rparr>"
    by (simp only: loadMeta_def ne if_False cm) (simp add: Let_def up split_beta)
next
  assume "map_of (MetricMap c) (metricKey (MetricName meta) (GetInstanceID ins)) = None"
  then show "case createMetricWithMeta e meta pc (GetInstanceID ins) c of
           (Inl err, c1) \<Rightarrow> c1 = c
         | (Inr p, c1) \<Rightarrow> p = length (heap c) \<and> (\<exists>nm. c1 = c\<lparr>heap := heap c @ [nm]\<rparr>)"
    by (auto simp: createMetricWithMeta_def split: sum.splits)
qed

theorem createMetricWithMeta_reuses_witness:
  "map_of (MetricMap cycleZero) (metricKey ''cpu'' ''i-1'') = Some 0
   \<and> createMetricWithMeta (exampleEnv 400 [KscInstance ''i-1''] cpuOnly noQueryErr)
        \<lparr>MetricName = ''cpu''\<rparr> \<lparr>ExcludeMetrics = [''Mem'']\<rparr> ''i-1'' cycleZero = (Inr 0, cycleZero)
   \<and> fst (loadMeta (exampleEnv 400 [KscInstance ''i-1''] cpuOnly noQueryErr)
            \<lparr>ExcludeMetrics = [''Mem'']\<rparr> [''mem''] (KscInstance ''i-1'') \<lparr>MetricName = ''cpu''\<rparr>
            cycleZero)
       = cycleZero\<lparr>heap := [\<lparr>SeriesCache = [''i-1''], LoadTimeAt = 400\<rparr>]\<rparr>
   \<and> map_of (MetricMap (fst (snd (LoadMetricsByProductConf
                (exampleEnv 400 [KscInstance ''i-1''] cpuOnly noQueryErr) cycleZero))))
        (metricKey ''cpu'' ''i-1'') = Some 0
   \<and> map_of (MetricMap emptyCollector) (metricKey ''cpu'' ''i-1'') = None
   \<and> createMetricWithMeta (exampleEnv 400 [KscInstance ''i-1''] cpuOnly noQueryErr)
        \<lparr>MetricName = ''cpu''\<rparr> \<lparr>ExcludeMetrics = [''Mem'']\<rparr> ''i-1'' emptyCollector
       = (Inr 0, emptyCollector\<lparr>heap := [\<lparr>SeriesCache = [], LoadTimeAt = 0\<rparr>]\<rparr>)"
proof -
  let ?E = "exampleEnv 400 [KscInstance ''i-1''] cpuOnly noQueryErr"
  have k1: "map_of (MetricMap cycleZero) (metricKey (MetricName \<lparr>MetricName = ''cpu''\<rparr>)
              (GetInstanceID (KscInstance ''i-1''))) = Some 0"
    by (simp add: cycleZero_def metricKey_def)
  have nx: "\<not> ([''mem''] \<noteq> [] \<and> IsStrInList [''mem''] (ToLower ?E (MetricName \<lparr>MetricName = ''cpu''\<rparr>)))"
    by (simp add: IsStrInList_def exampleEnv_def asciiLower_cpu)
  have k2: "map_of (MetricMap emptyCollector) (metricKey (MetricName \<lparr>MetricName = ''cpu''\<rparr>)
              (GetInstanceID (KscInstance ''i-1''))) = None"
    by (simp add: emptyCollector_def)
  have ev: "createMetricWithMeta ?E \<lparr>MetricName = ''cpu''\<rparr> \<lparr>ExcludeMetrics = [''Mem'']\<rparr> ''i-1''
              emptyCollector
            = (Inr 0, emptyCollector\<lparr>heap := [\<lparr>SeriesCache = [], LoadTimeAt = 0\<rparr>]\<rparr>)"
    by (simp add: createMetricWithMeta_def emptyCollector_def exampleEnv_def metricKey_def)
  have ld: "(heap cycleZero)[0 := fst (LoadSeries ?E (heap cycleZero ! 0)
               (fst (GetSeriesByInstances ?E (heap cycleZero ! 0) [KscInstance ''i-1''])))]
            = [\<lparr>SeriesCache = [''i-1''], LoadTimeAt = 400\<rparr>]"
    by (simp add: cycleZero_def exampleEnv_def)
  from createMetricWithMeta_reuses[of cycleZero "\<lparr>MetricName = ''cpu''\<rparr>" "KscInstance ''i-1''" 0
      ?E "\<lparr>ExcludeMetrics = [''Mem'']\<rparr>" "[''mem'']" ?E] k1 nx
  have "createMetricWithMeta ?E \<lparr>MetricName = ''cpu''\<rparr> \<lparr>ExcludeMetrics = [''Mem'']\<rparr> ''i-1'' cycleZero
          = (Inr 0, cycleZero)"
    and "fst (loadMeta ?E \<lparr>ExcludeMetrics = [''Mem'']\<rparr> [''mem''] (KscInstance ''i-1'')
               \<lparr>MetricName = ''cpu''\<rparr> cycleZero)
          = cycleZero\<lparr>heap := [\<lparr>SeriesCache = [''i-1''], LoadTimeAt = 400\<rparr>]\<rparr>"
    and "map_of (MetricMap (fst (snd (LoadMetricsByProductConf ?E cycleZero))))
           (metricKey ''cpu'' ''i-1'') = Some 0"
    by (simp_all add: ld)
  with k1 k2 ev show ?thesis by simp
qed


section \<open>The calls of \<open>ListMetrics\<close>\<close>

lemma listedInstances_append [simp]:
  "listedInstances (xs @ ys) = listedInstances xs @ listedInstances ys"
  by (induction xs rule: listedInstances.induct) simp_all

lemma loadMeta_no_calls:
  "loadMeta e pc ex ins meta c = (c', ev) \<Longrightarrow> listedInstances ev = []"
  by (auto simp: loadMeta_def Let_def split: if_splits prod.splits sum.splits option.splits)

lemma loadMetas_no_calls:
  "loadMetas e pc ex ins metas c = (c', ev) \<Longrightarrow> listedInstances ev = []"
proof (induction metas arbitrary: c c' ev)
  case Nil
  then show ?case by simp
next
  case (Cons meta metas)
  obtain c1 ev1 where a: "loadMeta e pc ex ins meta c = (c1, ev1)" by (cases "loadMeta e pc ex ins meta c")
  obtain c2 ev2 where b: "loadMetas e pc ex ins metas c1 = (c2, ev2)"
    by (cases "loadMetas e pc ex ins metas c1")
  from Cons.prems a b have "ev = ev1 @ ev2" by simp
  with loadMeta_no_calls[OF a] Cons.IH[OF b] show ?case by simp
qed

lemma loadInstance_calls:
  assumes "loadInstance e pc ex ins c = (c', ev)"
  shows "listedInstances ev = [GetInstanceID ins]"
proof (cases "ListMetrics e (Namespace c) (GetInstanceID ins)")
  case (Pair allMeta err)
  obtain c1 ev1 where b: "loadMetas e pc ex ins allMeta c = (c1, ev1)"
    by (cases "loadMetas e pc ex ins allMeta c")
  from assms Pair b loadMetas_no_calls[OF b] show ?thesis
    by (auto simp: loadInstance_def Let_def split: option.splits if_splits)
qed

lemma loadInstances_calls:
  "loadInstances e pc ex instances c = (c', ev) \<Longrightarrow>
     listedInstances ev = map GetInstanceID instances"
proof (induction instances arbitrary: c c' ev)
  case Nil
  then show ?case by simp
next
  case (Cons ins instances)
  obtain c1 ev1 where a: "loadInstance e pc ex ins c = (c1, ev1)" by (cases "loadInstance e pc ex ins c")
  obtain c2 ev2 where b: "loadInstances e pc ex instances c1 = (c2, ev2)"
    by (cases "loadInstances e pc ex instances c1")
  from Cons.prems a b have "ev = ev1 @ ev2" by simp
  with loadInstance_calls[OF a] Cons.IH[OF b] show ?case by simp
qed

lemma loadMetrics_calls:
  assumes "loadMetrics e instances c = (None, c', ev)"
  shows "listedInstances ev = map GetInstanceID instances"
proof (cases "GetProductConfig e (Namespace c)")
  case (Pair pc err)
  obtain c1 ev1 where b: "loadInstances e pc (map (ToLower e) (ExcludeMetrics pc)) instances c = (c1, ev1)"
    by (cases "loadInstances e pc (map (ToLower e) (ExcludeMetrics pc)) instances c")
  from assms Pair b have "ev = ev1"
    by (auto simp: loadMetrics_def Let_def split: option.splits)
  with loadInstances_calls[OF b] show ?thesis by simp
qed

section \<open>The instance snapshot does not reach the loading but as its argument\<close>

lemma createMetricWithMeta_GetInstances [simp]:
  "createMetricWithMeta (e\<lparr>GetInstances := v\<rparr>) meta pc iid c = createMetricWithMeta e meta pc iid c"
  by (simp add: createMetricWithMeta_def cong: option.case_cong sum.case_cong)

lemma loadMeta_GetInstances [simp]:
  "loadMeta (e\<lparr>GetInstances := v\<rparr>) pc ex ins meta c = loadMeta e pc ex ins meta c"
  by (simp add: loadMeta_def cong: if_cong prod.case_cong sum.case_cong)

lemma loadMetas_GetInstances [simp]:
  "loadMetas (e\<lparr>GetInstances := v\<rparr>) pc ex ins metas c = loadMetas e pc ex ins metas c"
  by (induction metas arbitrary: c) simp_all

lemma loadInstance_GetInstances [simp]:
  "loadInstance (e\<lparr>GetInstances := v\<rparr>) pc ex ins c = loadInstance e pc ex ins c"
  by (simp add: loadInstance_def cong: if_cong prod.case_cong)

lemma loadInstances_GetInstances [simp]:
  "loadInstances (e\<lparr>GetInstances := v\<rparr>) pc ex instances c = loadInstances e pc ex instances c"
  by (induction instances arbitrary: c) simp_all

lemma loadMetrics_GetInstances [simp]:
  "loadMetrics (e\<lparr>GetInstances := v\<rparr>) instances c = loadMetrics e instances c"
  by (simp add: loadMetrics_def cong: prod.case_cong option.case_cong)

lemma loadQueries_GetInstances [simp]:
  "loadQueries (e\<lparr>GetInstances := v\<rparr>) t xs n c = loadQueries e t xs n c"
  by (induction xs arbitrary: n c) (auto simp: NewQuery_def split: option.splits)

section \<open>The bound on the instances\<close>

text \<open>
  A cycle whose instance listing succeeded, written out: \<open>xs1\<close> is the snapshot handed
  to \<open>loadMetrics\<close>, \<open>ev1\<close> the warning of the truncation.
\<close>

lemma LoadMetricsByProductConf_listed:
  assumes "GetInstances e = (xs, None)"
    and "xs1 = (if IsSupportMultiDimensionNamespace e (Namespace c)
                   \<and> DefaultSupportInstances e < length xs
                then take (DefaultSupportInstances e) xs else xs)"
    and "ev1 = (if IsSupportMultiDimensionNamespace e (Namespace c)
                   \<and> DefaultSupportInstances e < length xs
                then [Log LWarn ''loaded instances exceeds the maximum load of a single product''
                        [(''Namespace'', S (Namespace c)),
                         (''only_load_instances'', N (DefaultSupportInstances e))]]
                else [])"
    and "loadMetrics e xs1 c = (r2, c2, ev2)"
    and "loadQueries e (now e) (rangeOrder e (MetricMap c2)) 0 c2 = (r3, n, c3)"
  shows "LoadMetricsByProductConf e c =
           (case r2 of
              Some err \<Rightarrow> (Some err, c2,
                  Log LInfo ''start load metrics'' [(''Namespace'', S (Namespace c))] # ev1 @ ev2)
            | None \<Rightarrow>
               (case r3 of
                  Some err \<Rightarrow> (Some err, c3,
                      Log LInfo ''start load metrics'' [(''Namespace'', S (Namespace c))] # ev1 @ ev2)
                | None \<Rightarrow> (None, c3,
                      Log LInfo ''start load metrics'' [(''Namespace'', S (Namespace c))] # ev1 @ ev2 @
                      [Log LInfo ''Init new query''
                         [(''Namespace'', S (Namespace c3)),
                          (''metric_num'', N (length (Queries c3))),
                          (''new_series_num'', N n)]])))"
  using assms
  by (auto simp: LoadMetricsByProductConf_def Let_def split: option.splits)

text \<open>
  Claim C9. For a namespace with multi-dimension monitoring and a snapshot \<open>xs\<close> of the
  instances: when \<open>xs\<close> is longer than the maximum, the cycle calls \<open>ListMetrics\<close> for the
  first \<open>max\<close> instances of \<open>xs\<close>, in that order, and for no other, and logs the warning;
  when it is not longer, it calls it for all of \<open>xs\<close> in order. (The calls are made when
  the product configuration is found; the cycle stops before them otherwise.) In both
  cases the error returned and the collector left are those of a cycle whose snapshot is
  just these instances.
\<close>

theorem instances_truncated:
  assumes "GetInstances e = (xs, None)"
    and "IsSupportMultiDimensionNamespace e (Namespace c)"
    and "xs1 = (if DefaultSupportInstances e < length xs
                then take (DefaultSupportInstances e) xs else xs)"
  shows "(snd (GetProductConfig e (Namespace c)) = None \<longrightarrow>
            listedInstances (snd (snd (LoadMetricsByProductConf e c))) = map GetInstanceID xs1)
       \<and> (DefaultSupportInstances e < length xs \<longrightarrow>
            Log LWarn ''loaded instances exceeds the maximum load of a single product''
              [(''Namespace'', S (Namespace c)),
               (''only_load_instances'', N (DefaultSupportInstances e))]
            \<in> set (snd (snd (LoadMetricsByProductConf e c))))
       \<and> fst (LoadMetricsByProductConf e c)
           = fst (LoadMetricsByProductConf (e\<lparr>GetInstances := (xs1, None)\<rparr>) c)
       \<and> fst (snd (LoadMetricsByProductConf e c))
           = fst (snd (LoadMetricsByProductConf (e\<lparr>GetInstances := (xs1, None)\<rparr>) c))"
proof -
  let ?e' = "e\<lparr>GetInstances := (xs1, None)\<rparr>"
  define ev1 where "ev1 = (if IsSupportMultiDimensionNamespace e (Namespace c)
                   \<and> DefaultSupportInstances e < length xs
                then [Log LWarn ''loaded instances exceeds the maximum load of a single product''
                        [(''Namespace'', S (Namespace c)),
                         (''only_load_instances'', N (DefaultSupportInstances e))]]
                else [])"
  obtain r2 c2 ev2 where lm: "loadMetrics e xs1 c = (r2, c2, ev2)" by (cases "loadMetrics e xs1 c")
  obtain r3 n c3 where lq: "loadQueries e (now e) (rangeOrder e (MetricMap c2)) 0 c2 = (r3, n, c3)"
    by (cases "loadQueries e (now e) (rangeOrder e (MetricMap c2)) 0 c2")
  have xs1: "xs1 = (if IsSupportMultiDimensionNamespace e (Namespace c)
                   \<and> DefaultSupportInstances e < length xs
                then take (DefaultSupportInstances e) xs else xs)"
    using assms(2,3) by simp
  note L = LoadMetricsByProductConf_listed[OF assms(1) xs1 ev1_def lm lq]
  have short: "\<not> DefaultSupportInstances e < length xs1" using assms(3) by simp
  have gi': "GetInstances ?e' = (xs1, None)" by simp
  have xs1': "xs1 = (if IsSupportMultiDimensionNamespace ?e' (Namespace c)
                   \<and> DefaultSupportInstances ?e' < length xs1
                then take (DefaultSupportInstances ?e') xs1 else xs1)"
    using short by simp
  have ev1': "[] = (if IsSupportMultiDimensionNamespace ?e' (Namespace c)
                   \<and> DefaultSupportInstances ?e' < length xs1
                then [Log LWarn ''loaded instances exceeds the maximum load of a single product''
                        [(''Namespace'', S (Namespace c)),
                         (''only_load_instances'', N (DefaultSupportInstances ?e'))]]
                else [])"
    using short by simp
  have lm': "loadMetrics ?e' xs1 c = (r2, c2, ev2)" using lm by simp
  have lq': "loadQueries ?e' (now ?e') (rangeOrder ?e' (MetricMap c2)) 0 c2 = (r3, n, c3)"
    using lq by simp
  note L' = LoadMetricsByProductConf_listed[OF gi' xs1' ev1' lm' lq']
  have calls: "listedInstances (snd (snd (LoadMetricsByProductConf e c))) = map GetInstanceID xs1"
    if "snd (GetProductConfig e (Namespace c)) = None"
  proof -
    from that loadMetrics_error[of e xs1 c] lm have "r2 = None" by simp
    with lm loadMetrics_calls[of e xs1 c c2 ev2]
    have "listedInstances ev2 = map GetInstanceID xs1" by simp
    then show ?thesis unfolding L by (simp add: \<open>r2 = None\<close> ev1_def split: option.splits)
  qed
  have warn: "Log LWarn ''loaded instances exceeds the maximum load of a single product''
              [(''Namespace'', S (Namespace c)),
               (''only_load_instances'', N (DefaultSupportInstances e))]
            \<in> set (snd (snd (LoadMetricsByProductConf e c)))"
    if "DefaultSupportInstances e < length xs"
    unfolding L using that assms(2) by (simp add: ev1_def split: option.splits)
  have same: "fst (LoadMetricsByProductConf e c) = fst (LoadMetricsByProductConf ?e' c)"
    "fst (snd (LoadMetricsByProductConf e c)) = fst (snd (LoadMetricsByProductConf ?e' c))"
    unfolding L L' by (simp_all split: option.splits)
  from calls warn same show ?thesis by blast
qed

theorem instances_truncated_witness:
  "GetInstances (exampleEnv 100 [KscInstance ''i-1'', KscInstance ''i-2'', KscInstance ''i-3'']
                   cpuOnly noQueryErr)
     = ([KscInstance ''i-1'', KscInstance ''i-2'', KscInstance ''i-3''], None)
   \<and> IsSupportMultiDimensionNamespace
        (exampleEnv 100 [KscInstance ''i-1'', KscInstance ''i-2'', KscInstance ''i-3'']
           cpuOnly noQueryErr) (Namespace emptyCollector)
   \<and> listedInstances (snd (snd (LoadMetricsByProductConf
        (exampleEnv 100 [KscInstance ''i-1'', KscInstance ''i-2'', KscInstance ''i-3'']
           cpuOnly noQueryErr) emptyCollector))) = [''i-1'', ''i-2'']
   \<and> Log LWarn ''loaded instances exceeds the maximum load of a single product''
        [(''Namespace'', S ''KEC''), (''only_load_instances'', N 2)]
        \<in> set (snd (snd (LoadMetricsByProductConf
        (exampleEnv 100 [KscInstance ''i-1'', KscInstance ''i-2'', KscInstance ''i-3'']
           cpuOnly noQueryErr) emptyCollector)))
   \<and> listedInstances (snd (snd (LoadMetricsByProductConf
        (exampleEnv 100 [KscInstance ''i-1''] cpuOnly noQueryErr) emptyCollector))) = [''i-1'']"
proof -
  let ?xs = "[KscInstance ''i-1'', KscInstance ''i-2'', KscInstance ''i-3'']"
  let ?E = "exampleEnv 100 ?xs cpuOnly noQueryErr"
  let ?F = "exampleEnv 100 [KscInstance ''i-1''] cpuOnly noQueryErr"
  have h1: "GetInstances ?E = (?xs, None)" by (simp add: exampleEnv_def)
  have h2: "IsSupportMultiDimensionNamespace ?E (Namespace emptyCollector)"
    by (simp add: exampleEnv_def emptyCollector_def)
  have h3: "[KscInstance ''i-1'', KscInstance ''i-2'']
            = (if DefaultSupportInstances ?E < length ?xs
               then take (DefaultSupportInstances ?E) ?xs else ?xs)"
    by (simp add: exampleEnv_def)
  have pc: "snd (GetProductConfig ?E (Namespace emptyCollector)) = None"
    "DefaultSupportInstances ?E < length ?xs" "DefaultSupportInstances ?E = 2"
    "Namespace emptyCollector = ''KEC''"
    by (simp_all add: exampleEnv_def emptyCollector_def)
  have g1: "GetInstances ?F = ([KscInstance ''i-1''], None)" by (simp add: exampleEnv_def)
  have g2: "IsSupportMultiDimensionNamespace ?F (Namespace emptyCollector)"
    by (simp add: exampleEnv_def emptyCollector_def)
  have g3: "[KscInstance ''i-1'']
            = (if DefaultSupportInstances ?F < length [KscInstance ''i-1'']
               then take (DefaultSupportInstances ?F) [KscInstance ''i-1''] else [KscInstance ''i-1''])"
    by (simp add: exampleEnv_def)
  have pc': "snd (GetProductConfig ?F (Namespace emptyCollector)) = None"
    by (simp add: exampleEnv_def)
  from instances_truncated[OF h1 h2 h3] pc
  have a: "listedInstances (snd (snd (LoadMetricsByProductConf ?E emptyCollector))) = [''i-1'', ''i-2'']"
    and b: "Log LWarn ''loaded instances exceeds the maximum load of a single product''
        [(''Namespace'', S ''KEC''), (''only_load_instances'', N 2)]
        \<in> set (snd (snd (LoadMetricsByProductConf ?E emptyCollector)))"
    by simp_all
  from instances_truncated[OF g1 g2 g3] pc'
  have c: "listedInstances (snd (snd (LoadMetricsByProductConf ?F emptyCollector))) = [''i-1'']"
    by simp
  from h1 h2 a b c show ?thesis by simp
qed


section \<open>A failed listing of the metrics\<close>

lemma loadInstance_failed_empty:
  assumes "ListMetrics e (Namespace c) (GetInstanceID i) = ([], Some err)"
  shows "loadInstance e pc ex i c =
           (c, [ListMetricsCall (Namespace c) (GetInstanceID i),
                Log LWarn ''request metric list fail''
                  [(''err'', S err), (''Namespace'', S (Namespace c)),
                   (''InstanceId'', S (GetInstanceID i))]])"
  using assms by (simp add: loadInstance_def)

text \<open>
  Loading the instances \<open>xs\<close>, then one whose listing fails with no metadata, then \<open>ys\<close>:
  the collector is the one left by loading \<open>xs\<close> and \<open>ys\<close>, and the events are those of
  \<open>xs\<close>, the call and the warning, and those of \<open>ys\<close>.
\<close>

lemma loadInstances_failed_empty:
  assumes "ListMetrics e (Namespace c) (GetInstanceID i) = ([], Some err)"
  shows "fst (loadInstances e pc ex (xs @ i # ys) c) = fst (loadInstances e pc ex (xs @ ys) c)"
    and "Log LWarn ''request metric list fail''
           [(''err'', S err), (''Namespace'', S (Namespace c)), (''InstanceId'', S (GetInstanceID i))]
         \<in> set (snd (loadInstances e pc ex (xs @ i # ys) c))"
proof -
  obtain c1 ev1 where a: "loadInstances e pc ex xs c = (c1, ev1)"
    by (cases "loadInstances e pc ex xs c")
  from loadInstances_frame[OF a] have ns: "Namespace c1 = Namespace c" by simp
  with assms have l: "ListMetrics e (Namespace c1) (GetInstanceID i) = ([], Some err)" by simp
  obtain c2 ev2 where b: "loadInstances e pc ex ys c1 = (c2, ev2)"
    by (cases "loadInstances e pc ex ys c1")
  have "loadInstances e pc ex (i # ys) c1 =
          (c2, [ListMetricsCall (Namespace c1) (GetInstanceID i),
                Log LWarn ''request metric list fail''
                  [(''err'', S err), (''Namespace'', S (Namespace c1)),
                   (''InstanceId'', S (GetInstanceID i))]] @ ev2)"
    using loadInstance_failed_empty[OF l, of pc ex] b by simp
  with a b ns show "fst (loadInstances e pc ex (xs @ i # ys) c) = fst (loadInstances e pc ex (xs @ ys) c)"
    and "Log LWarn ''request metric list fail''
           [(''err'', S err), (''Namespace'', S (Namespace c)), (''InstanceId'', S (GetInstanceID i))]
         \<in> set (snd (loadInstances e pc ex (xs @ i # ys) c))"
    by (simp_all add: loadInstances_append)
qed

text \<open>
  Claim C8, as stated: an instance whose metric listing fails is skipped and contributes
  no metrics. It fails when \<open>ListMetrics\<close> returns metadata next to its error: the
  listing for \<open>i-1\<close> fails, and the cycle still registers and queries \<open>cpu.i-1\<close>.
\<close>

theorem failed_listing_not_skipped:
  "ListMetrics (exampleEnv 100 [KscInstance ''i-1'', KscInstance ''i-2''] failingNonEmpty noQueryErr)
     ''KEC'' ''i-1'' = ([\<lparr>MetricName = ''Mem''\<rparr>, \<lparr>MetricName = ''cpu''\<rparr>], Some ''listing failed'')
   \<and> fst (LoadMetricsByProductConf
            (exampleEnv 100 [KscInstance ''i-1'', KscInstance ''i-2''] failingNonEmpty noQueryErr)
            emptyCollector) = None
   \<and> MetricMap (fst (snd (LoadMetricsByProductConf
            (exampleEnv 100 [KscInstance ''i-1'', KscInstance ''i-2''] failingNonEmpty noQueryErr)
            emptyCollector))) = [(''cpu.i-1'', 0), (''cpu.i-2'', 1)]
   \<and> Queries (fst (snd (LoadMetricsByProductConf
            (exampleEnv 100 [KscInstance ''i-1'', KscInstance ''i-2''] failingNonEmpty noQueryErr)
            emptyCollector))) = [\<lparr>Metric = 0\<rparr>, \<lparr>Metric = 1\<rparr>]"
  by (simp add: example_defs failingNonEmpty_def)

text \<open>
  Claim C8, amended. If the listing of the metrics fails for an instance and returns no
  metadata, that instance contributes nothing: \<open>loadMetrics\<close> leaves the collector that
  it leaves when the instance is taken out of the list, so all other instances are
  processed as they are without it; the failure is logged as a warning and
  \<open>loadMetrics\<close> returns no error when the product configuration is found. For a cycle
  whose snapshot is not truncated, the error returned and the collector left are those
  of the cycle without that instance.
\<close>

theorem failed_empty_listing_skipped:
  assumes "ListMetrics e (Namespace c) (GetInstanceID i) = ([], Some err)"
  shows "fst (loadMetrics e (xs @ i # ys) c) = fst (loadMetrics e (xs @ ys) c)
       \<and> fst (snd (loadMetrics e (xs @ i # ys) c)) = fst (snd (loadMetrics e (xs @ ys) c))
       \<and> (snd (GetProductConfig e (Namespace c)) = None \<longrightarrow>
            fst (loadMetrics e (xs @ i # ys) c) = None
            \<and> Log LWarn ''request metric list fail''
                [(''err'', S err), (''Namespace'', S (Namespace c)),
                 (''InstanceId'', S (GetInstanceID i))]
              \<in> set (snd (snd (loadMetrics e (xs @ i # ys) c))))
       \<and> (GetInstances e = (xs @ i # ys, None)
            \<and> \<not> (IsSupportMultiDimensionNamespace e (Namespace c)
                 \<and> DefaultSupportInstances e < length (xs @ i # ys)) \<longrightarrow>
            fst (LoadMetricsByProductConf e c)
              = fst (LoadMetricsByProductConf (e\<lparr>GetInstances := (xs @ ys, None)\<rparr>) c)
            \<and> fst (snd (LoadMetricsByProductConf e c))
              = fst (snd (LoadMetricsByProductConf (e\<lparr>GetInstances := (xs @ ys, None)\<rparr>) c)))"
proof -
  obtain pc perr where gp: "GetProductConfig e (Namespace c) = (pc, perr)"
    by (cases "GetProductConfig e (Namespace c)")
  have r: "fst (loadMetrics e (xs @ i # ys) c) = fst (loadMetrics e (xs @ ys) c)"
    by (simp add: loadMetrics_error)
  have s: "fst (snd (loadMetrics e (xs @ i # ys) c)) = fst (snd (loadMetrics e (xs @ ys) c))"
  proof (cases perr)
    case None
    with gp loadInstances_failed_empty(1)[OF assms] show ?thesis
      by (simp add: loadMetrics_unfold)
  next
    case (Some x)
    with gp show ?thesis by (simp add: loadMetrics_def)
  qed
  have w: "fst (loadMetrics e (xs @ i # ys) c) = None
            \<and> Log LWarn ''request metric list fail''
                [(''err'', S err), (''Namespace'', S (Namespace c)),
                 (''InstanceId'', S (GetInstanceID i))]
              \<in> set (snd (snd (loadMetrics e (xs @ i # ys) c)))"
    if "snd (GetProductConfig e (Namespace c)) = None"
    using that gp loadInstances_failed_empty(2)[OF assms]
    by (simp add: loadMetrics_unfold)
  have cyc: "fst (LoadMetricsByProductConf e c)
              = fst (LoadMetricsByProductConf (e\<lparr>GetInstances := (xs @ ys, None)\<rparr>) c)
            \<and> fst (snd (LoadMetricsByProductConf e c))
              = fst (snd (LoadMetricsByProductConf (e\<lparr>GetInstances := (xs @ ys, None)\<rparr>) c))"
    if gi: "GetInstances e = (xs @ i # ys, None)"
      and nt: "\<not> (IsSupportMultiDimensionNamespace e (Namespace c)
                 \<and> DefaultSupportInstances e < length (xs @ i # ys))"
  proof -
    let ?e' = "e\<lparr>GetInstances := (xs @ ys, None)\<rparr>"
    obtain r2 c2 ev2 where lm: "loadMetrics e (xs @ i # ys) c = (r2, c2, ev2)"
      by (cases "loadMetrics e (xs @ i # ys) c")
    obtain ev2' where lm': "loadMetrics ?e' (xs @ ys) c = (r2, c2, ev2')"
      using r s lm by (cases "loadMetrics e (xs @ ys) c") simp
    obtain r3 n c3 where lq: "loadQueries e (now e) (rangeOrder e (MetricMap c2)) 0 c2 = (r3, n, c3)"
      by (cases "loadQueries e (now e) (rangeOrder e (MetricMap c2)) 0 c2")
    then have lq': "loadQueries ?e' (now ?e') (rangeOrder ?e' (MetricMap c2)) 0 c2 = (r3, n, c3)"
      by simp
    have x1: "xs @ i # ys = (if IsSupportMultiDimensionNamespace e (Namespace c)
                   \<and> DefaultSupportInstances e < length (xs @ i # ys)
                then take (DefaultSupportInstances e) (xs @ i # ys) else xs @ i # ys)"
      using nt by (simp only: if_False)
    have x1': "xs @ ys = (if IsSupportMultiDimensionNamespace ?e' (Namespace c)
                   \<and> DefaultSupportInstances ?e' < length (xs @ ys)
                then take (DefaultSupportInstances ?e') (xs @ ys) else xs @ ys)"
      using nt by auto
    have e1: "[] = (if IsSupportMultiDimensionNamespace e (Namespace c)
                   \<and> DefaultSupportInstances e < length (xs @ i # ys)
                then [Log LWarn ''loaded instances exceeds the maximum load of a single product''
                        [(''Namespace'', S (Namespace c)),
                         (''only_load_instances'', N (DefaultSupportInstances e))]]
                else [])"
      using nt by (simp only: if_False)
    have e1': "[] = (if IsSupportMultiDimensionNamespace ?e' (Namespace c)
                   \<and> DefaultSupportInstances ?e' < length (xs @ ys)
                then [Log LWarn ''loaded instances exceeds the maximum load of a single product''
                        [(''Namespace'', S (Namespace c)),
                         (''only_load_instances'', N (DefaultSupportInstances ?e'))]]
                else [])"
      using nt by auto
    have gi': "GetInstances ?e' = (xs @ ys, None)" by simp
    note L = LoadMetricsByProductConf_listed[OF gi x1 e1 lm lq]
    note L' = LoadMetricsByProductConf_listed[OF gi' x1' e1' lm' lq']
    show ?thesis unfolding L L' by (simp split: option.splits)
  qed
  from r s w cyc show ?thesis by blast
qed

theorem failed_empty_listing_skipped_witness:
  "ListMetrics (exampleEnv 100 [KscInstance ''i-1'', KscInstance ''i-2''] failingEmpty noQueryErr)
     (Namespace emptyCollector) (GetInstanceID (KscInstance ''i-1'')) = ([], Some ''listing failed'')
   \<and> fst (loadMetrics (exampleEnv 100 [KscInstance ''i-1'', KscInstance ''i-2''] failingEmpty noQueryErr)
            ([] @ KscInstance ''i-1'' # [KscInstance ''i-2'']) emptyCollector) = None
   \<and> fst (snd (loadMetrics (exampleEnv 100 [KscInstance ''i-1'', KscInstance ''i-2''] failingEmpty noQueryErr)
            ([] @ KscInstance ''i-1'' # [KscInstance ''i-2'']) emptyCollector))
       = fst (snd (loadMetrics (exampleEnv 100 [KscInstance ''i-1'', KscInstance ''i-2''] failingEmpty noQueryErr)
            ([] @ [KscInstance ''i-2'']) emptyCollector))
   \<and> MetricMap (fst (snd (loadMetrics
            (exampleEnv 100 [KscInstance ''i-1'', KscInstance ''i-2''] failingEmpty noQueryErr)
            [KscInstance ''i-1'', KscInstance ''i-2''] emptyCollector))) = [(''cpu.i-2'', 0)]
   \<and> Log LWarn ''request metric list fail''
        [(''err'', S ''listing failed''), (''Namespace'', S ''KEC''), (''InstanceId'', S ''i-1'')]
       \<in> set (snd (snd (loadMetrics
            (exampleEnv 100 [KscInstance ''i-1'', KscInstance ''i-2''] failingEmpty noQueryErr)
            ([] @ KscInstance ''i-1'' # [KscInstance ''i-2'']) emptyCollector)))"
proof -
  let ?E = "exampleEnv 100 [KscInstance ''i-1'', KscInstance ''i-2''] failingEmpty noQueryErr"
  have h: "ListMetrics ?E (Namespace emptyCollector) (GetInstanceID (KscInstance ''i-1''))
             = ([], Some ''listing failed'')"
    by (simp add: exampleEnv_def failingEmpty_def)
  have pc: "snd (GetProductConfig ?E (Namespace emptyCollector)) = None"
    "Namespace emptyCollector = ''KEC''"
    by (simp_all add: exampleEnv_def emptyCollector_def)
  have ev: "MetricMap (fst (snd (loadMetrics ?E [KscInstance ''i-1'', KscInstance ''i-2'']
              emptyCollector))) = [(''cpu.i-2'', 0)]"
    by (simp add: example_defs failingEmpty_def)
  note T = failed_empty_listing_skipped[OF h, of "[]" "[KscInstance ''i-2'']"]
  from T pc(1)
  have a: "fst (loadMetrics ?E ([] @ KscInstance ''i-1'' # [KscInstance ''i-2'']) emptyCollector) = None"
    by blast
  from T
  have b: "fst (snd (loadMetrics ?E ([] @ KscInstance ''i-1'' # [KscInstance ''i-2'']) emptyCollector))
       = fst (snd (loadMetrics ?E ([] @ [KscInstance ''i-2'']) emptyCollector))"
    by blast
  from T pc(1)
  have "Log LWarn ''request metric list fail''
        [(''err'', S ''listing failed''), (''Namespace'', S (Namespace emptyCollector)),
         (''InstanceId'', S (GetInstanceID (KscInstance ''i-1'')))]
       \<in> set (snd (snd (loadMetrics ?E ([] @ KscInstance ''i-1'' # [KscInstance ''i-2''])
                           emptyCollector)))"
    by blast
  then have d: "Log LWarn ''request metric list fail''
        [(''err'', S ''listing failed''), (''Namespace'', S ''KEC''), (''InstanceId'', S ''i-1'')]
       \<in> set (snd (snd (loadMetrics ?E ([] @ KscInstance ''i-1'' # [KscInstance ''i-2''])
                           emptyCollector)))"
    by (simp only: pc(2) KscInstance.sel)
  from h a b ev d show ?thesis by (intro conjI)
qed

section \<open>A failed listing that returns metadata\<close>

text \<open>The result of one pass of the loop body, in each of its cases.\<close>

lemma loadMeta_result:
  "if ex \<noteq> [] \<and> IsStrInList ex (ToLower e (MetricName meta))
   then loadMeta e pc ex ins meta cm = (cm, [])
   else case map_of (MetricMap cm) (metricKey (MetricName meta) (GetInstanceID ins)) of
          Some m \<Rightarrow>
            fst (loadMeta e pc ex ins meta cm) =
              cm\<lparr>heap := (heap cm)[m := fst (LoadSeries e (heap cm ! m)
                                         (fst (GetSeriesByInstances e (heap cm ! m) [ins])))]\<rparr>
        | None \<Rightarrow>
            (case NewMetricConfigWithProductYaml e pc meta of
               Inl err' \<Rightarrow> fst (loadMeta e pc ex ins meta cm) = cm
             | Inr cf \<Rightarrow>
                 (case NewMetric e meta cf of
                    Inl err' \<Rightarrow> fst (loadMeta e pc ex ins meta cm) = cm
                  | Inr nm \<Rightarrow>
                      fst (loadMeta e pc ex ins meta cm) =
                        cm\<lparr>MetricMap := MetricMap cm @
                               [(metricKey (MetricName meta) (GetInstanceID ins), length (heap cm))],
                           heap := heap cm @
                               [fst (LoadSeries e nm (fst (GetSeriesByInstances e nm [ins])))]\<rparr>))"
proof (cases "ex \<noteq> [] \<and> IsStrInList ex (ToLower e (MetricName meta))")
  case True
  then show ?thesis by (simp add: loadMeta_excluded)
next
  case False
  then have ne: "(ex \<noteq> [] \<and> IsStrInList ex (ToLower e (MetricName meta))) = False" by simp
  show ?thesis
  proof (cases "map_of (MetricMap cm) (metricKey (MetricName meta) (GetInstanceID ins))")
    case (Some m)
    show ?thesis
      by (simp only: ne if_False Some option.case) (rule loadMeta_registered[OF False Some])
  next
    case None
    show ?thesis
    proof (cases "NewMetricConfigWithProductYaml e pc meta")
      case (Inl err')
      then have "\<not> canBuild e pc meta" by (simp add: canBuild_def)
      from loadMeta_unbuildable[OF False None this] show ?thesis
        by (simp only: ne if_False None option.case Inl sum.case)
    next
      case (Inr cf)
      show ?thesis
      proof (cases "NewMetric e meta cf")
        case (Inl err')
        with Inr have "\<not> canBuild e pc meta" by (simp add: canBuild_def)
        from loadMeta_unbuildable[OF False None this] show ?thesis
          by (simp only: ne if_False None option.case Inr Inl sum.case)
      next
        case nm: (Inr nm)
        from loadMeta_built[OF False None Inr nm] show ?thesis
          by (simp only: ne if_False None option.case Inr nm sum.case)
      qed
    qed
  qed
qed

text \<open>
  Claim C10, as stated: an instance contributes no metrics only when its returned
  metadata sequence is empty, and every returned entry is processed into a Metric. It
  fails for the instance \<open>i-1\<close>, whose listing fails and returns two entries: \<open>Mem\<close> is
  excluded and the metric of \<open>disk\<close> cannot be built, so that the instance contributes
  nothing, its metadata sequence not being empty.
\<close>

theorem nonempty_failed_listing_contributes_nothing:
  "ListMetrics unbuiltEnv ''KEC'' ''i-1''
     = ([\<lparr>MetricName = ''Mem''\<rparr>, \<lparr>MetricName = ''disk''\<rparr>], Some ''listing failed'')
   \<and> loadMetrics unbuiltEnv [KscInstance ''i-1''] emptyCollector
     = (None, emptyCollector,
        [ListMetricsCall ''KEC'' ''i-1'',
         Log LWarn ''request metric list fail''
           [(''err'', S ''listing failed''), (''Namespace'', S ''KEC''), (''InstanceId'', S ''i-1'')],
         Log LWarn ''Create metric fail''
           [(''err'', S ''no metric''), (''Namespace'', S ''KEC''), (''name'', S ''disk'')]])
   \<and> fst (snd (LoadMetricsByProductConf unbuiltEnv emptyCollector)) = emptyCollector"
  by (simp add: example_defs failure_defs)

text \<open>
  Claim C10, amended. If listing the metric metadata for an instance returns both an
  error and a metadata sequence, the instance is not skipped: after the call and the
  warning, the body runs the loop over the returned metadata, the same loop as without
  an error. Every returned entry is filtered against the exclusion list: an entry whose
  lower-case name is on the list leaves the collector as it is. An entry that passes is
  processed: if its key is registered, the registered metric is loaded again in place;
  if it is not and the metric can be built, the new metric is registered under the key
  and loaded; if the metric cannot be built, the collector is left as it is. The keys
  registered after the instance are those registered before and the keys of the entries
  that are not excluded and can be built, and these are in the registry after
  \<open>loadMetrics\<close>. An instance contributes no metrics when its returned metadata
  sequence is empty, and also when each of its entries is excluded or cannot be built.
\<close>

theorem failed_listing_with_metadata_processed:
  assumes "ListMetrics e (Namespace c) (GetInstanceID ins) = (allMeta, Some err)"
  shows "loadInstance e pc ex ins c =
           (fst (loadMetas e pc ex ins allMeta c),
            ListMetricsCall (Namespace c) (GetInstanceID ins) #
            Log LWarn ''request metric list fail''
              [(''err'', S err), (''Namespace'', S (Namespace c)),
               (''InstanceId'', S (GetInstanceID ins))] #
            snd (loadMetas e pc ex ins allMeta c))
       \<and> fst ` set (MetricMap (fst (loadInstance e pc ex ins c))) =
           fst ` set (MetricMap c) \<union>
           {metricKey (MetricName meta) (GetInstanceID ins) | meta.
              meta \<in> set allMeta
              \<and> \<not> (ex \<noteq> [] \<and> IsStrInList ex (ToLower e (MetricName meta)))
              \<and> canBuild e pc meta}
       \<and> (\<forall>ms meta ms' cm.
             allMeta = ms @ meta # ms' \<and> cm = fst (loadMetas e pc ex ins ms c) \<longrightarrow>
             (if ex \<noteq> [] \<and> IsStrInList ex (ToLower e (MetricName meta))
              then loadMeta e pc ex ins meta cm = (cm, [])
              else case map_of (MetricMap cm) (metricKey (MetricName meta) (GetInstanceID ins)) of
                     Some m \<Rightarrow>
                       fst (loadMeta e pc ex ins meta cm) =
                         cm\<lparr>heap := (heap cm)[m := fst (LoadSeries e (heap cm ! m)
                                         (fst (GetSeriesByInstances e (heap cm ! m) [ins])))]\<rparr>
                   | None \<Rightarrow>
                       (case NewMetricConfigWithProductYaml e pc meta of
                          Inl err' \<Rightarrow> fst (loadMeta e pc ex ins meta cm) = cm
                        | Inr cf \<Rightarrow>
                            (case NewMetric e meta cf of
                               Inl err' \<Rightarrow> fst (loadMeta e pc ex ins meta cm) = cm
                             | Inr nm \<Rightarrow>
                                 fst (loadMeta e pc ex ins meta cm) =
                                   cm\<lparr>MetricMap := MetricMap cm @
                                          [(metricKey (MetricName meta) (GetInstanceID ins),
                                            length (heap cm))],
                                      heap := heap cm @
                                          [fst (LoadSeries e nm
                                                  (fst (GetSeriesByInstances e nm [ins])))]\<rparr>))))
       \<and> (GetProductConfig e (Namespace c) = (pc, None)
            \<and> ex = map (ToLower e) (ExcludeMetrics pc) \<and> ins \<in> set instances \<longrightarrow>
            {metricKey (MetricName meta) (GetInstanceID ins) | meta.
               meta \<in> set allMeta
               \<and> \<not> (ex \<noteq> [] \<and> IsStrInList ex (ToLower e (MetricName meta)))
               \<and> canBuild e pc meta}
            \<subseteq> fst ` set (MetricMap (fst (snd (loadMetrics e instances c)))))
       \<and> (allMeta = [] \<longrightarrow> fst (loadInstance e pc ex ins c) = c)
       \<and> ((\<forall>meta \<in> set allMeta.
              (ex \<noteq> [] \<and> IsStrInList ex (ToLower e (MetricName meta)))
              \<or> (map_of (MetricMap c) (metricKey (MetricName meta) (GetInstanceID ins)) = None
                 \<and> \<not> canBuild e pc meta)) \<longrightarrow>
            fst (loadInstance e pc ex ins c) = c)"
proof -
  have u: "loadInstance e pc ex ins c =
           (fst (loadMetas e pc ex ins allMeta c),
            ListMetricsCall (Namespace c) (GetInstanceID ins) #
            Log LWarn ''request metric list fail''
              [(''err'', S err), (''Namespace'', S (Namespace c)),
               (''InstanceId'', S (GetInstanceID ins))] #
            snd (loadMetas e pc ex ins allMeta c))"
    using loadInstance_unfold[OF assms, of pc ex] by simp
  have f: "fst (loadInstance e pc ex ins c) = fst (loadMetas e pc ex ins allMeta c)"
    unfolding u by simp
  have k: "fst ` set (MetricMap (fst (loadInstance e pc ex ins c))) =
           fst ` set (MetricMap c) \<union>
           {metricKey (MetricName meta) (GetInstanceID ins) | meta.
              meta \<in> set allMeta
              \<and> \<not> (ex \<noteq> [] \<and> IsStrInList ex (ToLower e (MetricName meta)))
              \<and> canBuild e pc meta}"
    unfolding f by (rule loadMetas_keys)
  have cyc: "{metricKey (MetricName meta) (GetInstanceID ins) | meta.
               meta \<in> set allMeta
               \<and> \<not> (ex \<noteq> [] \<and> IsStrInList ex (ToLower e (MetricName meta)))
               \<and> canBuild e pc meta}
            \<subseteq> fst ` set (MetricMap (fst (snd (loadMetrics e instances c))))"
    if "GetProductConfig e (Namespace c) = (pc, None)"
      "ex = map (ToLower e) (ExcludeMetrics pc)" "ins \<in> set instances"
  proof
    fix x assume "x \<in> {metricKey (MetricName meta) (GetInstanceID ins) | meta.
               meta \<in> set allMeta
               \<and> \<not> (ex \<noteq> [] \<and> IsStrInList ex (ToLower e (MetricName meta)))
               \<and> canBuild e pc meta}"
    then obtain meta where m: "x = metricKey (MetricName meta) (GetInstanceID ins)"
      "meta \<in> set allMeta" "\<not> (ex \<noteq> [] \<and> IsStrInList ex (ToLower e (MetricName meta)))"
      "canBuild e pc meta" by blast
    from loadInstances_adds_key[OF that(3) assms m(2,3,4)] that(1,2) m(1)
    show "x \<in> fst ` set (MetricMap (fst (snd (loadMetrics e instances c))))"
      by (simp add: loadMetrics_unfold)
  qed
  have emp: "fst (loadInstance e pc ex ins c) = c" if "allMeta = []"
    unfolding f using that by simp
  have un: "fst (loadInstance e pc ex ins c) = c"
    if "\<forall>meta \<in> set allMeta.
              (ex \<noteq> [] \<and> IsStrInList ex (ToLower e (MetricName meta)))
              \<or> (map_of (MetricMap c) (metricKey (MetricName meta) (GetInstanceID ins)) = None
                 \<and> \<not> canBuild e pc meta)"
    unfolding f using that by (rule loadMetas_unchanged)
  show ?thesis
  proof (intro conjI allI impI)
    show "loadInstance e pc ex ins c =
           (fst (loadMetas e pc ex ins allMeta c),
            ListMetricsCall (Namespace c) (GetInstanceID ins) #
            Log LWarn ''request metric list fail''
              [(''err'', S err), (''Namespace'', S (Namespace c)),
               (''InstanceId'', S (GetInstanceID ins))] #
            snd (loadMetas e pc ex ins allMeta c))" by (rule u)
  qed (rule k, rule loadMeta_result, (elim conjE, rule cyc, assumption+), erule emp, erule un)
qed

theorem failed_listing_with_metadata_processed_witness:
  "ListMetrics (exampleEnv 100 [KscInstance ''i-1'', KscInstance ''i-2''] failingNonEmpty noQueryErr)
     (Namespace emptyCollector) (GetInstanceID (KscInstance ''i-1''))
     = ([\<lparr>MetricName = ''Mem''\<rparr>, \<lparr>MetricName = ''cpu''\<rparr>], Some ''listing failed'')
   \<and> loadMeta (exampleEnv 100 [KscInstance ''i-1'', KscInstance ''i-2''] failingNonEmpty noQueryErr)
        \<lparr>ExcludeMetrics = [''Mem'']\<rparr> [''mem''] (KscInstance ''i-1'') \<lparr>MetricName = ''Mem''\<rparr>
        emptyCollector = (emptyCollector, [])
   \<and> fst (loadMeta (exampleEnv 100 [KscInstance ''i-1'', KscInstance ''i-2''] failingNonEmpty
                      noQueryErr)
        \<lparr>ExcludeMetrics = [''Mem'']\<rparr> [''mem''] (KscInstance ''i-1'') \<lparr>MetricName = ''cpu''\<rparr>
        emptyCollector)
       = \<lparr>Namespace = ''KEC'', MetricMap = [(''cpu.i-1'', 0)], Queries = [],
          heap = [\<lparr>SeriesCache = [''i-1''], LoadTimeAt = 100\<rparr>]\<rparr>
   \<and> ''cpu.i-1''
       \<in> fst ` set (MetricMap (fst (loadInstance
            (exampleEnv 100 [KscInstance ''i-1'', KscInstance ''i-2''] failingNonEmpty noQueryErr)
            \<lparr>ExcludeMetrics = [''Mem'']\<rparr> [''mem''] (KscInstance ''i-1'') emptyCollector)))
   \<and> ''cpu.i-1''
       \<in> fst ` set (MetricMap (fst (snd (loadMetrics
            (exampleEnv 100 [KscInstance ''i-1'', KscInstance ''i-2''] failingNonEmpty noQueryErr)
            [KscInstance ''i-1'', KscInstance ''i-2''] emptyCollector))))"
proof -
  let ?E = "exampleEnv 100 [KscInstance ''i-1'', KscInstance ''i-2''] failingNonEmpty noQueryErr"
  let ?pc = "\<lparr>ExcludeMetrics = [''Mem'']\<rparr>"
  let ?cpu = "\<lparr>MetricName = ''cpu''\<rparr>"
  let ?mem = "\<lparr>MetricName = ''Mem''\<rparr>"
  let ?i1 = "KscInstance ''i-1''"
  let ?K = "{metricKey (MetricName meta) (GetInstanceID ?i1) | meta.
               meta \<in> set [?mem, ?cpu]
               \<and> \<not> ([''mem''] \<noteq> [] \<and> IsStrInList [''mem''] (ToLower ?E (MetricName meta)))
               \<and> canBuild ?E ?pc meta}"
  have h: "ListMetrics ?E (Namespace emptyCollector) (GetInstanceID ?i1)
             = ([?mem, ?cpu], Some ''listing failed'')"
    by (simp add: exampleEnv_def failingNonEmpty_def)
  note T = failed_listing_with_metadata_processed[OF h, of ?pc "[''mem'']"
      "[KscInstance ''i-1'', KscInstance ''i-2'']"]
  have d1: "[?mem, ?cpu] = [] @ ?mem # [?cpu]
            \<and> emptyCollector = fst (loadMetas ?E ?pc [''mem''] ?i1 [] emptyCollector)"
    by simp
  have d2: "[?mem, ?cpu] = [?mem] @ ?cpu # []
            \<and> emptyCollector = fst (loadMetas ?E ?pc [''mem''] ?i1 [?mem] emptyCollector)"
    by (simp add: example_defs)
  from T[THEN conjunct2, THEN conjunct2, THEN conjunct1, rule_format, OF d1]
  have a: "loadMeta ?E ?pc [''mem''] ?i1 ?mem emptyCollector = (emptyCollector, [])"
    by (simp add: IsStrInList_def exampleEnv_def asciiLower_Mem)
  from T[THEN conjunct2, THEN conjunct2, THEN conjunct1, rule_format, OF d2]
  have b: "fst (loadMeta ?E ?pc [''mem''] ?i1 ?cpu emptyCollector)
       = \<lparr>Namespace = ''KEC'', MetricMap = [(''cpu.i-1'', 0)], Queries = [],
          heap = [\<lparr>SeriesCache = [''i-1''], LoadTimeAt = 100\<rparr>]\<rparr>"
    by (simp add: IsStrInList_def exampleEnv_def asciiLower_cpu emptyCollector_def metricKey_def)
  have mem: "''cpu.i-1'' \<in> ?K"
    by (rule CollectI, rule exI[of _ ?cpu])
       (simp add: metricKey_def IsStrInList_def canBuild_def exampleEnv_def asciiLower_cpu)
  from T[THEN conjunct2, THEN conjunct1] mem
  have c: "''cpu.i-1'' \<in> fst ` set (MetricMap (fst (loadInstance ?E ?pc [''mem''] ?i1 emptyCollector)))"
    by blast
  have gp: "GetProductConfig ?E (Namespace emptyCollector) = (?pc, None)
     \<and> [''mem''] = map (ToLower ?E) (ExcludeMetrics ?pc)
     \<and> ?i1 \<in> set [KscInstance ''i-1'', KscInstance ''i-2'']"
    by (simp add: exampleEnv_def asciiLower_Mem)
  from T[THEN conjunct2, THEN conjunct2, THEN conjunct2, THEN conjunct1, rule_format, OF gp] mem
  have d: "''cpu.i-1'' \<in> fst ` set (MetricMap (fst (snd (loadMetrics ?E
              [KscInstance ''i-1'', KscInstance ''i-2''] emptyCollector))))"
    by blast
  from h a b c d show ?thesis by (intro conjI)
qed

section \<open>The registry is well formed\<close>

text \<open>
  Two facts that the model of the map and of the pointers rests on, kept by every
  cycle: the keys of the registry are distinct, and every pointer in the registry and
  in the Query Set is the address of an object of the store (so that no read of the
  store in the model is out of range).
\<close>

lemma set_update_subset:
  "(k', v') \<in> set (AList.update k v al) \<Longrightarrow> (k', v') = (k, v) \<or> (k', v') \<in> set al"
  by (induction al) (auto split: if_splits)

lemma loadMeta_wf:
  assumes "loadMeta e pc ex ins meta c = (c', ev)"
    and "distinct (map fst (MetricMap c))"
    and "\<forall>(k, m) \<in> set (MetricMap c). m < length (heap c)"
  shows "distinct (map fst (MetricMap c')) \<and> (\<forall>(k, m) \<in> set (MetricMap c'). m < length (heap c'))"
proof -
  let ?key = "metricKey (MetricName meta) (GetInstanceID ins)"
  from loadMeta_shape[OF assms(1)] show ?thesis
  proof
    assume "c' = c"
    with assms(2,3) show ?thesis by simp
  next
    assume sh: "Namespace c' = Namespace c \<and> Queries c' = Queries c
          \<and> MetricMap c' =
              AList.update ?key
                (case map_of (MetricMap c) ?key of Some m \<Rightarrow> m | None \<Rightarrow> length (heap c))
                (MetricMap c)
          \<and> length (heap c') =
              (case map_of (MetricMap c) ?key of
                 Some m \<Rightarrow> length (heap c) | None \<Rightarrow> Suc (length (heap c)))"
    have d: "distinct (map fst (MetricMap c'))" using sh assms(2) by (simp add: distinct_update)
    have "m < length (heap c')" if "(k, m) \<in> set (MetricMap c')" for k m
    proof (cases "map_of (MetricMap c) ?key")
      case None
      with sh that have "(k, m) \<in> set (AList.update ?key (length (heap c)) (MetricMap c))"
        and l: "length (heap c') = Suc (length (heap c))" by simp_all
      from set_update_subset[OF this(1)] assms(3) l show ?thesis by auto
    next
      case (Some p)
      with sh that have "(k, m) \<in> set (AList.update ?key p (MetricMap c))"
        and l: "length (heap c') = length (heap c)" by simp_all
      moreover from Some have "(?key, p) \<in> set (MetricMap c)" by (rule map_of_SomeD)
      ultimately show ?thesis using set_update_subset[of k m ?key p "MetricMap c"] assms(3) by auto
    qed
    with d show ?thesis by auto
  qed
qed

lemma loadMetas_wf:
  assumes "loadMetas e pc ex ins metas c = (c', ev)"
    and "distinct (map fst (MetricMap c))"
    and "\<forall>(k, m) \<in> set (MetricMap c). m < length (heap c)"
  shows "distinct (map fst (MetricMap c')) \<and> (\<forall>(k, m) \<in> set (MetricMap c'). m < length (heap c'))"
  using assms
proof (induction metas arbitrary: c c' ev)
  case Nil
  then show ?case by simp
next
  case (Cons meta metas)
  obtain c1 ev1 where a: "loadMeta e pc ex ins meta c = (c1, ev1)" by (cases "loadMeta e pc ex ins meta c")
  obtain c2 ev2 where b: "loadMetas e pc ex ins metas c1 = (c2, ev2)"
    by (cases "loadMetas e pc ex ins metas c1")
  from Cons.prems(1) a b have c': "c' = c2" by simp
  from loadMeta_wf[OF a Cons.prems(2,3)] Cons.IH[OF b] show ?case unfolding c' by blast
qed

lemma loadInstances_wf:
  assumes "loadInstances e pc ex instances c = (c', ev)"
    and "distinct (map fst (MetricMap c))"
    and "\<forall>(k, m) \<in> set (MetricMap c). m < length (heap c)"
  shows "distinct (map fst (MetricMap c')) \<and> (\<forall>(k, m) \<in> set (MetricMap c'). m < length (heap c'))"
  using assms
proof (induction instances arbitrary: c c' ev)
  case Nil
  then show ?case by simp
next
  case (Cons ins instances)
  obtain c1 ev1 where a: "loadInstance e pc ex ins c = (c1, ev1)" by (cases "loadInstance e pc ex ins c")
  obtain c2 ev2 where b: "loadInstances e pc ex instances c1 = (c2, ev2)"
    by (cases "loadInstances e pc ex instances c1")
  from Cons.prems(1) a b have c': "c' = c2" by simp
  obtain allMeta lerr where l: "ListMetrics e (Namespace c) (GetInstanceID ins) = (allMeta, lerr)"
    by (cases "ListMetrics e (Namespace c) (GetInstanceID ins)")
  obtain c0 ev0 where m: "loadMetas e pc ex ins allMeta c = (c0, ev0)"
    by (cases "loadMetas e pc ex ins allMeta c")
  from loadInstance_unfold[OF l, of pc ex] a m have "c1 = c0" by simp
  with loadMetas_wf[OF m Cons.prems(2,3)]
  have "distinct (map fst (MetricMap c1))" "\<forall>(k, m) \<in> set (MetricMap c1). m < length (heap c1)"
    by simp_all
  from Cons.IH[OF b this] show ?case unfolding c' .
qed

lemma loadQueries_new:
  "loadQueries e t xs n c = (r, n', c') \<Longrightarrow>
     \<exists>new. Queries c' = Queries c @ new \<and> (\<forall>q \<in> set new. \<exists>(k, m) \<in> set xs. q = \<lparr>Metric = m\<rparr>)"
proof (induction xs arbitrary: n c)
  case Nil
  then show ?case by simp
next
  case (Cons x xs)
  obtain k m where x: "x = (k, m)" by (cases x)
  show ?case
  proof (cases "sint (t - LoadTimeAt (heap c ! m)) < 60")
    case False
    with Cons.prems x have "loadQueries e t xs n c = (r, n', c')" by simp
    from Cons.IH[OF this] show ?thesis by auto
  next
    case True
    show ?thesis
    proof (cases "NewQueryErr e m")
      case (Some err)
      with Cons.prems x True show ?thesis by (simp add: NewQuery_def)
    next
      case None
      with Cons.prems x True
      have "loadQueries e t xs (n + length (SeriesCache (heap c ! m)))
              (c\<lparr>Queries := Queries c @ [\<lparr>Metric = m\<rparr>]\<rparr>) = (r, n', c')"
        by (simp add: NewQuery_def)
      from Cons.IH[OF this] obtain new where
        "Queries c' = Queries c @ \<lparr>Metric = m\<rparr> # new"
        "\<forall>q \<in> set new. \<exists>(k, m) \<in> set xs. q = \<lparr>Metric = m\<rparr>"
        by auto
      then have "Queries c' = Queries c @ (\<lparr>Metric = m\<rparr> # new)
          \<and> (\<forall>q \<in> set (\<lparr>Metric = m\<rparr> # new). \<exists>(k, m) \<in> set (x # xs). q = \<lparr>Metric = m\<rparr>)"
        using x by auto
      then show ?thesis by blast
    qed
  qed
qed

lemma LoadMetricsByProductConf_wf:
  assumes "LoadMetricsByProductConf e c = (r, c', ev)"
    and "distinct (map fst (MetricMap c))"
    and "\<forall>(k, m) \<in> set (MetricMap c). m < length (heap c)"
    and "\<forall>q \<in> set (Queries c). Metric q < length (heap c)"
    and "set (rangeOrder e (MetricMap c')) \<subseteq> set (MetricMap c')"
  shows "distinct (map fst (MetricMap c')) \<and> (\<forall>(k, m) \<in> set (MetricMap c'). m < length (heap c'))
       \<and> (\<forall>q \<in> set (Queries c'). Metric q < length (heap c'))"
  using assms(1)
proof (cases rule: LoadMetricsByProductConf_cases)
  case (instances err)
  with assms show ?thesis by simp
next
  case (config instances1 err ev2)
  then have "snd (GetProductConfig e (Namespace c)) = Some err"
    using loadMetrics_error[of e instances1 c] by simp
  then have "c' = c" using config(2)
    by (cases "GetProductConfig e (Namespace c)") (simp add: loadMetrics_def)
  with assms show ?thesis by simp
next
  case (queries instances1 c2 ev2 n)
  obtain pc where gp: "GetProductConfig e (Namespace c) = (pc, None)"
    using loadMetrics_error[of e instances1 c] queries(2)
    by (cases "GetProductConfig e (Namespace c)") simp
  from queries(2) have li: "loadInstances e pc (map (ToLower e) (ExcludeMetrics pc)) instances1 c = (c2, ev2)"
    by (simp add: loadMetrics_unfold[OF gp])
  note w2 = loadInstances_wf[OF li assms(2,3)]
  note f2 = loadInstances_frame[OF li]
  note fq = loadQueries_frame[OF queries(3)]
  from loadQueries_new[OF queries(3)] obtain new where new: "Queries c' = Queries c2 @ new"
    "\<forall>q \<in> set new. \<exists>(k, m) \<in> set (rangeOrder e (MetricMap c2)). q = \<lparr>Metric = m\<rparr>"
    by blast
  have q': "Metric q < length (heap c')" if "q \<in> set (Queries c')" for q
  proof -
    from that new(1) f2 consider "q \<in> set (Queries c)" | "q \<in> set new" by auto
    then show ?thesis
    proof cases
      case 1
      with assms(4) f2 fq show ?thesis by auto
    next
      case 2
      with new(2) obtain k m where "(k, m) \<in> set (rangeOrder e (MetricMap c2))" "q = \<lparr>Metric = m\<rparr>"
        by blast
      moreover with assms(5) fq have "(k, m) \<in> set (MetricMap c2)" by auto
      ultimately show ?thesis using w2 fq by auto
    qed
  qed
  from w2 fq q' show ?thesis by auto
qed

section \<open>The goroutines of a scrape\<close>

lemma sent_map_Send [simp]: "sent (map Send pms) = pms"
  by (induction pms) simp_all

lemma sent_batchTask:
  "sent (batchTask e q) =
     (case GetPromMetricsByQueries e q of (pms, None) \<Rightarrow> pms | (pms, Some err) \<Rightarrow> [])"
  by (simp add: batchTask_def split: prod.splits option.splits)

lemma concat_sent_update:
  assumes "i < length ts" and "ts ! i = a # as"
  shows "mset (concat (map sent ts)) = mset (sent [a]) + mset (concat (map sent (ts[i := as])))"
  using assms
proof (induction ts arbitrary: i)
  case Nil
  then show ?case by simp
next
  case (Cons t ts)
  show ?case
  proof (cases i)
    case 0
    with Cons.prems show ?thesis by (cases a) simp_all
  next
    case (Suc j)
    with Cons.prems Cons.IH[of j] show ?thesis by simp
  qed
qed

text \<open>
  Whatever the interleaving, the sink grows by the samples that the goroutines had left
  to send, and the samples of each goroutine arrive in its own order.
\<close>

lemma goroutines_sink:
  assumes "goroutines ts s s'"
  shows "\<exists>new. fst s' = fst s @ new \<and> mset new = mset (concat (map sent ts))
             \<and> (\<forall>j < length ts. subseq (sent (ts ! j)) new)"
  using assms
proof (induction rule: goroutines.induct)
  case (joined ts s)
  then have "concat (map sent ts) = []" by (induction ts) simp_all
  moreover have "sent (ts ! j) = []" if "j < length ts" for j
  proof -
    from that have "ts ! j \<in> set ts" by (rule nth_mem)
    with joined have "ts ! j = []" by blast
    then show ?thesis by simp
  qed
  ultimately show ?case by simp
next
  case (step i ts a as s s')
  then obtain new where n: "fst s' = fst (perform a s) @ new"
    "mset new = mset (concat (map sent (ts[i := as])))"
    "\<forall>j < length ts. subseq (sent (ts[i := as] ! j)) new"
    by auto
  obtain ch lg where s: "s = (ch, lg)" by (cases s)
  have p: "fst (perform a s) = fst s @ sent [a]" using s by (cases a) simp_all
  have sub: "subseq (sent (ts ! j)) (sent [a] @ new)" if "j < length ts" for j
  proof (cases "j = i")
    case True
    from n(3) step(1) have "subseq (sent (ts[i := as] ! i)) new" by blast
    with step(1) have "subseq (sent as) new" by simp
    then have "subseq (sent [a] @ sent as) (sent [a] @ new)" by (intro list_emb_append_mono) simp_all
    moreover have "sent (a # as) = sent [a] @ sent as" by (cases a) simp_all
    ultimately show ?thesis using True step(2) by simp
  next
    case False
    from n(3) that have "subseq (sent (ts[i := as] ! j)) new" by blast
    with False have "subseq (sent (ts ! j)) new" by simp
    then show ?thesis by (simp add: subseq_drop_many)
  qed
  from n(1) p have "fst s' = fst s @ (sent [a] @ new)" by simp
  moreover have "mset (sent [a] @ new) = mset (concat (map sent ts))"
    using concat_sent_update[OF step(1,2)] n(2) by simp
  ultimately show ?case using sub by blast
qed

lemma length_concat_update:
  assumes "i < length ts" and "ts ! i = a # as"
  shows "length (concat (ts[i := as])) < length (concat ts)"
  using assms
proof (induction ts arbitrary: i)
  case Nil
  then show ?case by simp
next
  case (Cons t ts)
  show ?case
  proof (cases i)
    case 0
    with Cons.prems show ?thesis by simp
  next
    case (Suc j)
    with Cons.prems Cons.IH[of j] show ?thesis by simp
  qed
qed

text \<open>The goroutines always run to the end: the call of \<open>Wait\<close> returns.\<close>

lemma goroutines_total: "\<exists>s'. goroutines ts s s'"
proof (induction "length (concat ts)" arbitrary: ts s rule: less_induct)
  case less
  show ?case
  proof (cases "\<forall>t \<in> set ts. t = []")
    case True
    then show ?thesis using goroutines.joined by blast
  next
    case False
    then obtain i where i: "i < length ts" "ts ! i \<noteq> []" by (metis in_set_conv_nth)
    then obtain a as where a: "ts ! i = a # as" by (cases "ts ! i") simp_all
    from length_concat_update[OF i(1) a]
    have "length (concat (ts[i := as])) < length (concat ts)" .
    from less[OF this, of "perform a s"] obtain s' where "goroutines (ts[i := as]) (perform a s) s'"
      by blast
    with i(1) a show ?thesis using goroutines.step by blast
  qed
qed

lemma concat_sent_batchTask:
  "concat (map sent (map (batchTask e) batches)) =
     concat (map (\<lambda>q. fst (GetPromMetricsByQueries e q))
               (filter (\<lambda>q. snd (GetPromMetricsByQueries e q) = None) batches))"
  by (induction batches) (auto simp: sent_batchTask split: prod.splits option.splits)

text \<open>
  Claim C4. For every Query Set and whatever each fetch returns, every run of \<open>Collect'\<close>
  returns no error and has put on the sink, after what was there, exactly the samples
  of the batches whose fetch returned no error (as a multiset, the goroutines being
  interleaved), the samples of each such batch in their order; a batch whose fetch
  failed adds nothing. \<open>Collect'\<close> returns only when no goroutine has anything left to
  do, and it always returns.
\<close>

theorem Collect_emits_successful_batches:
  assumes "batches = SplitByBatch (if Namespace c = ''KS3'' then DefaultKS3QueryMetricBatchSize e
                                   else DefaultQueryMetricBatchSize e) (Queries c)"
  shows "(\<exists>ch' lg. Collect' e c ch (None, ch', lg))
       \<and> (\<forall>err ch' lg. Collect' e c ch (err, ch', lg) \<longrightarrow>
            err = None
            \<and> (\<exists>new. ch' = ch @ new
                  \<and> mset new = mset (concat (map (\<lambda>q. fst (GetPromMetricsByQueries e q))
                                      (filter (\<lambda>q. snd (GetPromMetricsByQueries e q) = None) batches)))
                  \<and> (\<forall>q \<in> set batches. snd (GetPromMetricsByQueries e q) = None \<longrightarrow>
                        subseq (fst (GetPromMetricsByQueries e q)) new)))"
proof (intro conjI allI impI)
  obtain ch' lg where "goroutines (map (batchTask e) batches) (ch, []) (ch', lg)"
    using goroutines_total[of "map (batchTask e) batches" "(ch, [])"] by auto
  with assms have "Collect' e c ch (None, ch', lg)"
    by (intro Collect'.intros[OF refl]) simp_all
  then show "\<exists>ch' lg. Collect' e c ch (None, ch', lg)" by blast
next
  fix err ch' lg
  assume "Collect' e c ch (err, ch', lg)"
  then have err: "err = None" and g: "goroutines (map (batchTask e) batches) (ch, []) (ch', lg)"
    using assms by (auto elim: Collect'.cases)
  show "err = None" by (rule err)
  from goroutines_sink[OF g] obtain new where n: "ch' = ch @ new"
    "mset new = mset (concat (map sent (map (batchTask e) batches)))"
    "\<forall>j < length batches. subseq (sent (map (batchTask e) batches ! j)) new"
    by auto
  have sub: "subseq (fst (GetPromMetricsByQueries e q)) new"
    if "q \<in> set batches" "snd (GetPromMetricsByQueries e q) = None" for q
  proof -
    from that(1) obtain j where j: "j < length batches" "batches ! j = q"
      by (auto simp: in_set_conv_nth)
    with n(3) have "subseq (sent (batchTask e q)) new" by auto
    with that(2) show ?thesis by (simp add: sent_batchTask split: prod.splits)
  qed
  from n(1,2) sub
  show "\<exists>new. ch' = ch @ new
          \<and> mset new = mset (concat (map (\<lambda>q. fst (GetPromMetricsByQueries e q))
                              (filter (\<lambda>q. snd (GetPromMetricsByQueries e q) = None) batches)))
          \<and> (\<forall>q \<in> set batches. snd (GetPromMetricsByQueries e q) = None \<longrightarrow>
                subseq (fst (GetPromMetricsByQueries e q)) new)"
    unfolding concat_sent_batchTask by blast
qed

lemma example_batches:
  "SplitByBatch (if Namespace scrapeCollector = ''KS3''
                 then DefaultKS3QueryMetricBatchSize (exampleEnv 100 [] cpuOnly noQueryErr)
                 else DefaultQueryMetricBatchSize (exampleEnv 100 [] cpuOnly noQueryErr))
     (Queries scrapeCollector)
   = [[\<lparr>Metric = 0\<rparr>], [\<lparr>Metric = 1\<rparr>], [\<lparr>Metric = 2\<rparr>], [\<lparr>Metric = 3\<rparr>]]"
  by (simp add: scrapeCollector_def exampleEnv_def SplitByBatch.simps)

lemma example_tasks:
  "map (batchTask (exampleEnv 100 [] cpuOnly noQueryErr))
     [[\<lparr>Metric = 0\<rparr>], [\<lparr>Metric = 1\<rparr>], [\<lparr>Metric = 2\<rparr>], [\<lparr>Metric = 3\<rparr>]]
   = [[Send ''sample''], [Send ''sample+''], [LogFail ''fetch failed''], [Send ''sample+++'']]"
  by (simp add: batchTask_def exampleEnv_def numeral_3_eq_3)

text \<open>One run: the fourth goroutine sends first, then the first, the third fails, the second.\<close>

lemma example_run:
  "goroutines [[Send ''sample''], [Send ''sample+''], [LogFail ''fetch failed''], [Send ''sample+++'']]
     ([], [])
     ([''sample+++'', ''sample'', ''sample+''],
      [Log LError ''Get samples fail'' [(''err'', S ''fetch failed'')]])"
  apply (rule goroutines.step[where i = 3 and a = "Send ''sample+++''" and as = "[]"])
    apply simp
   apply simp
  apply (rule goroutines.step[where i = 0 and a = "Send ''sample''" and as = "[]"])
    apply simp
   apply simp
  apply (rule goroutines.step[where i = 2 and a = "LogFail ''fetch failed''" and as = "[]"])
    apply simp
   apply simp
  apply (rule goroutines.step[where i = 1 and a = "Send ''sample+''" and as = "[]"])
    apply simp
   apply simp
  apply simp
  apply (rule goroutines.joined)
  apply simp
  done

theorem Collect_emits_successful_batches_witness:
  "[[\<lparr>Metric = 0\<rparr>], [\<lparr>Metric = 1\<rparr>], [\<lparr>Metric = 2\<rparr>], [\<lparr>Metric = 3\<rparr>]]
     = SplitByBatch (if Namespace scrapeCollector = ''KS3''
                     then DefaultKS3QueryMetricBatchSize (exampleEnv 100 [] cpuOnly noQueryErr)
                     else DefaultQueryMetricBatchSize (exampleEnv 100 [] cpuOnly noQueryErr))
         (Queries scrapeCollector)
   \<and> Collect' (exampleEnv 100 [] cpuOnly noQueryErr) scrapeCollector []
        (None, [''sample+++'', ''sample'', ''sample+''],
         [Log LError ''Get samples fail'' [(''err'', S ''fetch failed'')]])
   \<and> snd (GetPromMetricsByQueries (exampleEnv 100 [] cpuOnly noQueryErr) [\<lparr>Metric = 2\<rparr>])
       = Some ''fetch failed''
   \<and> mset [''sample+++'', ''sample'', ''sample+'']
       = mset (concat (map (\<lambda>q. fst (GetPromMetricsByQueries (exampleEnv 100 [] cpuOnly noQueryErr) q))
                 (filter (\<lambda>q. snd (GetPromMetricsByQueries (exampleEnv 100 [] cpuOnly noQueryErr) q)
                                = None)
                    [[\<lparr>Metric = 0\<rparr>], [\<lparr>Metric = 1\<rparr>], [\<lparr>Metric = 2\<rparr>], [\<lparr>Metric = 3\<rparr>]])))"
proof -
  let ?E = "exampleEnv 100 [] cpuOnly noQueryErr"
  let ?bs = "[[\<lparr>Metric = 0\<rparr>], [\<lparr>Metric = 1\<rparr>], [\<lparr>Metric = 2\<rparr>], [\<lparr>Metric = 3\<rparr>]]"
  note b = example_batches[symmetric]
  have "goroutines (map (batchTask ?E) ?bs) ([], [])
          ([''sample+++'', ''sample'', ''sample+''],
           [Log LError ''Get samples fail'' [(''err'', S ''fetch failed'')]])"
    unfolding example_tasks by (rule example_run)
  then have run: "Collect' ?E scrapeCollector []
        (None, [''sample+++'', ''sample'', ''sample+''],
         [Log LError ''Get samples fail'' [(''err'', S ''fetch failed'')]])"
    by (intro Collect'.intros[OF refl b]) 
  have f: "snd (GetPromMetricsByQueries ?E [\<lparr>Metric = 2\<rparr>]) = Some ''fetch failed''"
    by (simp add: exampleEnv_def)
  from Collect_emits_successful_batches[OF b, of "[]"] run
  have "\<exists>new. [''sample+++'', ''sample'', ''sample+''] = [] @ new
          \<and> mset new = mset (concat (map (\<lambda>q. fst (GetPromMetricsByQueries ?E q))
                              (filter (\<lambda>q. snd (GetPromMetricsByQueries ?E q) = None) ?bs)))"
    by blast
  then have m: "mset [''sample+++'', ''sample'', ''sample+'']
       = mset (concat (map (\<lambda>q. fst (GetPromMetricsByQueries ?E q))
                 (filter (\<lambda>q. snd (GetPromMetricsByQueries ?E q) = None) ?bs)))"
    by auto
  from b run f m show ?thesis by (intro conjI)
qed


section \<open>The loop of the reloader\<close>

text \<open>\<^verbatim>\<open>Stop\<close> a second time changes nothing.\<close>

lemma Stop_idempotent: "Stop (Stop r) = Stop r"
  by (simp add: Stop_def)

text \<open>A loop that has returned has reloaded at least once more, and saw the cancellation.\<close>

lemma RunLoop_count:
  "RunLoop its r n evs = Some (r', n', ev') \<Longrightarrow> n < n' \<and> cancelled r'"
proof (induction its arbitrary: r n evs)
  case Nil
  then show ?case by simp
next
  case (Cons it its)
  obtain e r2 ev2 where rl: "reloadMetricsByProductConf (cycleEnv it) r = (e, r2, ev2)"
    by (cases "reloadMetricsByProductConf (cycleEnv it) r")
  define r3 where "r3 = (if stopCalled it then Stop r2 else r2)"
  show ?case
  proof (cases "selectOf (cancelled r3) it")
    case CtxDone
    with Cons.prems rl show ?thesis
      by (auto simp: Let_def r3_def Stop_def)
  next
    case TickerC
    with Cons.prems rl obtain evs' where "RunLoop its r3 (Suc n) evs' = Some (r', n', ev')"
      by (auto simp: Let_def r3_def)
    from Cons.IH[OF this] show ?thesis by simp
  qed
qed

text \<open>
  Claim C7, as stated: a reloader stopped before the first tick runs no reload. It
  fails: the loop reloads before it looks at the cancellation for the first time. A
  reloader stopped during the sleep, whose first \<open>select\<close> finds the cancellation and
  a tick and takes the cancellation, has reloaded once when \<open>Run\<close> returns.
\<close>

theorem stopped_reloader_reloads_once:
  "map_option (fst \<circ> snd)
     (Run [\<lparr>cycleEnv = exampleEnv 100 [KscInstance ''i-1''] cpuOnly noQueryErr,
            stopCalled = False, tickReady = True, pick = CtxDone\<rparr>]
          (Stop \<lparr>collector = emptyCollector, cancelled = False\<rparr>))
   = Some 1
   \<and> map_option fst
     (Run [\<lparr>cycleEnv = exampleEnv 100 [KscInstance ''i-1''] cpuOnly noQueryErr,
            stopCalled = False, tickReady = True, pick = CtxDone\<rparr>]
          (Stop \<lparr>collector = emptyCollector, cancelled = False\<rparr>))
   = Some \<lparr>collector = cycleZero, cancelled = True\<rparr>"
  by (simp add: Run_def reloadMetricsByProductConf_def example_cycle_zero
      Stop_def selectOf_def cycleZero_def)

text \<open>
  Claim C7, amended. If \<open>Stop\<close> is signalled before the first interval has elapsed, the
  loop still sleeps the interval and then reloads once before it looks at the
  cancellation: \<open>Run\<close> returns after exactly one reload when the first \<open>select\<close> takes the
  cancellation (no tick is waiting, or Go picks that case), and goes on to a further
  reload when it takes the tick. The cancellation is looked at only in the \<open>select\<close>
  that follows each reload; whenever \<open>Run\<close> returns it has reloaded at least once.
\<close>

theorem Run_reloads_before_select:
  "(Run its r = Some (r', n, ev) \<longrightarrow> 1 \<le> n \<and> cancelled r')
   \<and> (\<not> (tickReady it \<and> pick it = TickerC) \<longrightarrow>
        (\<exists>r1 ev1. Run (it # its) (Stop r) = Some (r1, 1, ev1) \<and> cancelled r1
           \<and> collector r1 = fst (snd (LoadMetricsByProductConf (cycleEnv it) (collector r)))))
   \<and> (tickReady it \<and> pick it = TickerC \<longrightarrow>
        (\<exists>r1 ev1. Run (it # its) (Stop r) = RunLoop its r1 1 ev1 \<and> cancelled r1
           \<and> collector r1 = fst (snd (LoadMetricsByProductConf (cycleEnv it) (collector r)))))"
proof (intro conjI impI)
  assume "Run its r = Some (r', n, ev)"
  then show "1 \<le> n" "cancelled r'" using RunLoop_count[of its r 0 "[]" r' n ev]
    by (simp_all add: Run_def)
next
  obtain e c2 ev2 where l: "LoadMetricsByProductConf (cycleEnv it) (collector r) = (e, c2, ev2)"
    by (cases "LoadMetricsByProductConf (cycleEnv it) (collector r)")
  {
    assume "\<not> (tickReady it \<and> pick it = TickerC)"
    then have "selectOf True it = CtxDone"
      by (cases "pick it") (auto simp: selectOf_def)
    then show "\<exists>r1 ev1. Run (it # its) (Stop r) = Some (r1, 1, ev1) \<and> cancelled r1
           \<and> collector r1 = fst (snd (LoadMetricsByProductConf (cycleEnv it) (collector r)))"
      using l by (cases "stopCalled it") (force simp: Run_def reloadMetricsByProductConf_def Stop_def Let_def)+
  }
  {
    assume "tickReady it \<and> pick it = TickerC"
    then have "selectOf True it = TickerC" by (simp add: selectOf_def)
    then show "\<exists>r1 ev1. Run (it # its) (Stop r) = RunLoop its r1 1 ev1 \<and> cancelled r1
           \<and> collector r1 = fst (snd (LoadMetricsByProductConf (cycleEnv it) (collector r)))"
      using l by (cases "stopCalled it") (force simp: Run_def reloadMetricsByProductConf_def Stop_def Let_def)+
  }
qed

theorem Run_reloads_before_select_witness:
  "(\<exists>ev. Run [\<lparr>cycleEnv = exampleEnv 100 [KscInstance ''i-1''] cpuOnly noQueryErr,
               stopCalled = False, tickReady = True, pick = CtxDone\<rparr>]
             (Stop \<lparr>collector = emptyCollector, cancelled = False\<rparr>)
          = Some (\<lparr>collector = cycleZero, cancelled = True\<rparr>, 1, ev))
   \<and> \<not> (tickReady \<lparr>cycleEnv = exampleEnv 100 [KscInstance ''i-1''] cpuOnly noQueryErr,
                     stopCalled = False, tickReady = True, pick = CtxDone\<rparr>
          \<and> pick \<lparr>cycleEnv = exampleEnv 100 [KscInstance ''i-1''] cpuOnly noQueryErr,
                    stopCalled = False, tickReady = True, pick = CtxDone\<rparr> = TickerC)
   \<and> (1::nat) \<le> 1"
proof -
  let ?it = "\<lparr>cycleEnv = exampleEnv 100 [KscInstance ''i-1''] cpuOnly noQueryErr,
              stopCalled = False, tickReady = True, pick = CtxDone\<rparr>"
  let ?r = "\<lparr>collector = emptyCollector, cancelled = False\<rparr>"
  have h: "\<not> (tickReady ?it \<and> pick ?it = TickerC)" by simp
  have c: "fst (snd (LoadMetricsByProductConf (cycleEnv ?it) (collector ?r))) = cycleZero"
    by (simp add: example_cycle_zero cycleZero_def)
  from Run_reloads_before_select[where r = ?r and it = ?it and its = "[]"] h
  obtain r1 ev1 where "Run [?it] (Stop ?r) = Some (r1, 1, ev1)" "cancelled r1"
    "collector r1 = fst (snd (LoadMetricsByProductConf (cycleEnv ?it) (collector ?r)))"
    by blast
  then have "Run [?it] (Stop ?r) = Some (\<lparr>collector = cycleZero, cancelled = True\<rparr>, 1, ev1)"
    unfolding c by (cases r1) simp
  with h show ?thesis by blast
qed

end
